(* ===== verification/Prelude.thy ===== *)
theory Prelude
  imports Main "HOL-Library.Word"
begin

text \<open>
  Vocabulary shared by every component: machine words, the two ways a run of the
  program can go wrong, checked reads and writes of C memory, C's \<open>int\<close>, and reachable
  states of a transition system.
\<close>

unbundle bit_operations_syntax

section \<open>Machine words\<close>

type_synonym u8 = "8 word"
type_synonym u16 = "16 word"
type_synonym u32 = "32 word"

lemma xor_left_self [simp]: "a XOR (a XOR b) = b" for a b :: "'a::len word"
  by (simp flip: xor.assoc)

lemmas xor_ac = xor.assoc xor.commute xor.left_commute xor_left_self

lemma xor_eq_0_iff: "a XOR b = 0 \<longleftrightarrow> a = b" for a b :: "'a::len word"
  by (metis xor_left_self xor.comm_neutral xor_self_eq)

lemma and_1_neq_0: "r AND 1 \<noteq> 0 \<longleftrightarrow> odd r" for r :: "'a::len word"
  by (simp add: and_one_eq mod2_eq_if)

lemma word_low_high_xor: "x = take_bit n x XOR (x AND NOT (mask n))" for x :: "'a::len word"
  by (rule bit_word_eqI) (auto simp: bit_simps)

section \<open>Faults and results\<close>

text \<open>
  \<open>Log_Fatal\<close> is \<open>LOG_FATAL\<close>, which prints a message and calls \<open>exit(1)\<close>;
  \<open>Undef\<close> is undefined behaviour: an access outside an object, a signed overflow, a
  variable length array whose length is not positive; \<open>Blocked\<close> is a system call that does not return;
  \<open>Signal\<close> is a signal that ends the process, and \<open>Uncaught\<close> an exception that nobody catches, which ends it as well.
\<close>

datatype fault = Log_Fatal | Undef | Blocked | Signal | Uncaught

type_synonym 'a res = "fault + 'a"

fun bind_res :: "'a res \<Rightarrow> ('a \<Rightarrow> 'b res) \<Rightarrow> 'b res" where
  "bind_res (Inl e) f = Inl e"
| "bind_res (Inr x) f = f x"

lemma bind_res_cong: "m = m' \<Longrightarrow> (\<And>x. m' = Inr x \<Longrightarrow> f x = g x) \<Longrightarrow> bind_res m f = bind_res m' g"
  by (cases m') auto

lemma bind_res_Inr: "bind_res m f = Inr y \<longleftrightarrow> (\<exists>x. m = Inr x \<and> f x = Inr y)"
  by (cases m) auto

lemma bind_res_Inl: "bind_res m f = Inl e \<longleftrightarrow> m = Inl e \<or> (\<exists>x. m = Inr x \<and> f x = Inl e)"
  by (cases m) auto

text \<open>\<open>returns P m\<close>: if \<open>m\<close> does not fault then its result satisfies \<open>P\<close>.\<close>

definition returns :: "('a \<Rightarrow> bool) \<Rightarrow> 'a res \<Rightarrow> bool" where
  "returns P m \<longleftrightarrow> (case m of Inl e \<Rightarrow> True | Inr x \<Rightarrow> P x)"

lemma returns_simps [simp]: "returns P (Inl e)" "returns P (Inr x) \<longleftrightarrow> P x"
  by (simp_all add: returns_def)

lemma returns_bind: "returns P m \<Longrightarrow> (\<And>x. P x \<Longrightarrow> returns Q (f x)) \<Longrightarrow> returns Q (bind_res m f)"
  by (cases m) auto

lemma returns_weaken: "returns P m \<Longrightarrow> (\<And>x. P x \<Longrightarrow> Q x) \<Longrightarrow> returns Q m"
  by (cases m) auto

lemma returnsD: "returns P m \<Longrightarrow> m = Inr x \<Longrightarrow> P x"
  by simp

lemma returns_True [simp]: "returns (\<lambda>x. True) m"
  by (cases m) simp_all

section \<open>Memory\<close>

definition mem_read :: "'a list \<Rightarrow> nat \<Rightarrow> nat \<Rightarrow> 'a list res" where
  "mem_read m off n = (if off + n \<le> length m then Inr (take n (drop off m)) else Inl Undef)"

definition mem_write :: "'a list \<Rightarrow> nat \<Rightarrow> 'a list \<Rightarrow> 'a list res" where
  "mem_write m off d =
     (if off + length d \<le> length m
      then Inr (take off m @ d @ drop (off + length d) m) else Inl Undef)"

lemma mem_write_length: "mem_write m off d = Inr m' \<Longrightarrow> length m' = length m"
  by (auto simp: mem_write_def split: if_splits)

lemma mem_write_read_same:
  "mem_write m off d = Inr m' \<Longrightarrow> take (length d) (drop off m') = d"
  by (auto simp: mem_write_def split: if_splits)

lemma mem_write_read_below:
  "mem_write m off d = Inr m' \<Longrightarrow> i + n \<le> off \<Longrightarrow> take n (drop i m') = take n (drop i m)"
  by (auto simp: mem_write_def drop_take min_def split: if_splits)

lemma mem_write_read_above:
  assumes "mem_write m off d = Inr m'" and "off + length d \<le> i"
  shows "take n (drop i m') = take n (drop i m)"
proof -
  have "drop i m' = drop (i - (off + length d)) (drop (off + length d) m)"
    using assms by (auto simp: mem_write_def drop_append split: if_splits)
  then show ?thesis using assms(2) by simp
qed

section \<open>C integers\<close>

text \<open>
  \<open>int\<close> has 32 bits. Counters that the code keeps non-negative are \<open>nat\<close> here; where
  an addition could pass \<open>INT_MAX\<close> the model tests it, signed overflow being undefined.
\<close>

definition INT_MAX :: nat where
  "INT_MAX = 2147483647"

definition int_of_long :: "int \<Rightarrow> int" where
  "int_of_long x = signed_take_bit 31 x"

lemma int_of_long_id: "- (2 ^ 31) \<le> x \<Longrightarrow> x < 2 ^ 31 \<Longrightarrow> int_of_long x = x"
  by (simp add: int_of_long_def signed_take_bit_int_eq_self)

lemma mod_diff_cases:
  fixes a b m :: int
  assumes "0 \<le> a" "a < m" "0 \<le> b" "b < m"
  shows "(a - b) mod m = (if b \<le> a then a - b else a - b + m)"
proof (cases "b \<le> a")
  case False
  have "(a - b) mod m = (a - b + m) mod m" by simp
  also have "\<dots> = a - b + m" using assms False by (intro mod_pos_pos_trivial) auto
  finally show ?thesis using False by simp
qed (use assms in \<open>simp add: mod_pos_pos_trivial\<close>)

section \<open>Reachable states\<close>

inductive reachable :: "('s \<Rightarrow> bool) \<Rightarrow> ('s \<Rightarrow> 's \<Rightarrow> bool) \<Rightarrow> 's \<Rightarrow> bool" for init step where
  reach_init: "init s \<Longrightarrow> reachable init step s"
| reach_step: "reachable init step s \<Longrightarrow> step s t \<Longrightarrow> reachable init step t"

locale invariant_system =
  fixes ok :: "'c \<Rightarrow> bool" and init :: "'c \<Rightarrow> 's \<Rightarrow> bool"
    and step :: "'c \<Rightarrow> 's \<Rightarrow> 's \<Rightarrow> bool" and inv :: "'c \<Rightarrow> 's \<Rightarrow> bool"
  assumes inv_init: "ok c \<Longrightarrow> init c s \<Longrightarrow> inv c s"
    and inv_step: "ok c \<Longrightarrow> step c s t \<Longrightarrow> inv c s \<Longrightarrow> inv c t"
begin

lemma reachable_inv: "reachable (init c) (step c) s \<Longrightarrow> ok c \<Longrightarrow> inv c s"
  by (induction rule: reachable.induct) (auto intro: inv_init inv_step)

lemma steps_inv: "(step c)\<^sup>*\<^sup>* s t \<Longrightarrow> ok c \<Longrightarrow> inv c s \<Longrightarrow> inv c t"
  by (induction rule: rtranclp_induct) (auto intro: inv_step)

end

lemma reachable_steps: "reachable init step s \<Longrightarrow> step\<^sup>*\<^sup>* s t \<Longrightarrow> reachable init step t"
  by (rotate_tac, induction rule: rtranclp_induct) (auto intro: reach_step)

end
