(* ===== verification/Crc.thy ===== *)
theory Crc
  imports Prelude
begin

text \<open>
  \<open>lab2/src/util.c\<close>, checksum part: \<open>crc32_for_byte\<close>, the lazily filled static table of \<open>crc32\<close> (an argument and a
  result here) and \<open>compute_checksum\<close>, with the bitwise CRC-32 they are equal to and the errors it detects.
\<close>

fun crc32_for_byte_loop :: "nat \<Rightarrow> u32 \<Rightarrow> u32" where
  "crc32_for_byte_loop 0 r = r"
| "crc32_for_byte_loop (Suc j) r =
     crc32_for_byte_loop j ((if r AND 1 \<noteq> 0 then 0 else 0xEDB88320) XOR drop_bit 1 r)"

definition crc32_for_byte :: "u32 \<Rightarrow> u32" where
  "crc32_for_byte r = crc32_for_byte_loop 8 r XOR 0xFF000000"

type_synonym crc_table = "u32 list"

definition crc_table_zero :: crc_table where
  "crc_table_zero = replicate 256 0"

definition crc_table_init :: "crc_table \<Rightarrow> crc_table" where
  "crc_table_init tbl =
     (if tbl ! 0 = 0 then map (\<lambda>i. crc32_for_byte (of_nat i)) [0..<256] else tbl)"

fun crc32_bytes :: "crc_table \<Rightarrow> u8 list \<Rightarrow> u32 \<Rightarrow> u32" where
  "crc32_bytes tbl [] crc = crc"
| "crc32_bytes tbl (b # bs) crc =
     crc32_bytes tbl bs (tbl ! unat (ucast crc XOR b :: u8) XOR drop_bit 8 crc)"

definition crc32 :: "crc_table \<Rightarrow> u8 list \<Rightarrow> u32 \<Rightarrow> crc_table \<times> u32" where
  "crc32 tbl bs crc = (let tbl' = crc_table_init tbl in (tbl', crc32_bytes tbl' bs crc))"

definition compute_checksum :: "u8 list \<Rightarrow> u32" where
  "compute_checksum bs = snd (crc32 crc_table_zero bs 0)"

definition crc_bit :: "u32 \<Rightarrow> u32" where
  "crc_bit r = (if bit r 0 then 0xEDB88320 else 0) XOR drop_bit 1 r"

definition crc_byte :: "u32 \<Rightarrow> u8 \<Rightarrow> u32" where
  "crc_byte s b = (crc_bit ^^ 8) (s XOR ucast b)"

definition crc32_reference :: "u8 list \<Rightarrow> u32" where
  "crc32_reference bs = NOT (foldl crc_byte (NOT 0) bs)"

lemma crc_bit_xor: "crc_bit (a XOR b) = crc_bit a XOR crc_bit b"
  by (auto simp: crc_bit_def bit_xor_iff xor_ac)

lemma crc_bits_xor: "(crc_bit ^^ n) (a XOR b) = (crc_bit ^^ n) a XOR (crc_bit ^^ n) b"
  by (induction n) (auto simp: crc_bit_xor)

lemma crc_bit_0 [simp]: "crc_bit 0 = 0"
  by (simp add: crc_bit_def)

lemma crc_bits_0 [simp]: "(crc_bit ^^ n) 0 = 0"
  by (induction n) auto

lemma crc_bit_eq_0: "crc_bit r = 0 \<longleftrightarrow> r = 0"
proof
  assume z: "crc_bit r = 0"
  have "bit (crc_bit r) 31 \<longleftrightarrow> odd r"
    by (auto simp: crc_bit_def bit_simps bit_0 dest: bit_imp_le_length)
  with z have ev: "even r" by simp
  with z have d: "drop_bit 1 r = 0" by (simp add: crc_bit_def bit_0)
  show "r = 0"
  proof (rule bit_word_eqI)
    fix n assume "n < LENGTH(32)"
    show "bit r n = bit (0::u32) n"
    proof (cases n)
      case 0 with ev show ?thesis by (simp add: bit_0)
    next
      case (Suc m)
      have "bit (drop_bit 1 r) m = False" using d by simp
      with Suc show ?thesis by (simp add: bit_simps)
    qed
  qed
qed simp

lemma crc_bits_eq_0: "(crc_bit ^^ n) r = 0 \<longleftrightarrow> r = 0"
  by (induction n) (auto simp: crc_bit_eq_0)

lemma crc_bits_inj: "(crc_bit ^^ n) a = (crc_bit ^^ n) b \<longleftrightarrow> a = b"
  by (metis crc_bits_eq_0 crc_bits_xor xor_eq_0_iff)

lemma crc_bits_low_zero: "take_bit n x = 0 \<Longrightarrow> (crc_bit ^^ n) x = drop_bit n x"
proof (induction n arbitrary: x)
  case (Suc n)
  have ev: "even x"
    using Suc.prems by (metis bit_0 bit_take_bit_iff bit_0_eq bot_apply bot_bool_def zero_less_Suc)
  have "take_bit n (drop_bit 1 x) = 0"
    using Suc.prems by (metis One_nat_def Suc_eq_plus1 drop_bit_0 drop_bit_take_bit drop_bit_of_0 diff_Suc_1 take_bit_drop_bit)
  then have "(crc_bit ^^ n) (drop_bit 1 x) = drop_bit n (drop_bit 1 x)" by (rule Suc.IH)
  moreover have "crc_bit x = drop_bit 1 x" using ev by (simp add: crc_bit_def bit_0)
  ultimately show ?case by (simp add: funpow_Suc_right del: funpow.simps)
qed simp

lemma crc_byte_xor: "crc_byte (s XOR t) (a XOR b) = crc_byte s a XOR crc_byte t b"
proof -
  have "ucast (a XOR b) = (ucast a XOR ucast b :: u32)"
    by (rule bit_word_eqI) (auto simp: bit_simps)
  then show ?thesis by (simp add: crc_byte_def xor_ac flip: crc_bits_xor)
qed

lemma crc_byte_inj: "crc_byte s b = crc_byte t b \<longleftrightarrow> s = t"
  by (metis crc_byte_def crc_bits_inj xor.commute xor_left_self)

lemma crc_fold_inj: "foldl crc_byte s bs = foldl crc_byte t bs \<longleftrightarrow> s = t"
  by (induction bs arbitrary: s t) (auto simp: crc_byte_inj)

lemma crc_fold_xor:
  "length xs = length ys \<Longrightarrow>
   foldl crc_byte (s XOR t) (map2 (XOR) xs ys) = foldl crc_byte s xs XOR foldl crc_byte t ys"
  by (induction xs ys arbitrary: s t rule: list_induct2) (auto simp: crc_byte_xor)

fun le_word :: "u8 list \<Rightarrow> u32" where
  "le_word [] = 0"
| "le_word (b # bs) = ucast b XOR push_bit 8 (le_word bs)"

lemma bit_le_word: "bit (le_word bs) i \<Longrightarrow> i < 8 * length bs"
proof (induction bs arbitrary: i)
  case (Cons b bs)
  then show ?case
    by (cases "i < 8") (fastforce simp: bit_simps dest: bit_imp_le_length)+
qed simp

lemma drop_push_le_word:
  "length bs \<le> 3 \<Longrightarrow> drop_bit 8 (push_bit 8 (le_word bs)) = le_word bs"
  by (rule bit_word_eqI) (auto simp: bit_simps dest: bit_le_word)

lemma crc_bits_push_le_word:
  "length bs \<le> 3 \<Longrightarrow> (crc_bit ^^ 8) (push_bit 8 (le_word bs)) = le_word bs"
  by (subst crc_bits_low_zero) (auto simp: drop_push_le_word take_bit_push_bit)

lemma crc_fold_0:
  "length bs \<le> 4 \<Longrightarrow> foldl crc_byte s bs = 0 \<Longrightarrow> s = le_word bs"
proof (induction bs arbitrary: s)
  case (Cons b bs)
  from Cons.prems have "crc_byte s b = le_word bs" by (intro Cons.IH) auto
  also have "\<dots> = (crc_bit ^^ 8) (push_bit 8 (le_word bs))"
    using Cons.prems by (simp add: crc_bits_push_le_word)
  finally have "s XOR ucast b = push_bit 8 (le_word bs)"
    by (simp only: crc_byte_def crc_bits_inj)
  then have "s = push_bit 8 (le_word bs) XOR ucast b"
    by (metis xor.commute xor_left_self)
  then show ?case by (simp add: xor.commute)
qed simp

lemma le_word_0: "length bs \<le> 4 \<Longrightarrow> le_word bs = 0 \<Longrightarrow> \<forall>b \<in> set bs. b = 0"
proof (induction bs)
  case (Cons b bs)
  have b: "b = 0"
  proof (rule bit_word_eqI)
    fix n assume n: "n < LENGTH(8)"
    have "bit (le_word (b # bs)) n = bit b n"
      using n by (auto simp: bit_simps)
    with Cons.prems(2) show "bit b n = bit (0::u8) n" by simp
  qed
  with Cons.prems have "push_bit 8 (le_word bs) = 0" by simp
  then have "le_word bs = 0"
    using Cons.prems(1) drop_push_le_word [of bs] by simp
  with Cons b show ?case by simp
qed simp


definition crc_table_full :: crc_table where
  "crc_table_full = map (\<lambda>i. crc32_for_byte (of_nat i)) [0..<256]"

lemma crc32_for_byte_0: "crc32_for_byte 0 = 0xD202EF8D"
  by code_simp

lemma crc_bits_255: "(crc_bit ^^ 8) 255 = 0x2D02EF8D"
  by code_simp

lemma loop_crc_bits:
  "crc32_for_byte_loop n r = (crc_bit ^^ n) r XOR crc32_for_byte_loop n 0"
proof (induction n arbitrary: r)
  case (Suc n)
  let ?P = "0xEDB88320 :: u32"
  have "(if r AND 1 \<noteq> 0 then 0 else ?P) XOR drop_bit 1 r = ?P XOR crc_bit r"
    by (auto simp: crc_bit_def and_1_neq_0 bit_0)
  then have "crc32_for_byte_loop (Suc n) r
      = (crc_bit ^^ n) (?P XOR crc_bit r) XOR crc32_for_byte_loop n 0"
    by (simp only: crc32_for_byte_loop.simps Suc.IH [of "?P XOR crc_bit r"])
  moreover have "crc32_for_byte_loop (Suc n) 0 = (crc_bit ^^ n) ?P XOR crc32_for_byte_loop n 0"
    by (simp add: Suc.IH [of ?P])
  ultimately show ?case
    by (simp add: crc_bits_xor funpow_swap1 xor_ac)
qed simp

lemma crc32_for_byte_eq: "crc32_for_byte r = (crc_bit ^^ 8) r XOR 0xD202EF8D"
proof -
  have "crc32_for_byte r = (crc_bit ^^ 8) r XOR crc32_for_byte 0"
    unfolding crc32_for_byte_def by (subst loop_crc_bits) (simp only: xor.assoc)
  then show ?thesis by (simp only: crc32_for_byte_0)
qed

lemma word_of_nat_unat_ucast: "of_nat (unat x) = (ucast x :: 'b::len word)" for x :: "'a::len word"
  by (rule of_nat_unat)

lemma crc_table_full_nth:
  "crc_table_full ! unat (x :: u8) = (crc_bit ^^ 8) (ucast x) XOR 0xD202EF8D"
proof -
  have "unat x < 256" using unsigned_less [of x] by simp
  then show ?thesis
    by (simp add: crc_table_full_def crc32_for_byte_eq word_of_nat_unat_ucast del: funpow.simps)
qed

lemma crc_table_init_full [simp]: "crc_table_init crc_table_full = crc_table_full"
proof -
  have "crc_table_full ! 0 = crc32_for_byte 0"
    by (simp add: crc_table_full_def)
  then show ?thesis by (simp add: crc_table_init_def crc32_for_byte_0)
qed

lemma crc_table_init_zero [simp]: "crc_table_init crc_table_zero = crc_table_full"
  by (simp add: crc_table_init_def crc_table_zero_def crc_table_full_def)

lemma crc_table_step:
  "NOT (crc_table_full ! unat (ucast crc XOR b :: u8) XOR drop_bit 8 crc) = crc_byte (NOT crc) b"
proof -
  let ?i = "ucast (ucast crc XOR b :: u8) :: u32"
  let ?x = "NOT crc XOR ucast b"
  have masks: "(255 :: u32) = mask 8" "(0x00FFFFFF :: u32) = mask 24"
    by (simp_all add: mask_eq_exp_minus_1)
  have low: "?x = (?i XOR 255) XOR (?x AND NOT (mask 8))"
    unfolding masks by (rule bit_word_eqI) (auto simp: bit_simps dest: bit_imp_le_length)
  have high: "(crc_bit ^^ 8) (?x AND NOT (mask 8)) = drop_bit 8 (NOT crc)"
  proof (subst crc_bits_low_zero)
    show "take_bit 8 (?x AND NOT (mask 8)) = 0"
      by (rule bit_word_eqI) (auto simp: bit_simps)
    show "drop_bit 8 (?x AND NOT (mask 8)) = drop_bit 8 (NOT crc)"
      by (rule bit_word_eqI) (auto simp: bit_simps dest: bit_imp_le_length)
  qed
  have compl: "drop_bit 8 (NOT crc) = 0x00FFFFFF XOR drop_bit 8 crc"
    unfolding masks by (rule bit_word_eqI) (auto simp: bit_simps dest: bit_imp_le_length)
  have "crc_byte (NOT crc) b = (crc_bit ^^ 8) ?i XOR 0x2D02EF8D XOR (0x00FFFFFF XOR drop_bit 8 crc)"
    unfolding crc_byte_def by (subst low) (simp only: crc_bits_xor crc_bits_255 high compl xor.assoc)
  also have "\<dots> = (crc_bit ^^ 8) ?i XOR (0x2D02EF8D XOR 0x00FFFFFF) XOR drop_bit 8 crc"
    by (simp only: xor.assoc)
  also have "(0x2D02EF8D XOR 0x00FFFFFF :: u32) = NOT 0xD202EF8D" by simp
  also have "(crc_bit ^^ 8) ?i XOR NOT 0xD202EF8D XOR drop_bit 8 crc
      = NOT (((crc_bit ^^ 8) ?i XOR 0xD202EF8D) XOR drop_bit 8 crc)"
    by (simp only: bit.xor_compl_right bit.xor_compl_left xor.assoc)
  finally have eq: "crc_byte (NOT crc) b = NOT (((crc_bit ^^ 8) ?i XOR 0xD202EF8D) XOR drop_bit 8 crc)" .
  show ?thesis by (simp only: crc_table_full_nth eq)
qed

lemma crc32_bytes_full:
  "NOT (crc32_bytes crc_table_full bs crc) = foldl crc_byte (NOT crc) bs"
  by (induction bs arbitrary: crc) (simp_all add: crc_table_step)

lemma compute_checksum_full: "compute_checksum bs = crc32_bytes crc_table_full bs 0"
  by (simp add: compute_checksum_def crc32_def Let_def)

lemma compute_checksum_crc: "compute_checksum bs = crc32_reference bs"
  by (metis compute_checksum_full crc32_bytes_full crc32_reference_def bit.double_compl)

lemma crc_bits_funpow: "(crc_bit ^^ 8) r = crc_bit (crc_bit (crc_bit (crc_bit (crc_bit (crc_bit (crc_bit (crc_bit r)))))))"
  by (simp add: numeral_eq_Suc)


lemma checksum_xor_fold:
  "length xs = length ys \<Longrightarrow>
   compute_checksum xs = compute_checksum ys \<longleftrightarrow> foldl crc_byte 0 (map2 (XOR) xs ys) = 0"
  using crc_fold_xor [of xs ys "NOT 0" "NOT 0"]
  by (simp add: compute_checksum_crc crc32_reference_def xor_eq_0_iff bit.compl_eq_compl_iff)

lemma checksum_burst:
  assumes "length a = length b" and "length a \<le> 4" and "a \<noteq> b"
  shows "compute_checksum (pre @ a @ suf) \<noteq> compute_checksum (pre @ b @ suf)"
proof
  assume eq: "compute_checksum (pre @ a @ suf) = compute_checksum (pre @ b @ suf)"
  let ?s = "foldl crc_byte (NOT 0) pre"
  have "foldl crc_byte ?s a = foldl crc_byte ?s b"
    using eq by (simp add: compute_checksum_crc crc32_reference_def crc_fold_inj bit.compl_eq_compl_iff)
  then have "foldl crc_byte 0 (map2 (XOR) a b) = 0"
    using crc_fold_xor [OF assms(1), of ?s ?s] by simp
  then have "le_word (map2 (XOR) a b) = 0"
    using crc_fold_0 [of "map2 (XOR) a b" 0] assms by simp
  then have "\<forall>x \<in> set (map2 (XOR) a b). x = 0"
    using assms by (intro le_word_0) auto
  then have "a = b"
    using assms(1) by (auto simp: list_eq_iff_zip_eq xor_eq_0_iff)
  with assms(3) show False by contradiction
qed

text \<open>C17: the table-driven \<open>compute_checksum\<close>, with its inverted table and no initial or final complement, is
  the standard bitwise CRC-32 (reflected polynomial 0xEDB88320, initial value and final complement all ones).\<close>

theorem compute_checksum_is_crc32: "compute_checksum bs = crc32_reference bs"
  by (rule compute_checksum_crc)

fun crc32_calls :: "crc_table \<Rightarrow> u8 list list \<Rightarrow> u32 list" where
  "crc32_calls tbl [] = []"
| "crc32_calls tbl (m # ms) = (let (tbl', c) = crc32 tbl m 0 in c # crc32_calls tbl' ms)"

lemma crc32_calls_full: "crc32_calls crc_table_full ms = map compute_checksum ms"
  by (induction ms) (simp_all add: crc32_def Let_def compute_checksum_full)

text \<open>the static table that \<open>crc32\<close> fills on its first call never changes a result: a program's whole sequence
  of checksum computations gives each message the checksum it has on its own.\<close>

theorem crc_table_is_filled_once: "crc32_calls crc_table_zero ms = map compute_checksum ms"
  by (cases ms) (simp_all add: crc32_def Let_def compute_checksum_full crc32_calls_full)

locale burst_code =
  fixes code :: "u8 list \<Rightarrow> u32" and span :: nat
  assumes detects: "length a = length b \<Longrightarrow> length a \<le> span \<Longrightarrow> a \<noteq> b \<Longrightarrow>
    code (pre @ a @ suf) \<noteq> code (pre @ b @ suf)"

interpretation crc: burst_code compute_checksum 4
proof unfold_locales
  fix a b pre suf :: "u8 list"
  assume "length a = length b" "length a \<le> 4" "a \<noteq> b"
  then show "compute_checksum (pre @ a @ suf) \<noteq> compute_checksum (pre @ b @ suf)"
    by (rule checksum_burst)
qed

text \<open>two messages that differ in a run of at most four bytes, and nowhere else, never have the same checksum.\<close>

theorem checksum_detects_burst:
  assumes "length a = length b" and "length a \<le> 4" and "a \<noteq> b"
  shows "compute_checksum (pre @ a @ suf) \<noteq> compute_checksum (pre @ b @ suf)"
  using assms by (rule crc.detects)

theorem checksum_detects_burst_witness:
  "compute_checksum ([1, 2] @ [3, 4, 5] @ [6]) \<noteq> compute_checksum ([1, 2] @ [3, 7, 5] @ [6])"
  by (rule checksum_detects_burst) auto


end
