(* ===== verification/Packet.thy ===== *)
theory Packet
  imports Crc
begin

text \<open>
  \<open>lab2/src/rtp.h\<close> and \<open>rtp.c\<close>: the packed packet layout as bytes in the machine's little-endian order, the UDP
  endpoint of a program and its system calls, \<open>send_packet\<close>, \<open>recv_packet\<close> and \<open>set_sock_recv_time\<close>. \<open>wire\<close> is the image of a packet that was
  sent and \<open>decode_packet\<close> the specification of what \<open>recv_packet\<close> accepts. The globals \<open>sqn\<close>, \<open>addr\<close> and \<open>errno\<close> are fields of
  \<open>endpoint\<close>, whose oracle fields say which calls the system lets succeed.
\<close>

definition PAYLOAD_MAX :: nat where "PAYLOAD_MAX = 1461"

definition RTP_SYN :: u8 where "RTP_SYN = 1"
definition RTP_ACK :: u8 where "RTP_ACK = 2"
definition RTP_FIN :: u8 where "RTP_FIN = 4"

record rtp_header =
  seq_num :: u32
  rtp_length :: u16
  checksum :: u32
  flags :: u8

record rtp_packet =
  rtp :: rtp_header
  payload :: "u8 list"

definition le32 :: "u32 \<Rightarrow> u8 list" where
  "le32 w = [ucast w, ucast (drop_bit 8 w), ucast (drop_bit 16 w), ucast (drop_bit 24 w)]"

definition le16 :: "u16 \<Rightarrow> u8 list" where
  "le16 w = [ucast w, ucast (drop_bit 8 w)]"

definition of_le32 :: "u8 list \<Rightarrow> u32" where
  "of_le32 bs = ucast (bs ! 0) OR push_bit 8 (ucast (bs ! 1))
     OR push_bit 16 (ucast (bs ! 2)) OR push_bit 24 (ucast (bs ! 3))"

definition of_le16 :: "u8 list \<Rightarrow> u16" where
  "of_le16 bs = ucast (bs ! 0) OR push_bit 8 (ucast (bs ! 1))"

definition RTP_HEADER_SIZE :: nat where "RTP_HEADER_SIZE = 11"

definition header_image :: "rtp_header \<Rightarrow> u8 list" where
  "header_image h = le32 (seq_num h) @ le16 (rtp_length h) @ le32 (checksum h) @ [flags h]"

definition packet_image :: "rtp_packet \<Rightarrow> u8 list" where
  "packet_image p = header_image (rtp p) @ payload p"

definition image_header :: "u8 list \<Rightarrow> rtp_header" where
  "image_header m =
     \<lparr>seq_num = of_le32 (take 4 m), rtp_length = of_le16 (take 2 (drop 4 m)),
      checksum = of_le32 (take 4 (drop 6 m)), flags = m ! 10\<rparr>"

definition image_packet :: "u8 list \<Rightarrow> rtp_packet" where
  "image_packet m = \<lparr>rtp = image_header m, payload = drop RTP_HEADER_SIZE m\<rparr>"

lemma of_le32_le32 [simp]: "of_le32 (le32 w) = w"
proof (rule bit_word_eqI)
  fix n assume "n < LENGTH(32)"
  then consider "n < 8" | "8 \<le> n" "n < 16" | "16 \<le> n" "n < 24" | "24 \<le> n" "n < 32" by fastforce
  then show "bit (of_le32 (le32 w)) n = bit w n"
    by cases (auto simp: of_le32_def le32_def bit_simps)
qed

lemma of_le16_le16 [simp]: "of_le16 (le16 w) = w"
proof (rule bit_word_eqI)
  fix n assume "n < LENGTH(16)"
  then consider "n < 8" | "8 \<le> n" "n < 16" by fastforce
  then show "bit (of_le16 (le16 w)) n = bit w n"
    by cases (auto simp: of_le16_def le16_def bit_simps)
qed

lemma length_4: "length xs = 4 \<longleftrightarrow> (\<exists>a b c d. xs = [a, b, c, d])"
  by (simp add: numeral_eq_Suc length_Suc_conv) blast

lemma length_2: "length xs = 2 \<longleftrightarrow> (\<exists>a b. xs = [a, b])"
  by (simp add: numeral_eq_Suc length_Suc_conv) blast

lemma bit_u8_high [simp]: "8 \<le> n \<Longrightarrow> \<not> bit (a :: u8) n"
  by (auto dest: bit_imp_le_length)

lemma le32_of_le32 [simp]: "length bs = 4 \<Longrightarrow> le32 (of_le32 bs) = bs"
  by (auto simp: length_4 le32_def of_le32_def bit_simps intro!: bit_word_eqI dest: bit_imp_le_length)

lemma le16_of_le16 [simp]: "length bs = 2 \<Longrightarrow> le16 (of_le16 bs) = bs"
  by (auto simp: length_2 le16_def of_le16_def bit_simps intro!: bit_word_eqI dest: bit_imp_le_length)

lemma length_le32 [simp]: "length (le32 w) = 4"
  by (simp add: le32_def)

lemma length_le16 [simp]: "length (le16 w) = 2"
  by (simp add: le16_def)

lemma length_header_image [simp]: "length (header_image h) = 11"
  by (simp add: header_image_def)

lemma image_header_image [simp]: "image_header (header_image h @ d) = h"
  by (simp add: image_header_def header_image_def nth_append)

lemma image_packet_image [simp]: "image_packet (packet_image p) = p"
  by (simp add: image_packet_def packet_image_def RTP_HEADER_SIZE_def)

lemma header_image_split:
  assumes "11 \<le> length m"
  shows "header_image (image_header m) = take 11 m"
proof -
  have "take 11 m = take 4 m @ take 2 (drop 4 m) @ take 4 (drop 6 m) @ [m ! 10]"
  proof -
    have "take 11 m = take 4 m @ take 7 (drop 4 m)"
      by (simp flip: take_add)
    also have "take 7 (drop 4 m) = take 2 (drop 4 m) @ take 5 (drop 6 m)"
      using take_add [of 2 5 "drop 4 m"] by simp
    also have "take 5 (drop 6 m) = take 4 (drop 6 m) @ take 1 (drop 10 m)"
      using take_add [of 4 1 "drop 6 m"] by simp
    also have "take 1 (drop 10 m) = [m ! 10]"
      using assms by (simp add: take_Suc_conv_app_nth)
    finally show ?thesis by simp
  qed
  with assms show ?thesis by (simp add: header_image_def image_header_def)
qed

lemma packet_image_packet: "11 \<le> length m \<Longrightarrow> packet_image (image_packet m) = m"
  by (simp add: packet_image_def image_packet_def header_image_split RTP_HEADER_SIZE_def)


section \<open>Sockets\<close>

type_synonym sockaddr = "u32 \<times> u16"

datatype sock_event =
    Datagram sockaddr "u8 list"
  | Recv_Error int

definition EAGAIN :: int where "EAGAIN = 11"
definition EWOULDBLOCK :: int where "EWOULDBLOCK = EAGAIN"

record endpoint =
  ep_sqn :: u32
  ep_addr :: sockaddr
  ep_errno :: int
  ep_timeo :: "int \<times> int"
  ep_sendto :: "nat \<Rightarrow> bool"
  ep_setsockopt :: "int \<Rightarrow> int \<Rightarrow> bool"
  ep_out :: "(sockaddr \<times> u8 list) list"

definition set_sock_recv_time :: "endpoint \<Rightarrow> int \<Rightarrow> int \<Rightarrow> endpoint res" where
  "set_sock_recv_time ep sec msec =
     (let tv_usec = msec * 1000
      in if ep_setsockopt ep sec tv_usec then Inr (ep\<lparr>ep_timeo := (sec, tv_usec)\<rparr>)
         else Inl Log_Fatal)"

definition sendto :: "endpoint \<Rightarrow> u8 list \<Rightarrow> endpoint res" where
  "sendto ep m =
     (if ep_sendto ep (length (ep_out ep)) then Inr (ep\<lparr>ep_out := ep_out ep @ [(ep_addr ep, m)]\<rparr>)
      else Inl Log_Fatal)"

definition send_packet ::
    "endpoint \<Rightarrow> u32 \<Rightarrow> u8 \<Rightarrow> nat \<Rightarrow> u8 list option \<Rightarrow> endpoint res" where
  "send_packet ep sqn flgs dsize buf =
     bind_res
       (case buf of
          None \<Rightarrow> if dsize = 0 then Inr [] else Inl Undef
        | Some mem \<Rightarrow> if PAYLOAD_MAX < dsize then Inl Undef else mem_read mem 0 dsize)
       (\<lambda>data.
          let h = \<lparr>seq_num = sqn, rtp_length = of_nat dsize, checksum = 0, flags = flgs\<rparr>;
              cksm = compute_checksum (header_image h @ data)
          in sendto ep (header_image (h\<lparr>checksum := cksm\<rparr>) @ data))"

definition RTP_PACKET_SIZE :: nat where "RTP_PACKET_SIZE = RTP_HEADER_SIZE + PAYLOAD_MAX"

definition recvfrom :: "endpoint \<Rightarrow> rtp_packet \<Rightarrow> sock_event \<Rightarrow> int \<times> endpoint \<times> rtp_packet" where
  "recvfrom ep buf ev =
     (case ev of
        Datagram sa m \<Rightarrow>
          let d = take RTP_PACKET_SIZE m
          in (int (length d), ep\<lparr>ep_addr := sa\<rparr>,
              image_packet (d @ drop (length d) (packet_image buf)))
      | Recv_Error e \<Rightarrow> (-1, ep\<lparr>ep_errno := e\<rparr>, buf))"

definition recv_packet :: "endpoint \<Rightarrow> rtp_packet \<Rightarrow> sock_event \<Rightarrow> (int \<times> endpoint \<times> rtp_packet) res" where
  "recv_packet ep buf ev =
     (let (rsize, ep, buf) = recvfrom ep buf ev
      in if ep_errno ep = EAGAIN \<or> ep_errno ep = EWOULDBLOCK
         then Inr (-2, ep\<lparr>ep_errno := 0\<rparr>, buf)
         else if rsize < 0 then Inl Log_Fatal
         else
           let cksm = checksum (rtp buf);
               buf = buf\<lparr>rtp := (rtp buf)\<lparr>checksum := 0\<rparr>\<rparr>
           in if cksm \<noteq> compute_checksum (take (nat rsize) (packet_image buf))
              then Inr (-1, ep, buf)
              else if PAYLOAD_MAX < unat (rtp_length (rtp buf))
                      \<or> unat (rtp_length (rtp buf)) + RTP_HEADER_SIZE \<noteq> nat rsize
              then Inr (-1, ep, buf)
              else Inr (0, ep, buf))"

definition wire :: "u32 \<Rightarrow> u8 \<Rightarrow> u8 list \<Rightarrow> u8 list" where
  "wire sqn flgs data =
     (let h = \<lparr>seq_num = sqn, rtp_length = of_nat (length data), checksum = 0, flags = flgs\<rparr>
      in header_image (h\<lparr>checksum := compute_checksum (header_image h @ data)\<rparr>) @ data)"

definition packet_wf :: "rtp_packet \<Rightarrow> bool" where
  "packet_wf p \<longleftrightarrow> length (payload p) = PAYLOAD_MAX"

lemma length_wire [simp]: "length (wire s f d) = length d + 11"
  by (simp add: wire_def Let_def)

lemma send_packet_data:
  assumes "length d \<le> PAYLOAD_MAX"
  shows "send_packet ep s f (length d) (Some (d @ rest)) = sendto ep (wire s f d)"
  using assms by (simp add: send_packet_def mem_read_def wire_def Let_def)

lemma send_packet_ctl: "send_packet ep s f 0 None = sendto ep (wire s f [])"
  by (simp add: send_packet_def wire_def Let_def)

definition received :: "rtp_packet \<Rightarrow> u32 \<Rightarrow> u8 \<Rightarrow> u8 list \<Rightarrow> rtp_packet" where
  "received buf s f d =
     \<lparr>rtp = \<lparr>seq_num = s, rtp_length = of_nat (length d), checksum = 0, flags = f\<rparr>,
      payload = d @ drop (length d) (payload buf)\<rparr>"

lemma unat_length16: "n \<le> PAYLOAD_MAX \<Longrightarrow> unat (of_nat n :: u16) = n"
  by (simp add: PAYLOAD_MAX_def unat_of_nat take_bit_nat_eq_self)

lemma recvfrom_wire:
  assumes "length d \<le> PAYLOAD_MAX"
  shows "recvfrom ep buf (Datagram sa (wire s f d)) =
    (int (length d + 11), ep\<lparr>ep_addr := sa\<rparr>,
     (received buf s f d)\<lparr>rtp := (rtp (received buf s f d))\<lparr>checksum := compute_checksum (header_image
       \<lparr>seq_num = s, rtp_length = of_nat (length d), checksum = 0, flags = f\<rparr> @ d)\<rparr>\<rparr>)"
proof -
  have "take RTP_PACKET_SIZE (wire s f d) = wire s f d"
    using assms by (simp add: RTP_PACKET_SIZE_def RTP_HEADER_SIZE_def)
  then show ?thesis
    by (simp add: recvfrom_def)
       (simp add: wire_def Let_def image_packet_def RTP_HEADER_SIZE_def packet_image_def received_def)
qed

lemma recv_packet_wire:
  assumes "length d \<le> PAYLOAD_MAX" and "ep_errno ep \<noteq> EAGAIN"
  shows "recv_packet ep buf (Datagram sa (wire s f d)) = Inr (0, ep\<lparr>ep_addr := sa\<rparr>, received buf s f d)"
  using assms
  by (simp add: recv_packet_def recvfrom_wire EWOULDBLOCK_def Let_def nat_add_distrib)
     (simp add: received_def packet_image_def RTP_HEADER_SIZE_def unat_length16)

lemma packet_wf_received: "packet_wf buf \<Longrightarrow> length d \<le> PAYLOAD_MAX \<Longrightarrow> packet_wf (received buf s f d)"
  by (simp add: packet_wf_def received_def)

definition decode_packet :: "u8 list \<Rightarrow> (u32 \<times> u8 \<times> u8 list) option" where
  "decode_packet m =
     (let h = image_header m; d = drop RTP_HEADER_SIZE m
      in if RTP_HEADER_SIZE \<le> length m \<and> length d \<le> PAYLOAD_MAX \<and> unat (rtp_length h) = length d
            \<and> checksum h = compute_checksum (header_image (h\<lparr>checksum := 0\<rparr>) @ d)
         then Some (seq_num h, flags h, d) else None)"

lemma decode_packet_iff:
  "decode_packet m = Some (s, f, d) \<longleftrightarrow> m = wire s f d \<and> length d \<le> PAYLOAD_MAX"
proof
  assume dec: "decode_packet m = Some (s, f, d)"
  let ?h = "image_header m"
  have l: "11 \<le> length m" "length d \<le> PAYLOAD_MAX" "d = drop 11 m" "unat (rtp_length ?h) = length d"
    and c: "checksum ?h = compute_checksum (header_image (?h\<lparr>checksum := 0\<rparr>) @ d)"
    and sf: "s = seq_num ?h" "f = flags ?h"
    using dec by (auto simp: decode_packet_def Let_def RTP_HEADER_SIZE_def split: if_splits)
  have "rtp_length ?h = of_nat (length d)" using l(4) by (metis of_nat_unat ucast_id)
  then have "wire s f d
      = header_image (?h\<lparr>checksum := compute_checksum (header_image (?h\<lparr>checksum := 0\<rparr>) @ d)\<rparr>) @ d"
    using sf by (cases ?h) (simp add: wire_def Let_def)
  also have "\<dots> = header_image ?h @ d" by (simp flip: c)
  also have "\<dots> = m" using l by (simp add: header_image_split)
  finally show "m = wire s f d \<and> length d \<le> PAYLOAD_MAX" using l(2) by simp
next
  assume "m = wire s f d \<and> length d \<le> PAYLOAD_MAX"
  then show "decode_packet m = Some (s, f, d)"
    by (auto simp: decode_packet_def RTP_HEADER_SIZE_def wire_def Let_def unat_length16)
qed

lemma recv_packet_datagram:
  "recv_packet ep buf (Datagram sa m) =
    (let d = take RTP_PACKET_SIZE m; M = d @ drop (length d) (packet_image buf);
         h = image_header M; p = \<lparr>rtp = h\<lparr>checksum := 0\<rparr>, payload = drop 11 M\<rparr>; ep = ep\<lparr>ep_addr := sa\<rparr>
     in if ep_errno ep = EAGAIN then Inr (-2, ep\<lparr>ep_errno := 0\<rparr>, image_packet M)
        else if checksum h \<noteq> compute_checksum (take (length d) (packet_image p)) then Inr (-1, ep, p)
        else if PAYLOAD_MAX < unat (rtp_length h) \<or> unat (rtp_length h) + 11 \<noteq> length d
        then Inr (-1, ep, p) else Inr (0, ep, p))"
  by (simp add: recv_packet_def recvfrom_def Let_def image_packet_def EWOULDBLOCK_def RTP_HEADER_SIZE_def)

lemma recv_packet_accepts:
  assumes "ep_errno ep \<noteq> EAGAIN" and "recv_packet ep buf (Datagram sa m) = Inr (0, ep', buf')"
  shows "\<exists>s f d. decode_packet (take RTP_PACKET_SIZE m) = Some (s, f, d)"
proof -
  define d where "d = take RTP_PACKET_SIZE m"
  define M where "M = d @ drop (length d) (packet_image buf)"
  let ?h = "image_header M"
  have ok: "unat (rtp_length ?h) \<le> PAYLOAD_MAX" "unat (rtp_length ?h) + 11 = length d"
    "checksum ?h = compute_checksum (take (length d) (header_image (?h\<lparr>checksum := 0\<rparr>) @ drop 11 M))"
    using assms recv_packet_datagram [of ep buf sa m, unfolded Let_def, folded d_def, folded M_def]
    by (auto simp: packet_image_def split: if_splits)
  then have l: "11 \<le> length d" by linarith
  then have "?h = image_header d" and "take (length d - 11) (drop 11 M) = drop 11 d"
    by (auto simp: M_def image_header_def nth_append)
  moreover have "unat (rtp_length ?h) = length d - 11" using ok(2) by simp
  ultimately show ?thesis using ok l
    by (simp add: decode_packet_def RTP_HEADER_SIZE_def Let_def flip: d_def)
qed

lemma recv_packet_wf:
  assumes "recv_packet ep buf ev = Inr (c, ep', buf')" and "packet_wf buf"
  shows "packet_wf buf'"
proof (cases ev)
  case (Datagram sa m)
  define d where "d = take RTP_PACKET_SIZE m"
  define M where "M = d @ drop (length d) (packet_image buf)"
  have "length d \<le> 1472" by (simp add: d_def RTP_PACKET_SIZE_def RTP_HEADER_SIZE_def PAYLOAD_MAX_def)
  then have "length (drop 11 M) = PAYLOAD_MAX"
    using assms(2) by (simp add: M_def packet_image_def packet_wf_def PAYLOAD_MAX_def)
  with assms Datagram recv_packet_datagram [of ep buf sa m, unfolded Let_def, folded d_def, folded M_def]
  show ?thesis
    by (auto simp: packet_wf_def image_packet_def RTP_HEADER_SIZE_def split: if_splits)
next
  case (Recv_Error e)
  with assms show ?thesis by (auto simp: recv_packet_def recvfrom_def split: if_splits)
qed

lemma recv_packet_codes:
  assumes "ep_errno ep \<noteq> EAGAIN"
  obtains c buf' where "recv_packet ep buf (Datagram sa m) = Inr (c, ep\<lparr>ep_addr := sa\<rparr>, buf')"
    and "c = 0 \<or> c = -1"
proof -
  have "\<exists>c buf'. recv_packet ep buf (Datagram sa m) = Inr (c, ep\<lparr>ep_addr := sa\<rparr>, buf') \<and> (c = 0 \<or> c = -1)"
    using assms unfolding recv_packet_datagram Let_def by (simp cong: if_cong)
  then show ?thesis using that by blast
qed

lemma recv_packet_decode:
  assumes "ep_errno ep \<noteq> EAGAIN"
  shows "case decode_packet (take RTP_PACKET_SIZE m) of
      Some (s, f, d) \<Rightarrow> recv_packet ep buf (Datagram sa m) = Inr (0, ep\<lparr>ep_addr := sa\<rparr>, received buf s f d)
    | None \<Rightarrow> \<exists>buf'. recv_packet ep buf (Datagram sa m) = Inr (-1, ep\<lparr>ep_addr := sa\<rparr>, buf')"
proof (cases "decode_packet (take RTP_PACKET_SIZE m)")
  case None
  obtain c buf' where r: "recv_packet ep buf (Datagram sa m) = Inr (c, ep\<lparr>ep_addr := sa\<rparr>, buf')"
    and "c = 0 \<or> c = -1" using recv_packet_codes [OF assms] .
  moreover have "c \<noteq> 0" using recv_packet_accepts [OF assms, of buf sa m] r None by fastforce
  ultimately show ?thesis using None by simp
next
  case (Some x)
  then obtain s f d where x: "decode_packet (take RTP_PACKET_SIZE m) = Some (s, f, d)"
    by (cases x) auto
  then have w: "take RTP_PACKET_SIZE m = wire s f d" "length d \<le> PAYLOAD_MAX"
    by (auto simp: decode_packet_iff)
  have "recv_packet ep buf (Datagram sa m) = recv_packet ep buf (Datagram sa (take RTP_PACKET_SIZE m))"
    by (simp only: recv_packet_def recvfrom_def sock_event.case Let_def take_take min.idem)
  with w x show ?thesis using assms by (simp add: recv_packet_wire)
qed


definition frame :: "(u8 list \<Rightarrow> u32) \<Rightarrow> u8 list \<Rightarrow> u8 list \<Rightarrow> u8 list" where
  "frame code h t = h @ le32 (code (h @ [0, 0, 0, 0] @ t)) @ t"

lemma wire_frame:
  "wire s f d = frame compute_checksum (le32 s @ le16 (of_nat (length d))) ([f] @ d)"
  by (simp add: wire_def frame_def Let_def header_image_def le32_def [of 0])

lemma le32_inj: "le32 v = le32 w \<longleftrightarrow> v = w"
  by (metis of_le32_le32)

context burst_code
begin

lemma frame_burst:
  assumes f1: "frame code h t = pre @ a @ suf" and f2: "frame code h' t' = pre @ b @ suf"
    and h: "length h = n" "length h' = n" and l: "length a = length b" "length a \<le> span"
    and place: "length pre + length a \<le> n \<or> n \<le> length pre \<and> length pre + length a \<le> n + 4
                \<or> n + 4 \<le> length pre"
  shows "a = b"
proof -
  let ?m1 = "pre @ a @ suf" and ?m2 = "pre @ b @ suf"
  let ?c = "le32 (code (h @ [0, 0, 0, 0] @ t))" and ?c' = "le32 (code (h' @ [0, 0, 0, 0] @ t'))"
  have parts: "take n ?m1 = h" "take 4 (drop n ?m1) = ?c" "drop (n + 4) ?m1 = t"
    "take n ?m2 = h'" "take 4 (drop n ?m2) = ?c'" "drop (n + 4) ?m2 = t'"
    using h by (simp_all flip: f1 f2 add: frame_def)
  consider "length pre + length a \<le> n" | "n \<le> length pre" "length pre + length a \<le> n + 4"
    | "n + 4 \<le> length pre" using place by blast
  then show ?thesis
  proof cases
    case 1
    then have "drop n ?m1 = drop n ?m2" using l by simp
    then have "?c = ?c'" "t = t'" using parts by (metis, metis drop_drop add.commute)
    moreover have "h = pre @ a @ take (n - length pre - length a) suf"
      "h' = pre @ b @ take (n - length pre - length a) suf"
      using 1 l parts(1,4) by simp_all
    ultimately show ?thesis using detects l by (metis append.assoc le32_inj)
  next
    case 2
    then have "take n ?m1 = take n ?m2" "drop (n + 4) ?m1 = drop (n + 4) ?m2" using l by simp_all
    then have "frame code h t = frame code h' t'" using parts by simp
    with f1 f2 show ?thesis using l by simp
  next
    case 3
    then have "take (n + 4) ?m1 = take (n + 4) ?m2" by simp
    then have "h = h'" "?c = ?c'"
      using parts by (metis take_take min.absorb1 le_add1, metis take_drop add.commute)
    moreover have "t = drop (n + 4) pre @ a @ suf" "t' = drop (n + 4) pre @ b @ suf"
      using 3 parts(3,6) by simp_all
    ultimately show ?thesis using detects l by (metis append.assoc le32_inj)
  qed
qed

end

text \<open>C16: what \<open>recv_packet\<close> accepts. For an arriving datagram it returns 0 exactly when the bytes (as many as fit the
  packet buffer) decode as a packet, whose fields and data are then in the buffer, and -1 otherwise.\<close>

theorem recv_packet_refines_decode:
  assumes "ep_errno ep \<noteq> EAGAIN"
  shows "case decode_packet (take RTP_PACKET_SIZE m) of
      Some (s, f, d) \<Rightarrow> recv_packet ep buf (Datagram sa m) = Inr (0, ep\<lparr>ep_addr := sa\<rparr>, received buf s f d)
    | None \<Rightarrow> \<exists>buf'. recv_packet ep buf (Datagram sa m) = Inr (-1, ep\<lparr>ep_addr := sa\<rparr>, buf')"
  using assms by (rule recv_packet_decode)

text \<open>An endpoint whose system calls succeed, and a packet buffer.\<close>

definition demo_ep :: endpoint where
  "demo_ep = \<lparr>ep_sqn = 0, ep_addr = (0x7F000001, 12345), ep_errno = 0, ep_timeo = (0, 0),
     ep_sendto = (\<lambda>n. True), ep_setsockopt = (\<lambda>sec usec. True), ep_out = []\<rparr>"

definition demo_packet :: rtp_packet where
  "demo_packet = \<lparr>rtp = \<lparr>seq_num = 0, rtp_length = 0, checksum = 0, flags = 0\<rparr>,
     payload = replicate PAYLOAD_MAX 0\<rparr>"

lemma demo_errno [simp]: "ep_errno demo_ep \<noteq> EAGAIN"
  by (simp add: demo_ep_def EAGAIN_def)

theorem recv_packet_refines_decode_witness:
  "\<exists>buf'. recv_packet demo_ep demo_packet (Datagram (1, 2) [1, 2, 3]) = Inr (-1, demo_ep\<lparr>ep_addr := (1, 2)\<rparr>, buf')"
proof -
  have "decode_packet (take RTP_PACKET_SIZE [1, 2, 3]) = None"
    by (simp add: decode_packet_def Let_def RTP_HEADER_SIZE_def RTP_PACKET_SIZE_def PAYLOAD_MAX_def)
  with recv_packet_refines_decode [OF demo_errno, where m = "[1, 2, 3]" and buf = demo_packet and sa = "(1, 2)"]
  show ?thesis by simp
qed

text \<open>a datagram produced by \<open>send_packet\<close> and delivered unchanged makes \<open>recv_packet\<close> return 0 with the sequence
  number, flags, length and data that were sent.\<close>

theorem packet_round_trip:
  assumes "length d \<le> PAYLOAD_MAX" and "ep_errno ep2 \<noteq> EAGAIN"
    and "send_packet ep q f (length d) (Some (d @ rest)) = Inr ep'"
  shows "\<exists>m buf'. ep_out ep' = ep_out ep @ [(ep_addr ep, m)]
    \<and> recv_packet ep2 buf (Datagram sa m) = Inr (0, ep2\<lparr>ep_addr := sa\<rparr>, buf')
    \<and> seq_num (rtp buf') = q \<and> flags (rtp buf') = f \<and> unat (rtp_length (rtp buf')) = length d
    \<and> take (length d) (payload buf') = d"
proof -
  have "ep_out ep' = ep_out ep @ [(ep_addr ep, wire q f d)]"
    using assms(3) by (auto simp: send_packet_data [OF assms(1)] sendto_def split: if_splits)
  with recv_packet_wire [OF assms(1,2)] unat_length16 [OF assms(1)] show ?thesis
    by (intro exI [of _ "wire q f d"] exI [of _ "received buf q f d"]) (simp add: received_def)
qed

theorem packet_round_trip_witness:
  "\<exists>ep' m buf'. send_packet demo_ep 9 0 2 (Some [5, 6, 7]) = Inr ep' \<and> ep_out ep' = [(ep_addr demo_ep, m)]
    \<and> recv_packet demo_ep demo_packet (Datagram (1, 2) m) = Inr (0, demo_ep\<lparr>ep_addr := (1, 2)\<rparr>, buf')
    \<and> seq_num (rtp buf') = 9 \<and> take 2 (payload buf') = [5, 6]"
proof -
  have l: "length [5, 6 :: u8] \<le> PAYLOAD_MAX" by (simp add: PAYLOAD_MAX_def)
  obtain ep' where s: "send_packet demo_ep 9 0 (length [5, 6 :: u8]) (Some ([5, 6] @ [7])) = Inr ep'"
    using send_packet_data [OF l, of demo_ep 9 0 "[7]"] by (simp add: sendto_def demo_ep_def)
  have "ep_out demo_ep = []" by (simp add: demo_ep_def)
  with packet_round_trip [OF l demo_errno s, where buf = demo_packet and sa = "(1, 2)"] s show ?thesis
    by (auto simp: numeral_2_eq_2)
qed

text \<open>C18: a packet on the wire in which a run of at most four bytes changed is rejected, whatever the change, when the run lies in
  the header before the checksum, in the checksum, or in the flags and the data.\<close>

theorem recv_packet_rejects_burst:
  assumes "ep_errno ep \<noteq> EAGAIN" and "length d \<le> PAYLOAD_MAX"
    and w: "wire s f d = pre @ a @ suf"
    and l: "length b = length a" "length a \<le> 4" "b \<noteq> a"
    and place: "length pre + length a \<le> 6 \<or> 6 \<le> length pre \<and> length pre + length a \<le> 10
                \<or> 10 \<le> length pre"
  shows "\<exists>buf'. recv_packet ep buf (Datagram sa (pre @ b @ suf)) = Inr (-1, ep\<lparr>ep_addr := sa\<rparr>, buf')"
proof -
  have len: "length (pre @ b @ suf) \<le> RTP_PACKET_SIZE"
    using arg_cong [OF w, of length] assms(2) l by (simp add: RTP_PACKET_SIZE_def RTP_HEADER_SIZE_def)
  have "decode_packet (pre @ b @ suf) = None"
  proof (rule ccontr)
    assume "decode_packet (pre @ b @ suf) \<noteq> None"
    then obtain s' f' d' where "pre @ b @ suf = wire s' f' d'"
      by (auto simp: decode_packet_iff)
    then have "a = b"
      using crc.frame_burst [of "le32 s @ le16 (of_nat (length d))" "[f] @ d" pre a suf
          "le32 s' @ le16 (of_nat (length d'))" "[f'] @ d'" b 6] w l place
      by (simp add: wire_frame)
    with l(3) show False by simp
  qed
  with recv_packet_decode [OF assms(1), where m = "pre @ b @ suf" and buf = buf and sa = sa] len show ?thesis
    by simp
qed

theorem recv_packet_rejects_burst_witness:
  "\<exists>buf'. recv_packet demo_ep demo_packet (Datagram (1, 2) (take 11 (wire 5 0 [1, 2, 3]) @ [1, 2, 4] @ []))
    = Inr (-1, demo_ep\<lparr>ep_addr := (1, 2)\<rparr>, buf')"
proof (rule recv_packet_rejects_burst)
  show "ep_errno demo_ep \<noteq> EAGAIN" by simp
  show "length [1, 2, 3 :: u8] \<le> PAYLOAD_MAX" by (simp add: PAYLOAD_MAX_def)
  show "wire 5 0 [1, 2, 3] = take 11 (wire 5 0 [1, 2, 3]) @ [1, 2, 3] @ []" by (simp add: wire_def Let_def)
qed simp_all

section \<open>What the callers rely on\<close>

lemma recv_packet_timeout:
  "recv_packet ep buf (Recv_Error EAGAIN) = Inr (-2, ep\<lparr>ep_errno := 0\<rparr>, buf)"
  by (simp add: recv_packet_def recvfrom_def)

lemma recv_packet_error: "e \<noteq> EAGAIN \<Longrightarrow> recv_packet ep buf (Recv_Error e) = Inl Log_Fatal"
  by (simp add: recv_packet_def recvfrom_def EWOULDBLOCK_def)

lemma recv_packet_fault: "recv_packet ep buf ev = Inl e \<Longrightarrow> e = Log_Fatal"
  by (auto simp: recv_packet_def Let_def split: if_splits prod.splits)

lemma recv_packet_cases:
  assumes "recv_packet ep buf ev = Inr (c, ep', buf')" and "ep_errno ep \<noteq> EAGAIN"
  obtains (timeout) "ev = Recv_Error EAGAIN" and "c = -2" and "ep' = ep\<lparr>ep_errno := 0\<rparr>" and "buf' = buf"
  | (reject) sa m where "ev = Datagram sa m" and "c = -1" and "ep' = ep\<lparr>ep_addr := sa\<rparr>"
      and "decode_packet (take RTP_PACKET_SIZE m) = None"
  | (accept) sa m s f d where "ev = Datagram sa m" and "c = 0" and "ep' = ep\<lparr>ep_addr := sa\<rparr>"
      and "decode_packet (take RTP_PACKET_SIZE m) = Some (s, f, d)" and "buf' = received buf s f d"
proof (cases ev)
  case (Recv_Error e)
  with assms(1) have "e = EAGAIN" using recv_packet_error by fastforce
  with Recv_Error assms(1) show thesis by (intro timeout) (auto simp: recv_packet_timeout)
next
  case (Datagram sa m)
  show thesis
  proof (cases "decode_packet (take RTP_PACKET_SIZE m)")
    case None
    with recv_packet_decode [OF assms(2), where m = m and buf = buf and sa = sa] assms(1) Datagram show thesis
      by (intro reject) auto
  next
    case (Some x)
    obtain s f d where "x = (s, f, d)" by (cases x) auto
    with Some recv_packet_decode [OF assms(2), where m = m and buf = buf and sa = sa] assms(1) Datagram show thesis
      by (intro accept) auto
  qed
qed

lemma recv_packet_frame:
  assumes "recv_packet ep buf ev = Inr (c, ep', buf')"
  shows "ep_sqn ep' = ep_sqn ep" "ep_out ep' = ep_out ep" "ep_sendto ep' = ep_sendto ep"
    "ep_setsockopt ep' = ep_setsockopt ep" "ep_timeo ep' = ep_timeo ep"
proof -
  have "ep_sqn ep' = ep_sqn ep \<and> ep_out ep' = ep_out ep \<and> ep_sendto ep' = ep_sendto ep
    \<and> ep_setsockopt ep' = ep_setsockopt ep \<and> ep_timeo ep' = ep_timeo ep"
  proof (cases ev)
    case (Recv_Error e)
    with assms show ?thesis by (auto simp: recv_packet_def recvfrom_def split: if_splits)
  next
    case (Datagram sa m)
    with assms show ?thesis unfolding recv_packet_datagram Datagram Let_def
      by (auto split: if_splits simp del: packet_image_packet)
  qed
  then show "ep_sqn ep' = ep_sqn ep" "ep_out ep' = ep_out ep" "ep_sendto ep' = ep_sendto ep"
    "ep_setsockopt ep' = ep_setsockopt ep" "ep_timeo ep' = ep_timeo ep" by simp_all
qed

lemma recv_packet_errno:
  "recv_packet ep buf ev = Inr (c, ep', buf') \<Longrightarrow> ep_errno ep \<noteq> EAGAIN \<Longrightarrow> ep_errno ep' \<noteq> EAGAIN"
  by (erule recv_packet_cases) (auto simp: EAGAIN_def)

lemma sendto_Inr:
  "sendto ep m = Inr ep' \<longleftrightarrow>
   ep_sendto ep (length (ep_out ep)) \<and> ep' = ep\<lparr>ep_out := ep_out ep @ [(ep_addr ep, m)]\<rparr>"
  by (auto simp: sendto_def)

lemma sendto_Inl: "sendto ep m = Inl e \<Longrightarrow> e = Log_Fatal"
  by (auto simp: sendto_def split: if_splits)

lemma set_sock_recv_time_Inr:
  "set_sock_recv_time ep sec msec = Inr ep' \<longleftrightarrow>
   ep_setsockopt ep sec (msec * 1000) \<and> ep' = ep\<lparr>ep_timeo := (sec, msec * 1000)\<rparr>"
  by (auto simp: set_sock_recv_time_def Let_def)

lemma received_simps [simp]:
  "seq_num (rtp (received buf s f d)) = s" "flags (rtp (received buf s f d)) = f"
  "rtp_length (rtp (received buf s f d)) = of_nat (length d)"
  "take (length d) (payload (received buf s f d)) = d"
  by (simp_all add: received_def)

end
