(* ===== verification/Seqnum.thy ===== *)
theory Seqnum
  imports Prelude
begin

text \<open>
  \<open>lab2/src/util.c\<close>, sequence numbers: arithmetic modulo 2 ^ 31 on \<open>uint32_t\<close>. The locale \<open>seq_space\<close> is what the
  sender and the receiver use of it, and its interpretation \<open>sq\<close> is the code's own functions.
\<close>

definition get_random_seqnum :: u32 where
  "get_random_seqnum = 0x7FFFFFFF"

definition seqnum_add :: "u32 \<Rightarrow> int \<Rightarrow> u32" where
  "seqnum_add seqnum addnum = (seqnum + of_int addnum) AND 0x7FFFFFFF"

definition sqn_dis :: "u32 \<Rightarrow> u32 \<Rightarrow> int" where
  "sqn_dis l r = uint ((r - l) AND 0x7FFFFFFF)"

definition seqnum_is_in :: "u32 \<Rightarrow> u32 \<Rightarrow> u32 \<Rightarrow> bool" where
  "seqnum_is_in seqnum l r =
     (if l < r then seqnum \<ge> l \<and> seqnum < r else seqnum \<ge> l \<or> seqnum < r)"

definition seq_ok :: "u32 \<Rightarrow> bool" where
  "seq_ok s \<longleftrightarrow> s < 0x80000000"

lemma uint_mask31: "uint (w AND 0x7FFFFFFF :: u32) = uint w mod 2 ^ 31"
proof -
  have "(0x7FFFFFFF :: u32) = mask 31" by (simp add: mask_eq_exp_minus_1)
  then have "w AND 0x7FFFFFFF = take_bit 31 w" by (simp add: take_bit_eq_mask)
  then have "uint (w AND 0x7FFFFFFF) = take_bit 31 (uint w)"
    by (simp only: unsigned_take_bit_eq)
  then show ?thesis by (simp add: take_bit_eq_mod)
qed

lemma uint_seqnum_add: "uint (seqnum_add s n) = (uint s + n) mod 2 ^ 31"
proof -
  have "uint (s + of_int n) = (uint s + n) mod 2 ^ 32"
    by (simp add: uint_word_ariths unsigned_of_int take_bit_eq_mod mod_simps)
  then have "uint (seqnum_add s n) = (uint s + n) mod 2 ^ 32 mod 2 ^ 31"
    by (simp add: seqnum_add_def uint_mask31)
  also have "\<dots> = (uint s + n) mod 2 ^ 31"
    by (rule mod_mod_cancel) (simp add: le_imp_power_dvd)
  finally show ?thesis .
qed

lemma sqn_dis_eq: "sqn_dis l r = (uint r - uint l) mod 2 ^ 31"
proof -
  have "uint (r - l) = (uint r - uint l) mod 2 ^ 32"
    by (simp add: uint_word_ariths)
  then have "sqn_dis l r = (uint r - uint l) mod 2 ^ 32 mod 2 ^ 31"
    by (simp add: sqn_dis_def uint_mask31)
  also have "\<dots> = (uint r - uint l) mod 2 ^ 31"
    by (rule mod_mod_cancel) (simp add: le_imp_power_dvd)
  finally show ?thesis .
qed

lemma seq_ok_uint: "seq_ok s \<longleftrightarrow> uint s < 2 ^ 31"
  by (simp add: seq_ok_def word_less_def)

lemma seq_ok_add: "seq_ok (seqnum_add s n)"
  by (simp add: seq_ok_uint uint_seqnum_add)

lemma seqnum_is_in_uint:
  "seqnum_is_in s l r \<longleftrightarrow>
     (if uint l < uint r then uint l \<le> uint s \<and> uint s < uint r
      else uint l \<le> uint s \<or> uint s < uint r)"
  by (simp add: seqnum_is_in_def word_less_def word_le_def)

locale seq_space =
  fixes add :: "'n \<Rightarrow> int \<Rightarrow> 'n" and dis :: "'n \<Rightarrow> 'n \<Rightarrow> int"
    and is_in :: "'n \<Rightarrow> 'n \<Rightarrow> 'n \<Rightarrow> bool" and valid :: "'n \<Rightarrow> bool" and m :: int
  assumes m_pos: "0 < m"
    and add_valid: "valid (add a i)"
    and add_0: "valid a \<Longrightarrow> add a 0 = a"
    and add_add: "add (add a i) j = add a (i + j)"
    and dis_add: "dis (add a i) (add a j) = (j - i) mod m"
    and add_cong: "i mod m = j mod m \<Longrightarrow> add a i = add a j"
    and offset: "valid a \<Longrightarrow> valid x \<Longrightarrow> \<exists>i. x = add a i \<and> 0 \<le> i \<and> i < m"
    and is_in_dis: "valid x \<Longrightarrow> valid l \<Longrightarrow> valid r \<Longrightarrow>
           is_in x l r \<longleftrightarrow> l = r \<or> dis l x < dis l r"
begin

lemma dis_ahead: "i \<le> j \<Longrightarrow> j - i < m \<Longrightarrow> dis (add a i) (add a j) = j - i"
  by (simp add: dis_add)

lemma add_eq_iff: "add a i = add a j \<longleftrightarrow> i mod m = j mod m"
proof
  assume "add a i = add a j"
  then have "(j - i) mod m = (i - i) mod m" by (metis dis_add)
  then show "i mod m = j mod m" by (metis diff_self mod_0 mod_eq_dvd_iff dvd_imp_mod_0 mod_0_imp_dvd)
qed (rule add_cong)

lemma add_inj: "\<bar>i - j\<bar> < m \<Longrightarrow> add a i = add a j \<longleftrightarrow> i = j"
  unfolding add_eq_iff mod_eq_dvd_iff using m_pos dvd_imp_le_int [of "i - j" m] by fastforce

lemma is_in_window:
  assumes "i < j" and "j - i < m" and "i - k \<le> m - (j - i)" and "k - i < m"
  shows "is_in (add a k) (add a i) (add a j) \<longleftrightarrow> i \<le> k \<and> k < j"
proof -
  have ne: "add a i \<noteq> add a j" using assms add_inj [of i j a] by simp
  have "is_in (add a k) (add a i) (add a j) \<longleftrightarrow> (k - i) mod m < j - i"
    using assms ne by (simp add: is_in_dis add_valid dis_add)
  also have "\<dots> \<longleftrightarrow> i \<le> k \<and> k < j"
  proof (cases "i \<le> k")
    case False
    have "(k - i) mod m = (k - i + m) mod m" by simp
    also have "\<dots> = k - i + m"
      using False assms by (intro mod_pos_pos_trivial) auto
    finally have "(k - i) mod m = k - i + m" .
    with False assms show ?thesis by simp
  next
    case True with assms show ?thesis by simp
  qed
  finally show ?thesis .
qed

end

interpretation sq: seq_space seqnum_add sqn_dis seqnum_is_in seq_ok "2 ^ 31"
proof unfold_locales
  fix a x l r :: u32 and i j :: int
  show "seq_ok a \<Longrightarrow> seqnum_add a 0 = a"
    by (simp add: seq_ok_uint uint_seqnum_add word_uint_eq_iff)
  show "seqnum_add (seqnum_add a i) j = seqnum_add a (i + j)"
    by (simp add: uint_seqnum_add word_uint_eq_iff mod_simps ac_simps)
  show "sqn_dis (seqnum_add a i) (seqnum_add a j) = (j - i) mod 2 ^ 31"
    by (simp add: sqn_dis_eq uint_seqnum_add mod_simps)
  show "i mod 2 ^ 31 = j mod 2 ^ 31 \<Longrightarrow> seqnum_add a i = seqnum_add a j"
    by (metis uint_seqnum_add mod_add_right_eq word_uint_eq_iff)
  show "\<exists>i. x = seqnum_add a i \<and> 0 \<le> i \<and> i < 2 ^ 31" if "seq_ok a" "seq_ok x"
    using that by (intro exI [of _ "sqn_dis a x"])
      (simp add: seq_ok_uint word_uint_eq_iff uint_seqnum_add sqn_dis_eq mod_simps)
  show "seqnum_is_in x l r \<longleftrightarrow> l = r \<or> sqn_dis l x < sqn_dis l r"
    if "seq_ok x" "seq_ok l" "seq_ok r"
  proof -
    have pos: "0 \<le> uint x" "0 \<le> uint l" "0 \<le> uint r" by simp_all
    show ?thesis
      using pos that
      by (simp add: sqn_dis_eq mod_diff_cases seqnum_is_in_uint seq_ok_uint word_uint_eq_iff) (use pos in arith)
  qed
qed (auto simp: seq_ok_add)


text \<open>\<open>seqnum_add\<close> is addition modulo 2 ^ 31 of any (negative included) offset, and \<open>sqn_dis\<close> recovers that offset.\<close>

theorem seqnum_add_modular:
  "uint (seqnum_add s n) = (uint s + n) mod 2 ^ 31 \<and> sqn_dis s (seqnum_add s n) = n mod 2 ^ 31"
  by (simp add: uint_seqnum_add sqn_dis_eq mod_simps)

end
