(* ===== verification/Window.thy ===== *)
theory Window
  imports Prelude
begin

text \<open>
  \<open>lab2/src/util.c\<close>, \<open>update_window\<close>: the array of marks that both ends of Selective Repeat keep. The two
  loops are \<open>uw_scan\<close> and \<open>uw_move\<close>; the locale \<open>window_buffer\<close> is the contract its callers rely on.
\<close>

function uw_scan :: "int list \<Rightarrow> nat \<Rightarrow> nat \<Rightarrow> nat" where
  "uw_scan window wsize shift =
     (if shift < wsize \<and> window ! shift \<noteq> 0 then uw_scan window wsize (Suc shift) else shift)"
  by pat_completeness auto
termination
  by (relation "measure (\<lambda>(window, wsize, shift). wsize - shift)") auto

function uw_move :: "int list \<Rightarrow> nat \<Rightarrow> nat \<Rightarrow> nat \<Rightarrow> int list \<times> nat" where
  "uw_move window wsize lind rind =
     (if rind < wsize then uw_move (window[lind := window ! rind]) wsize (Suc lind) (Suc rind)
      else (window, lind))"
  by pat_completeness auto
termination
  by (relation "measure (\<lambda>(window, wsize, lind, rind). wsize - rind)") auto

declare uw_scan.simps [simp del] uw_move.simps [simp del]

definition update_window :: "int list \<Rightarrow> nat \<Rightarrow> int \<Rightarrow> (nat \<times> int list) res" where
  "update_window window wsize ind =
     (if ind < 0 \<or> int (length window) \<le> ind \<or> length window < wsize then Inl Undef
      else
        let window = window[nat ind := 1];
            shift = uw_scan window wsize 0;
            (window, lind) = uw_move window wsize 0 shift;
            window = take lind window @ replicate (wsize - lind) 0 @ drop wsize window
        in Inr (shift, window))"

lemma uw_scan_takeWhile:
  "shift \<le> length w \<Longrightarrow>
   uw_scan w (length w) shift = shift + length (takeWhile (\<lambda>x. x \<noteq> 0) (drop shift w))"
proof (induction w "length w" shift rule: uw_scan.induct)
  case (1 w shift)
  show ?case
  proof (cases "shift < length w \<and> w ! shift \<noteq> 0")
    case True
    then have "drop shift w = w ! shift # drop (Suc shift) w" by (simp add: Cons_nth_drop_Suc)
    with True 1 show ?thesis by (simp add: uw_scan.simps [of w "length w" shift])
  next
    case False
    then have "takeWhile (\<lambda>x. x \<noteq> 0) (drop shift w) = []"
      by (cases "shift < length w") (auto simp flip: Cons_nth_drop_Suc)
    moreover have "uw_scan w (length w) shift = shift" using False by (subst uw_scan.simps) auto
    ultimately show ?thesis by simp
  qed
qed

lemma uw_move_eq:
  assumes "length w = n" and "lind \<le> rind" and "rind \<le> n"
  shows "uw_move w n lind rind =
    (take lind w @ drop rind w @ drop (lind + (n - rind)) w, lind + (n - rind))"
  using assms
proof (induction "n - rind" arbitrary: w lind rind)
  case 0
  then show ?case by (subst uw_move.simps) simp
next
  case (Suc k)
  let ?w = "w[lind := w ! rind]"
  have r: "rind < n" using Suc by simp
  have "uw_move w n lind rind = uw_move ?w n (Suc lind) (Suc rind)"
    using r by (subst uw_move.simps) simp
  also have "\<dots> = (take (Suc lind) ?w @ drop (Suc rind) ?w
      @ drop (Suc lind + (n - Suc rind)) ?w, Suc lind + (n - Suc rind))"
    by (rule Suc.hyps) (use Suc r in auto)
  also have "take (Suc lind) ?w = take lind w @ [w ! rind]"
    using Suc r by (simp add: take_Suc_conv_app_nth)
  also have "drop (Suc rind) ?w = drop (Suc rind) w"
    using Suc by simp
  also have "drop (Suc lind + (n - Suc rind)) ?w = drop (lind + (n - rind)) w"
    using r by (simp add: Suc_diff_Suc)
  finally show ?case
    using Suc r by (simp add: Suc_diff_Suc flip: Cons_nth_drop_Suc)
qed

lemma update_window_eq:
  assumes "i < length w"
  shows "update_window w (length w) (int i) =
    (let w1 = w[i := 1]; mov = length (takeWhile (\<lambda>x. x \<noteq> 0) w1)
     in Inr (mov, drop mov w1 @ replicate mov 0))"
proof -
  let ?w = "w[i := 1]" and ?m = "length (takeWhile (\<lambda>x. x \<noteq> 0) (w[i := 1]))"
  have m: "?m \<le> length w" using length_takeWhile_le [of _ ?w] by simp
  have "uw_scan ?w (length w) 0 = ?m" using uw_scan_takeWhile [of 0 ?w] by simp
  moreover have "uw_move ?w (length w) 0 ?m
      = (drop ?m ?w @ drop (length w - ?m) ?w, length w - ?m)"
    using uw_move_eq [of ?w "length w" 0 ?m] m by simp
  ultimately show ?thesis
    using assms m by (simp add: update_window_def Let_def)
qed

definition covered :: "nat \<Rightarrow> int list \<Rightarrow> nat set" where
  "covered base w = {k. k < base \<or> (k < base + length w \<and> w ! (k - base) \<noteq> 0)}"

locale window_buffer =
  fixes marked :: "nat \<Rightarrow> 'w \<Rightarrow> nat set" and wlen :: "'w \<Rightarrow> nat"
    and upd :: "'w \<Rightarrow> nat \<Rightarrow> (nat \<times> 'w) res"
  assumes upd_total: "i < wlen w \<Longrightarrow> \<exists>mov w'. upd w i = Inr (mov, w')"
    and upd_wlen: "i < wlen w \<Longrightarrow> upd w i = Inr (mov, w') \<Longrightarrow> wlen w' = wlen w"
    and upd_mov: "i < wlen w \<Longrightarrow> upd w i = Inr (mov, w') \<Longrightarrow> mov \<le> wlen w"
    and upd_marked: "i < wlen w \<Longrightarrow> upd w i = Inr (mov, w') \<Longrightarrow>
          marked (base + mov) w' = insert (base + i) (marked base w)"
    and upd_maximal: "i < wlen w \<Longrightarrow> upd w i = Inr (mov, w') \<Longrightarrow> base + mov \<notin> marked (base + mov) w'"
    and below_marked: "k < base \<Longrightarrow> k \<in> marked base w"
begin

lemma upd_all:
  assumes "i < wlen w" and "upd w i = Inr (mov, w')" and "\<forall>k \<in> marked base w. P k" and "P (base + i)"
  shows "\<forall>k \<in> marked (base + mov) w'. P k"
  using assms upd_marked by auto

lemma upd_below:
  assumes "i < wlen w" and "upd w i = Inr (mov, w')" and "\<forall>k \<in> marked base w. P k" and "P (base + i)"
    and "k < base + mov"
  shows "P k"
  using upd_all [OF assms(1-4)] below_marked [OF assms(5)] by blast

lemma upd_progress:
  assumes "i < wlen w" and "upd w i = Inr (mov, w')" and "{base..<n} \<subseteq> insert (base + i) (marked base w)"
    and "base \<le> n"
  shows "n \<le> base + mov"
proof (rule ccontr)
  assume "\<not> n \<le> base + mov"
  then have "base + mov \<in> {base..<n}" by simp
  with assms(3) have "base + mov \<in> marked (base + mov) w'"
    using upd_marked [OF assms(1,2), of base] by blast
  with upd_maximal [OF assms(1,2)] show False by contradiction
qed

end

interpretation uw: window_buffer covered length "\<lambda>w i. update_window w (length w) (int i)"
proof unfold_locales
  fix i mov base :: nat and w w' :: "int list"
  assume i: "i < length w"
  let ?w = "w[i := 1]" and ?m = "length (takeWhile (\<lambda>x. x \<noteq> 0) (w[i := 1]))"
  show "\<exists>mov w'. update_window w (length w) (int i) = Inr (mov, w')"
    using i by (simp add: update_window_eq Let_def)
  assume "update_window w (length w) (int i) = Inr (mov, w')"
  then have mov: "mov = ?m" and w': "w' = drop ?m ?w @ replicate ?m 0"
    using i by (auto simp: update_window_eq Let_def)
  have m: "?m \<le> length w" using length_takeWhile_le [of _ ?w] by simp
  have pre: "?w ! j \<noteq> 0" if "j < ?m" for j
    using that by (metis (mono_tags, lifting) nth_mem set_takeWhileD takeWhile_nth)
  have stop: "?w ! ?m = 0" if "?m < length w"
    using that nth_length_takeWhile [of "\<lambda>x. x \<noteq> 0" ?w] by simp
  show length_w': "length w' = length w" using m by (simp add: w')
  show "mov \<le> length w" using m by (simp add: mov)
  have nth: "w' ! j = (if j + ?m < length w then ?w ! (j + ?m) else 0)" if "j < length w" for j
    using that m by (auto simp: w' nth_append add.commute)
  show "covered (base + mov) w' = insert (base + i) (covered base w)"
  proof (rule set_eqI)
    fix k
    have "k \<in> covered (base + mov) w' \<longleftrightarrow> k < base \<or> (k < base + length w \<and> ?w ! (k - base) \<noteq> 0)"
    proof -
      consider "k < base" | "base \<le> k" "k < base + ?m" | "base + ?m \<le> k" by linarith
      then show ?thesis
      proof cases
        case 3
        then obtain j where "k = base + ?m + j" using le_Suc_ex by blast
        then have k: "k - base = j + ?m" "k = base + (j + ?m)" by simp_all
        show ?thesis using nth [of j] m
          by (cases "j + ?m < length w") (auto simp: covered_def mov length_w' k)
      qed (use pre [of "k - base"] m in \<open>auto simp: covered_def mov\<close>)
    qed
    also have "\<dots> \<longleftrightarrow> k \<in> insert (base + i) (covered base w)"
      using i by (auto simp: covered_def nth_list_update)
    finally show "k \<in> covered (base + mov) w' \<longleftrightarrow> k \<in> insert (base + i) (covered base w)" .
  qed
  show "base + mov \<notin> covered (base + mov) w'"
  proof -
    have "0 < length w" using i by linarith
    then have "w' ! 0 = 0" using nth [of 0] stop by auto
    then show ?thesis by (simp add: covered_def)
  qed
qed (auto simp: covered_def)

text \<open>C38: for an index inside the window, \<open>update_window\<close> marks that position and slides past the marked prefix: the
  set of positions covered grows by exactly the given one, and the new base is the first position not covered.\<close>

theorem update_window_marks_and_slides:
  assumes "0 \<le> ind" and "nat ind < length w"
  shows "\<exists>mov w'. update_window w (length w) ind = Inr (mov, w') \<and> length w' = length w
    \<and> (\<forall>base. covered (base + mov) w' = insert (base + nat ind) (covered base w)
          \<and> base + mov \<notin> covered (base + mov) w')"
proof -
  have ind: "int (nat ind) = ind" using assms(1) by simp
  from uw.upd_total [OF assms(2)] obtain mov w' where
    u: "update_window w (length w) (int (nat ind)) = Inr (mov, w')" by blast
  with uw.upd_wlen [OF assms(2) u] uw.upd_marked [OF assms(2) u] uw.upd_maximal [OF assms(2) u] ind
  show ?thesis by auto
qed

theorem update_window_marks_and_slides_witness:
  "\<exists>mov w'. update_window [0, 1, 0] 3 0 = Inr (mov, w') \<and> covered (5 + mov) w' = insert 5 (covered 5 [0, 1, 0])"
proof -
  obtain mov w' where "update_window [0, 1, 0] (length [0, 1, 0 :: int]) 0 = Inr (mov, w')"
    "covered (5 + mov) w' = insert (5 + nat 0) (covered 5 [0, 1, 0])"
    using update_window_marks_and_slides [of 0 "[0, 1, 0]"] by auto
  then show ?thesis by (intro exI [of _ mov] exI [of _ w']) (simp add: eval_nat_numeral)
qed

end
