(* ===== verification/Handshake.thy ===== *)
theory Handshake
  imports Packet Seqnum
begin

text \<open>
  \<open>establish_connection\<close> and \<open>break_connection\<close> of \<open>lab2/src/sender.c\<close> and \<open>receiver.c\<close>, run over the list of what
  \<open>recvfrom\<close> returns. A run returns with the events left, waits for more events, or fails. The counter \<open>tries\<close> is incremented in the
  argument of \<open>LOG_DEBUG\<close>, so \<open>log_tries\<close> depends on whether \<open>LDEBUG\<close> was defined.
\<close>

definition RECV_S :: int where "RECV_S = 2"
definition WAIT_S :: int where "WAIT_S = 5"
definition SEND_MS :: int where "SEND_MS = 100"
definition SEND_TR :: int where "SEND_TR = 50"

section \<open>Runs over a sequence of socket events\<close>

datatype 'a run =
    Returned 'a "sock_event list"
  | Waiting endpoint
  | Failed fault

fun bind_run :: "'a run \<Rightarrow> ('a \<Rightarrow> sock_event list \<Rightarrow> 'b run) \<Rightarrow> 'b run" where
  "bind_run (Returned x evs) f = f x evs"
| "bind_run (Waiting ep) f = Waiting ep"
| "bind_run (Failed e) f = Failed e"

fun call :: "'a res \<Rightarrow> sock_event list \<Rightarrow> 'a run" where
  "call (Inl e) evs = Failed e"
| "call (Inr x) evs = Returned x evs"

fun recv_run :: "endpoint \<Rightarrow> rtp_packet \<Rightarrow> sock_event list \<Rightarrow> (int \<times> endpoint \<times> rtp_packet) run" where
  "recv_run ep pkt [] = Waiting ep"
| "recv_run ep pkt (e # evs) = call (recv_packet ep pkt e) evs"

definition log_tries :: "bool \<Rightarrow> int \<Rightarrow> int" where
  "log_tries ldebug tries = (if ldebug then tries + 1 else tries)"

section \<open>The sender\<close>

fun snd_establish_loop ::
    "bool \<Rightarrow> endpoint \<Rightarrow> rtp_packet \<Rightarrow> int \<Rightarrow> sock_event list \<Rightarrow> (endpoint \<times> rtp_packet) run" where
  "snd_establish_loop ldebug ep packet tries [] =
     (if SEND_TR < tries then Failed Log_Fatal else Waiting ep)"
| "snd_establish_loop ldebug ep packet tries (e # evs) =
     (if SEND_TR < tries then Failed Log_Fatal
      else case recv_packet ep packet e of
          Inl x \<Rightarrow> Failed x
        | Inr (scode, ep, packet) \<Rightarrow>
            if scode = 0 \<and> seq_num (rtp packet) = seqnum_add (ep_sqn ep) 1
               \<and> flags (rtp packet) = RTP_ACK OR RTP_SYN
            then Returned (ep, packet) evs
            else case send_packet ep (ep_sqn ep) RTP_SYN 0 None of
                Inl x \<Rightarrow> Failed x
              | Inr ep \<Rightarrow> snd_establish_loop ldebug ep packet (log_tries ldebug tries) evs)"

definition snd_establish_connection ::
    "bool \<Rightarrow> endpoint \<Rightarrow> rtp_packet \<Rightarrow> sock_event list \<Rightarrow> endpoint run" where
  "snd_establish_connection ldebug ep packet evs =
     (let ep = ep\<lparr>ep_sqn := get_random_seqnum\<rparr>
      in bind_run (call (bind_res (set_sock_recv_time ep 0 SEND_MS)
                          (\<lambda>ep. send_packet ep (ep_sqn ep) RTP_SYN 0 None)) evs)
      (\<lambda>ep evs. bind_run (snd_establish_loop ldebug ep packet (log_tries ldebug 0) evs)
      (\<lambda>(ep, packet) evs. bind_run (call (bind_res (set_sock_recv_time ep RECV_S 0)
           (\<lambda>ep. let ep = ep\<lparr>ep_sqn := seqnum_add (ep_sqn ep) 1\<rparr>
                 in send_packet ep (ep_sqn ep) RTP_ACK 0 None)) evs)
      (\<lambda>ep evs. bind_run (recv_run ep packet evs)
      (\<lambda>(scode, ep, packet) evs.
         if scode = 0 \<and> seq_num (rtp packet) = ep_sqn ep \<and> flags (rtp packet) = RTP_ACK OR RTP_SYN
         then call (send_packet ep (ep_sqn ep) RTP_ACK 0 None) evs
         else Returned ep evs)))))"

fun snd_break_loop ::
    "bool \<Rightarrow> endpoint \<Rightarrow> rtp_packet \<Rightarrow> int \<Rightarrow> sock_event list \<Rightarrow> endpoint run" where
  "snd_break_loop ldebug ep packet tries [] =
     (if SEND_TR < tries then Failed Log_Fatal else Waiting ep)"
| "snd_break_loop ldebug ep packet tries (e # evs) =
     (if SEND_TR < tries then Failed Log_Fatal
      else case recv_packet ep packet e of
          Inl x \<Rightarrow> Failed x
        | Inr (scode, ep, packet) \<Rightarrow>
            if scode = 0 \<and> seq_num (rtp packet) = ep_sqn ep
               \<and> flags (rtp packet) = RTP_ACK OR RTP_FIN
            then Returned ep evs
            else case send_packet ep (ep_sqn ep) RTP_FIN 0 None of
                Inl x \<Rightarrow> Failed x
              | Inr ep \<Rightarrow> snd_break_loop ldebug ep packet (log_tries ldebug tries) evs)"

definition snd_break_connection ::
    "bool \<Rightarrow> endpoint \<Rightarrow> rtp_packet \<Rightarrow> sock_event list \<Rightarrow> endpoint run" where
  "snd_break_connection ldebug ep packet evs =
     bind_run (call (bind_res (set_sock_recv_time ep 0 SEND_MS)
                      (\<lambda>ep. send_packet ep (ep_sqn ep) RTP_FIN 0 None)) evs)
     (\<lambda>ep evs. snd_break_loop ldebug ep packet (log_tries ldebug 0) evs)"

section \<open>The receiver\<close>

fun rcv_syn_loop :: "endpoint \<Rightarrow> rtp_packet \<Rightarrow> sock_event list \<Rightarrow> (endpoint \<times> rtp_packet) run" where
  "rcv_syn_loop ep packet [] = Waiting ep"
| "rcv_syn_loop ep packet (e # evs) =
     (case recv_packet ep packet e of
        Inl x \<Rightarrow> Failed x
      | Inr (scode, ep, packet) \<Rightarrow>
          if scode = -2 then Failed Log_Fatal
          else if scode = 0 \<and> flags (rtp packet) = RTP_SYN then Returned (ep, packet) evs
          else rcv_syn_loop ep packet evs)"

fun rcv_ack_loop ::
    "bool \<Rightarrow> endpoint \<Rightarrow> rtp_packet \<Rightarrow> int \<Rightarrow> sock_event list \<Rightarrow> endpoint run" where
  "rcv_ack_loop ldebug ep packet tries [] =
     (if SEND_TR < tries then Failed Log_Fatal else Waiting ep)"
| "rcv_ack_loop ldebug ep packet tries (e # evs) =
     (if SEND_TR < tries then Failed Log_Fatal
      else case recv_packet ep packet e of
          Inl x \<Rightarrow> Failed x
        | Inr (scode, ep, packet) \<Rightarrow>
            if scode = 0 \<and> seq_num (rtp packet) = ep_sqn ep \<and> flags (rtp packet) = RTP_ACK
            then Returned ep evs
            else case send_packet ep (ep_sqn ep) (RTP_ACK OR RTP_SYN) 0 None of
                Inl x \<Rightarrow> Failed x
              | Inr ep \<Rightarrow> rcv_ack_loop ldebug ep packet (log_tries ldebug tries) evs)"

definition rcv_establish_connection ::
    "bool \<Rightarrow> endpoint \<Rightarrow> rtp_packet \<Rightarrow> sock_event list \<Rightarrow> endpoint run" where
  "rcv_establish_connection ldebug ep packet evs =
     bind_run (call (set_sock_recv_time ep WAIT_S 0) evs)
     (\<lambda>ep evs. bind_run (rcv_syn_loop ep packet evs)
     (\<lambda>(ep, packet) evs.
        let ep = ep\<lparr>ep_sqn := seqnum_add (seq_num (rtp packet)) 1\<rparr>
        in bind_run (call (bind_res (set_sock_recv_time ep 0 SEND_MS)
                            (\<lambda>ep. send_packet ep (ep_sqn ep) (RTP_ACK OR RTP_SYN) 0 None)) evs)
     (\<lambda>ep evs. rcv_ack_loop ldebug ep packet (log_tries ldebug 0) evs)))"

fun rcv_fin_loop :: "endpoint \<Rightarrow> rtp_packet \<Rightarrow> sock_event list \<Rightarrow> (endpoint \<times> rtp_packet) run" where
  "rcv_fin_loop ep packet [] = Waiting ep"
| "rcv_fin_loop ep packet (e # evs) =
     (case recv_packet ep packet e of
        Inl x \<Rightarrow> Failed x
      | Inr (ret, ep, packet) \<Rightarrow>
          let scode = (if ret < 0 then 1 else 0 :: int)
          in if scode = -2 then Failed Log_Fatal
             else if scode = 0 \<and> flags (rtp packet) = RTP_FIN then Returned (ep, packet) evs
             else rcv_fin_loop ep packet evs)"

definition rcv_break_connection :: "endpoint \<Rightarrow> rtp_packet \<Rightarrow> sock_event list \<Rightarrow> endpoint run" where
  "rcv_break_connection ep packet evs =
     bind_run (call (set_sock_recv_time ep WAIT_S 0) evs)
     (\<lambda>ep evs. bind_run (rcv_fin_loop ep packet evs)
     (\<lambda>(ep, packet) evs. bind_run (call (bind_res (set_sock_recv_time ep RECV_S 0)
          (\<lambda>ep. let ep = ep\<lparr>ep_sqn := seq_num (rtp packet)\<rparr>
                in send_packet ep (ep_sqn ep) (RTP_ACK OR RTP_FIN) 0 None)) evs)
     (\<lambda>ep evs. bind_run (recv_run ep packet evs)
     (\<lambda>(scode, ep, packet) evs.
        let ep = ep\<lparr>ep_sqn := seq_num (rtp packet)\<rparr>
        in if scode = 0 \<and> seq_num (rtp packet) = ep_sqn ep \<and> flags (rtp packet) = RTP_FIN
           then call (send_packet ep (ep_sqn ep) (RTP_ACK OR RTP_FIN) 0 None) evs
           else Returned ep evs))))"


section \<open>Facts shared by the four loops\<close>

lemma bind_run_Returned:
  "bind_run r f = Returned y es \<longleftrightarrow> (\<exists>x evs. r = Returned x evs \<and> f x evs = Returned y es)"
  by (cases r) auto

lemma bind_run_Waiting:
  "bind_run r f = Waiting ep \<longleftrightarrow> r = Waiting ep \<or> (\<exists>x evs. r = Returned x evs \<and> f x evs = Waiting ep)"
  by (cases r) auto

lemma call_Returned [simp]: "call r evs = Returned x es \<longleftrightarrow> r = Inr x \<and> es = evs"
  by (cases r) auto

lemma call_not_Waiting [simp]: "call r evs \<noteq> Waiting ep"
  by (cases r) auto

lemma recv_run_Returned:
  "recv_run ep pkt evs = Returned x es \<longleftrightarrow> (\<exists>e. evs = e # es \<and> recv_packet ep pkt e = Inr x)"
  by (cases evs) auto

lemma recv_run_Waiting: "recv_run ep pkt evs = Waiting ep' \<longleftrightarrow> evs = [] \<and> ep' = ep"
  by (cases evs) auto

lemmas run_simps = bind_run_Returned bind_run_Waiting recv_run_Returned recv_run_Waiting
  send_packet_ctl bind_res_Inr sendto_Inr set_sock_recv_time_Inr

definition valid_reply :: "sock_event \<Rightarrow> u32 \<Rightarrow> u8 \<Rightarrow> bool" where
  "valid_reply ev s f \<longleftrightarrow>
     (case ev of
        Datagram sa m \<Rightarrow>
          (case decode_packet (take RTP_PACKET_SIZE m) of
             Some (s', f', d) \<Rightarrow> s' = s \<and> f' = f
           | None \<Rightarrow> False)
      | Recv_Error e \<Rightarrow> False)"

lemma recv_packet_valid_reply:
  assumes "recv_packet ep buf ev = Inr (c, ep', buf')" and "ep_errno ep \<noteq> EAGAIN" and "c = 0"
  shows "valid_reply ev (seq_num (rtp buf')) (flags (rtp buf'))"
  using assms(1,2) by (rule recv_packet_cases) (use assms(3) in \<open>auto simp: valid_reply_def\<close>)


lemma recv_packet_reply_iff:
  assumes "recv_packet ep buf ev = Inr (c, ep', buf')" and "ep_errno ep \<noteq> EAGAIN"
  shows "c = 0 \<and> seq_num (rtp buf') = s \<and> flags (rtp buf') = f \<longleftrightarrow> valid_reply ev s f"
  using assms by (rule recv_packet_cases) (auto simp: valid_reply_def)

section \<open>The retry loops\<close>

locale retry_loop =
  fixes loop :: "bool \<Rightarrow> endpoint \<Rightarrow> rtp_packet \<Rightarrow> int \<Rightarrow> sock_event list \<Rightarrow> 'a run"
    and good :: "endpoint \<Rightarrow> rtp_packet \<Rightarrow> bool"
    and ret :: "endpoint \<Rightarrow> rtp_packet \<Rightarrow> 'a"
    and flg :: u8
  assumes loop_Nil: "loop ldebug ep pkt tries [] =
      (if SEND_TR < tries then Failed Log_Fatal else Waiting ep)"
    and loop_Cons: "loop ldebug ep pkt tries (e # evs) =
      (if SEND_TR < tries then Failed Log_Fatal
       else case recv_packet ep pkt e of
           Inl x \<Rightarrow> Failed x
         | Inr (scode, ep, pkt) \<Rightarrow>
             if scode = 0 \<and> good ep pkt then Returned (ret ep pkt) evs
             else case send_packet ep (ep_sqn ep) flg 0 None of
                 Inl x \<Rightarrow> Failed x
               | Inr ep \<Rightarrow> loop ldebug ep pkt (log_tries ldebug tries) evs)"
begin

lemma debug_decides:
  "SEND_TR + 1 - tries \<le> int (length evs) \<Longrightarrow> loop True ep pkt tries evs \<noteq> Waiting ep'"
  by (induction evs arbitrary: ep pkt tries)
     (auto simp: loop_Nil loop_Cons log_tries_def split: sum.splits)

lemma debug_rest:
  "loop True ep pkt tries evs = Returned x rest \<Longrightarrow>
   int (length evs) \<le> int (length rest) + (SEND_TR + 1 - tries)"
  by (induction evs arbitrary: ep pkt tries)
     (fastforce simp: loop_Nil loop_Cons log_tries_def split: sum.splits if_splits)+

lemma release_waits:
  assumes "tries \<le> SEND_TR" and "\<forall>k. ep_sendto ep k"
  shows "\<exists>ep'. loop False ep pkt tries (replicate n (Recv_Error EAGAIN)) = Waiting ep'
    \<and> map snd (ep_out ep') = map snd (ep_out ep) @ replicate n (wire (ep_sqn ep) flg [])"
  using assms
proof (induction n arbitrary: ep)
  case (Suc n)
  let ?ep = "ep\<lparr>ep_errno := 0, ep_out := ep_out ep @ [(ep_addr ep, wire (ep_sqn ep) flg [])]\<rparr>"
  have "\<exists>ep'. loop False ?ep pkt tries (replicate n (Recv_Error EAGAIN)) = Waiting ep'
    \<and> map snd (ep_out ep') = map snd (ep_out ?ep) @ replicate n (wire (ep_sqn ?ep) flg [])"
    using Suc.prems by (intro Suc.IH) auto
  then show ?case
    using Suc.prems by (simp add: loop_Cons recv_packet_timeout send_packet_ctl sendto_def log_tries_def)
qed (simp add: loop_Nil)

lemma returns:
  assumes "loop ldebug ep pkt tries evs = Returned x rest" and "ep_errno ep \<noteq> EAGAIN"
  shows "\<exists>pre e ep1 pkt1. evs = pre @ e # rest \<and> valid_reply e (seq_num (rtp pkt1)) (flags (rtp pkt1))
    \<and> good ep1 pkt1 \<and> x = ret ep1 pkt1 \<and> ep_errno ep1 \<noteq> EAGAIN \<and> ep_sqn ep1 = ep_sqn ep
    \<and> map snd (ep_out ep1) = map snd (ep_out ep) @ replicate (length pre) (wire (ep_sqn ep) flg [])"
  using assms
proof (induction evs arbitrary: ep pkt tries)
  case Nil
  then show ?case by (simp add: loop_Nil split: if_splits)
next
  case (Cons e evs)
  obtain c ep1 pkt1 where r: "recv_packet ep pkt e = Inr (c, ep1, pkt1)"
    using Cons.prems by (auto simp: loop_Cons split: if_splits sum.splits)
  note errno = recv_packet_errno [OF r Cons.prems(2)] and frame = recv_packet_frame [OF r]
  show ?case
  proof (cases "c = 0 \<and> good ep1 pkt1")
    case True
    then have "x = ret ep1 pkt1" "evs = rest"
      using Cons.prems(1) r by (auto simp: loop_Cons split: if_splits)
    moreover have "valid_reply e (seq_num (rtp pkt1)) (flags (rtp pkt1))"
      using recv_packet_valid_reply [OF r Cons.prems(2)] True by blast
    ultimately show ?thesis using True errno frame
      by (intro exI [of _ "[]"] exI [of _ e] exI [of _ ep1] exI [of _ pkt1]) simp
  next
    case False
    then obtain ep2 where s: "send_packet ep1 (ep_sqn ep1) flg 0 None = Inr ep2"
      and l: "loop ldebug ep2 pkt1 (log_tries ldebug tries) evs = Returned x rest"
      using Cons.prems(1) r by (auto simp: loop_Cons split: if_splits sum.splits)
    have ep2: "ep2 = ep1\<lparr>ep_out := ep_out ep1 @ [(ep_addr ep1, wire (ep_sqn ep1) flg [])]\<rparr>"
      using s by (simp add: send_packet_ctl sendto_Inr)
    with errno have "ep_errno ep2 \<noteq> EAGAIN" by simp
    from Cons.IH [OF l this] obtain pre e' ep3 pkt3 where
      "evs = pre @ e' # rest" "valid_reply e' (seq_num (rtp pkt3)) (flags (rtp pkt3))" "good ep3 pkt3"
      "x = ret ep3 pkt3" "ep_errno ep3 \<noteq> EAGAIN" "ep_sqn ep3 = ep_sqn ep2"
      "map snd (ep_out ep3) = map snd (ep_out ep2) @ replicate (length pre) (wire (ep_sqn ep2) flg [])"
      by blast
    then show ?thesis using ep2 frame
      by (intro exI [of _ "e # pre"] exI [of _ e'] exI [of _ ep3] exI [of _ pkt3]) simp
  qed
qed

lemma waits:
  assumes "loop ldebug ep pkt tries evs = Waiting ep'"
  shows "\<exists>n. map snd (ep_out ep') = map snd (ep_out ep) @ replicate n (wire (ep_sqn ep) flg [])"
  using assms
proof (induction evs arbitrary: ep pkt tries)
  case Nil
  then show ?case by (auto simp: loop_Nil split: if_splits)
next
  case (Cons e evs)
  then obtain c ep1 pkt1 ep2 where r: "recv_packet ep pkt e = Inr (c, ep1, pkt1)"
    and s: "send_packet ep1 (ep_sqn ep1) flg 0 None = Inr ep2"
    and l: "loop ldebug ep2 pkt1 (log_tries ldebug tries) evs = Waiting ep'"
    by (auto simp: loop_Cons split: if_splits sum.splits)
  from Cons.IH [OF l] obtain n where
    "map snd (ep_out ep') = map snd (ep_out ep2) @ replicate n (wire (ep_sqn ep2) flg [])" by blast
  then have "map snd (ep_out ep') = map snd (ep_out ep) @ replicate (Suc n) (wire (ep_sqn ep) flg [])"
    using s recv_packet_frame [OF r] by (simp add: send_packet_ctl sendto_Inr)
  then show ?case by blast
qed

lemma fails: "loop ldebug ep pkt tries evs = Failed e \<Longrightarrow> e = Log_Fatal"
proof (induction evs arbitrary: ep pkt tries)
  case Nil
  then show ?case by (simp add: loop_Nil split: if_splits)
next
  case (Cons ev evs)
  show ?case
  proof (cases "recv_packet ep pkt ev")
    case (Inl x)
    with Cons.prems show ?thesis by (auto simp: loop_Cons split: if_splits dest: recv_packet_fault)
  next
    case (Inr res)
    with Cons.prems Cons.IH show ?thesis
      by (auto simp: loop_Cons send_packet_ctl split: if_splits sum.splits prod.splits dest: sendto_Inl)
  qed
qed

end

interpretation syn: retry_loop snd_establish_loop
  "\<lambda>ep pkt. seq_num (rtp pkt) = seqnum_add (ep_sqn ep) 1 \<and> flags (rtp pkt) = RTP_ACK OR RTP_SYN"
  Pair RTP_SYN
  by unfold_locales (simp_all add: conj_assoc split: sum.splits prod.splits)

interpretation fin: retry_loop snd_break_loop
  "\<lambda>ep pkt. seq_num (rtp pkt) = ep_sqn ep \<and> flags (rtp pkt) = RTP_ACK OR RTP_FIN"
  "\<lambda>ep pkt. ep" RTP_FIN
  by unfold_locales (simp_all split: sum.splits prod.splits)

interpretation synack: retry_loop rcv_ack_loop
  "\<lambda>ep pkt. seq_num (rtp pkt) = ep_sqn ep \<and> flags (rtp pkt) = RTP_ACK"
  "\<lambda>ep pkt. ep" "RTP_ACK OR RTP_SYN"
  by unfold_locales (simp_all split: sum.splits prod.splits)

section \<open>Establishing and breaking a connection\<close>

lemma snd_establish_debug:
  assumes "51 \<le> length evs"
  shows "snd_establish_connection True ep pkt evs \<noteq> Waiting ep'"
proof
  assume w: "snd_establish_connection True ep pkt evs = Waiting ep'"
  have n: "SEND_TR + 1 - 1 < int (length evs)" using assms by (simp add: SEND_TR_def)
  have "\<exists>x. snd_establish_loop True e pkt 1 evs = Returned x []" if "snd_establish_loop True e pkt 1 evs = Returned x []" for e x
    using that by blast
  with w syn.debug_decides [OF order.strict_implies_order [OF n]] obtain e x
    where "snd_establish_loop True e pkt 1 evs = Returned x []"
    by (auto simp: snd_establish_connection_def Let_def run_simps log_tries_def split: prod.splits if_splits)
  then show False using syn.debug_rest n by fastforce
qed

lemma seqnum_add_isn: "seqnum_add 0x7FFFFFFF 1 = 0"
  by (simp add: seqnum_add_def)

lemma get_random_seqnum_add: "seqnum_add get_random_seqnum 1 = 0"
  by (simp add: get_random_seqnum_def seqnum_add_def)

lemma snd_establish_returns:
  assumes r: "snd_establish_connection ldebug ep pkt evs = Returned ep' rest" and errno: "ep_errno ep \<noteq> EAGAIN"
  shows "ep_sqn ep' = 0 \<and> ep_errno ep' \<noteq> EAGAIN \<and> (\<exists>pre e e'. evs = pre @ [e, e'] @ rest \<and> valid_reply e 0 (RTP_ACK OR RTP_SYN)
    \<and> map snd (ep_out ep') = map snd (ep_out ep)
        @ replicate (Suc (length pre)) (wire 0x7FFFFFFF RTP_SYN [])
        @ replicate (if valid_reply e' 0 (RTP_ACK OR RTP_SYN) then 2 else 1) (wire 0 RTP_ACK []))"
proof -
  let ?ep1 = "ep\<lparr>ep_sqn := get_random_seqnum, ep_timeo := (0, SEND_MS * 1000),
    ep_out := ep_out ep @ [(ep_addr ep, wire get_random_seqnum RTP_SYN [])]\<rparr>"
  obtain ep2 pkt2 evs2 where l: "snd_establish_loop ldebug ?ep1 pkt (log_tries ldebug 0) evs = Returned (ep2, pkt2) evs2"
    and rest: "bind_run (recv_run (ep2\<lparr>ep_timeo := (RECV_S, 0), ep_sqn := seqnum_add (ep_sqn ep2) 1,
        ep_out := ep_out ep2 @ [(ep_addr ep2, wire (seqnum_add (ep_sqn ep2) 1) RTP_ACK [])]\<rparr>) pkt2 evs2)
      (\<lambda>(scode, ep, packet) evs.
         if scode = 0 \<and> seq_num (rtp packet) = ep_sqn ep \<and> flags (rtp packet) = RTP_ACK OR RTP_SYN
         then call (send_packet ep (ep_sqn ep) RTP_ACK 0 None) evs
         else Returned ep evs) = Returned ep' rest"
    using r by (auto simp: snd_establish_connection_def Let_def run_simps)
  from syn.returns [OF l] errno obtain pre e ep3 pkt3 where
    1: "evs = pre @ e # evs2" "valid_reply e (seq_num (rtp pkt3)) (flags (rtp pkt3))"
      "seq_num (rtp pkt3) = seqnum_add (ep_sqn ep3) 1" "flags (rtp pkt3) = RTP_ACK OR RTP_SYN"
      "(ep2, pkt2) = (ep3, pkt3)" "ep_errno ep3 \<noteq> EAGAIN" "ep_sqn ep3 = get_random_seqnum"
      "map snd (ep_out ep3) = map snd (ep_out ?ep1) @ replicate (length pre) (wire get_random_seqnum RTP_SYN [])"
    by auto
  let ?ep4 = "ep2\<lparr>ep_timeo := (RECV_S, 0), ep_sqn := seqnum_add (ep_sqn ep2) 1,
        ep_out := ep_out ep2 @ [(ep_addr ep2, wire (seqnum_add (ep_sqn ep2) 1) RTP_ACK [])]\<rparr>"
  obtain e' c ep5 pkt5 evs5 where e': "evs2 = e' # evs5" and r5: "recv_packet ?ep4 pkt2 e' = Inr (c, ep5, pkt5)"
    and fin: "(if c = 0 \<and> seq_num (rtp pkt5) = ep_sqn ep5 \<and> flags (rtp pkt5) = RTP_ACK OR RTP_SYN
         then call (send_packet ep5 (ep_sqn ep5) RTP_ACK 0 None) evs5 else Returned ep5 evs5) = Returned ep' rest"
    using rest by (auto simp: run_simps split: prod.splits)
  have f5: "ep_sqn ep5 = 0" "ep_out ep5 = ep_out ?ep4"
    using recv_packet_frame [OF r5] 1 by (simp_all add: get_random_seqnum_add)
  have e4: "ep_errno ?ep4 \<noteq> EAGAIN" using 1 by simp
  from recv_packet_reply_iff [OF r5 e4, of 0 "RTP_ACK OR RTP_SYN"] fin f5 recv_packet_errno [OF r5 e4]
  have "rest = evs5 \<and> ep_sqn ep' = 0 \<and> ep_errno ep' \<noteq> EAGAIN \<and> map snd (ep_out ep') = map snd (ep_out ?ep4)
    @ (if valid_reply e' 0 (RTP_ACK OR RTP_SYN) then [wire 0 RTP_ACK []] else [])"
    by (auto simp: send_packet_ctl sendto_Inr split: if_splits)
  with 1 e' show ?thesis
    by (auto simp: seqnum_add_isn get_random_seqnum_add numeral_2_eq_2 get_random_seqnum_def intro!: exI [of _ pre] exI [of _ e] exI [of _ e'])
qed


lemma rcv_syn_loop_returns:
  assumes "rcv_syn_loop ep pkt evs = Returned (ep', pkt') rest" and "ep_errno ep \<noteq> EAGAIN"
  shows "\<exists>pre e. evs = pre @ e # rest \<and> valid_reply e (seq_num (rtp pkt')) RTP_SYN
    \<and> ep_errno ep' \<noteq> EAGAIN \<and> ep_out ep' = ep_out ep"
  using assms
proof (induction evs arbitrary: ep pkt)
  case (Cons e evs)
  obtain c ep1 pkt1 where r: "recv_packet ep pkt e = Inr (c, ep1, pkt1)"
    using Cons.prems by (auto split: if_splits sum.splits)
  note errno = recv_packet_errno [OF r Cons.prems(2)] and frame = recv_packet_frame [OF r]
  show ?case
  proof (cases "c = 0 \<and> flags (rtp pkt1) = RTP_SYN")
    case True
    then have "ep' = ep1" "pkt' = pkt1" "rest = evs"
      using Cons.prems(1) r by (auto split: if_splits)
    moreover have "valid_reply e (seq_num (rtp pkt1)) RTP_SYN"
      using recv_packet_reply_iff [OF r Cons.prems(2)] True by blast
    ultimately show ?thesis using errno frame by (intro exI [of _ "[]"]) auto
  next
    case False
    then have "rcv_syn_loop ep1 pkt1 evs = Returned (ep', pkt') rest"
      using Cons.prems(1) r by (auto split: if_splits)
    from Cons.IH [OF this errno] obtain pre e' where "evs = pre @ e' # rest"
      "valid_reply e' (seq_num (rtp pkt')) RTP_SYN" "ep_errno ep' \<noteq> EAGAIN" "ep_out ep' = ep_out ep1"
      by blast
    then show ?thesis using frame by (intro exI [of _ "e # pre"] exI [of _ e']) auto
  qed
qed simp

lemma rcv_establish_returns:
  assumes r: "rcv_establish_connection ldebug ep pkt evs = Returned ep' rest" and errno: "ep_errno ep \<noteq> EAGAIN"
  shows "\<exists>pre e mid e' s. evs = pre @ e # mid @ e' # rest \<and> valid_reply e s RTP_SYN
    \<and> ep_sqn ep' = seqnum_add s 1 \<and> ep_errno ep' \<noteq> EAGAIN \<and> valid_reply e' (ep_sqn ep') RTP_ACK
    \<and> map snd (ep_out ep') = map snd (ep_out ep)
        @ replicate (Suc (length mid)) (wire (ep_sqn ep') (RTP_ACK OR RTP_SYN) [])"
proof -
  obtain ep1 pkt1 evs1 ep2 where l1: "rcv_syn_loop (ep\<lparr>ep_timeo := (WAIT_S, 0)\<rparr>) pkt evs = Returned (ep1, pkt1) evs1"
    and ep2: "ep2 = ep1\<lparr>ep_sqn := seqnum_add (seq_num (rtp pkt1)) 1, ep_timeo := (0, SEND_MS * 1000),
      ep_out := ep_out ep1 @ [(ep_addr ep1, wire (seqnum_add (seq_num (rtp pkt1)) 1) (RTP_ACK OR RTP_SYN) [])]\<rparr>"
    and l2: "rcv_ack_loop ldebug ep2 pkt1 (log_tries ldebug 0) evs1 = Returned ep' rest"
    using r by (auto simp: rcv_establish_connection_def Let_def run_simps)
  from rcv_syn_loop_returns [OF l1] errno obtain pre e where
    1: "evs = pre @ e # evs1" "valid_reply e (seq_num (rtp pkt1)) RTP_SYN" "ep_errno ep1 \<noteq> EAGAIN"
      "ep_out ep1 = ep_out ep" by auto
  then have "ep_errno ep2 \<noteq> EAGAIN" using ep2 by simp
  from synack.returns [OF l2 this] obtain mid e' where
    "evs1 = mid @ e' # rest" "valid_reply e' (ep_sqn ep') RTP_ACK" "ep_sqn ep' = ep_sqn ep2"
    "ep_errno ep' \<noteq> EAGAIN" "map snd (ep_out ep') = map snd (ep_out ep2)
      @ replicate (length mid) (wire (ep_sqn ep2) (RTP_ACK OR RTP_SYN) [])" by auto
  with 1 ep2 show ?thesis
    by (intro exI [of _ pre] exI [of _ e] exI [of _ mid] exI [of _ e'] exI [of _ "seq_num (rtp pkt1)"]) auto
qed

definition from_peer :: "(sockaddr \<times> u8 list) list \<Rightarrow> sock_event \<Rightarrow> bool" where
  "from_peer out ev =
     (case ev of
        Datagram sa m \<Rightarrow> m \<in> snd ` set out \<or> decode_packet (take RTP_PACKET_SIZE m) = None
      | Recv_Error e \<Rightarrow> True)"

lemma wire_fits: "length d \<le> PAYLOAD_MAX \<Longrightarrow> take RTP_PACKET_SIZE (wire s f d) = wire s f d"
  by (simp add: RTP_PACKET_SIZE_def RTP_HEADER_SIZE_def)

lemma decode_wire: "length d \<le> PAYLOAD_MAX \<Longrightarrow> decode_packet (wire s f d) = Some (s, f, d)"
  by (simp add: decode_packet_iff)

lemma rcv_syn_loop_timeouts:
  "rcv_syn_loop ep pkt (Recv_Error EAGAIN # evs) = Failed Log_Fatal"
  by (simp add: recv_packet_timeout)

lemma handshake_agrees_lemma:
  assumes s: "snd_establish_connection ldebug ep pkt evs = Returned ep' rest"
    and r: "rcv_establish_connection ldebug2 ep2 pkt2 evs2 = Returned ep2' rest2"
    and errno: "ep_errno ep \<noteq> EAGAIN" "ep_errno ep2 \<noteq> EAGAIN" and fresh: "ep_out ep = []"
    and net: "\<forall>ev \<in> set evs2. from_peer (ep_out ep') ev"
  shows "ep_sqn ep2' = ep_sqn ep'"
proof -
  from snd_establish_returns [OF s errno(1)] fresh have out:
    "m = wire 0x7FFFFFFF RTP_SYN [] \<or> m = wire 0 RTP_ACK []" if "m \<in> snd ` set (ep_out ep')" for m
    using that by (metis (no_types, lifting) Un_iff append_Nil in_set_replicate list.set_map list.simps(8) set_append)
  from rcv_establish_returns [OF r errno(2)] obtain e x where
    e: "e \<in> set evs2" "valid_reply e x RTP_SYN" "ep_sqn ep2' = seqnum_add x 1"
    by (metis in_set_conv_decomp)
  from e(2) obtain sa m d where m: "e = Datagram sa m" "decode_packet (take RTP_PACKET_SIZE m) = Some (x, RTP_SYN, d)"
    by (auto simp: valid_reply_def split: sock_event.splits option.splits prod.splits)
  with net e(1) have "m \<in> snd ` set (ep_out ep')" by (fastforce simp: from_peer_def)
  from out [OF this] m(2) have "x = 0x7FFFFFFF"
    by (auto simp: wire_fits decode_wire RTP_SYN_def RTP_ACK_def)
  with e(3) snd_establish_returns [OF s errno(1)] show ?thesis by (simp add: seqnum_add_isn)
qed

lemma rcv_fin_loop_timeouts:
  "\<exists>ep'. rcv_fin_loop ep pkt (replicate n (Recv_Error EAGAIN)) = Waiting ep'"
  by (induction n arbitrary: ep) (auto simp: recv_packet_timeout)

lemma rcv_break_waits:
  assumes "ep_setsockopt ep WAIT_S 0"
  shows "\<exists>ep'. rcv_break_connection ep pkt (replicate n (Recv_Error EAGAIN)) = Waiting ep'"
proof -
  obtain ep' where "rcv_fin_loop (ep\<lparr>ep_timeo := (WAIT_S, 0)\<rparr>) pkt (replicate n (Recv_Error EAGAIN)) = Waiting ep'"
    using rcv_fin_loop_timeouts by blast
  then show ?thesis using assms by (simp add: rcv_break_connection_def set_sock_recv_time_def)
qed

lemma snd_establish_release:
  assumes "\<forall>k. ep_sendto ep k" and "\<forall>s u. ep_setsockopt ep s u"
  shows "\<exists>ep'. snd_establish_connection False ep pkt (replicate n (Recv_Error EAGAIN)) = Waiting ep'
    \<and> map snd (ep_out ep') = map snd (ep_out ep) @ replicate (Suc n) (wire 0x7FFFFFFF RTP_SYN [])"
proof -
  let ?ep1 = "ep\<lparr>ep_sqn := get_random_seqnum, ep_timeo := (0, SEND_MS * 1000),
    ep_out := ep_out ep @ [(ep_addr ep, wire get_random_seqnum RTP_SYN [])]\<rparr>"
  have "\<exists>ep'. snd_establish_loop False ?ep1 pkt 0 (replicate n (Recv_Error EAGAIN)) = Waiting ep'
    \<and> map snd (ep_out ep') = map snd (ep_out ?ep1) @ replicate n (wire (ep_sqn ?ep1) RTP_SYN [])"
    using assms by (intro syn.release_waits) (auto simp: SEND_TR_def)
  then show ?thesis using assms
    by (auto simp: snd_establish_connection_def Let_def set_sock_recv_time_def send_packet_ctl sendto_def
        log_tries_def get_random_seqnum_def)
qed


lemma snd_break_debug:
  assumes "50 \<le> length evs"
  shows "snd_break_connection True ep pkt evs \<noteq> Waiting ep'"
proof -
  have "SEND_TR + 1 - 1 \<le> int (length evs)" using assms by (simp add: SEND_TR_def)
  from fin.debug_decides [OF this] show ?thesis
    by (auto simp: snd_break_connection_def Let_def run_simps log_tries_def)
qed

text \<open>The sender's \<open>break_connection\<close> returns only after a valid FIN+ACK with its own sequence number, and has sent one FIN
  and one more for each event before it.\<close>

lemma snd_break_returns:
  assumes r: "snd_break_connection ldebug ep pkt evs = Returned ep' rest" and errno: "ep_errno ep \<noteq> EAGAIN"
  shows "\<exists>pre e. evs = pre @ e # rest \<and> valid_reply e (ep_sqn ep) (RTP_ACK OR RTP_FIN)
    \<and> map snd (ep_out ep') = map snd (ep_out ep) @ replicate (Suc (length pre)) (wire (ep_sqn ep) RTP_FIN [])"
proof -
  let ?ep1 = "ep\<lparr>ep_timeo := (0, SEND_MS * 1000), ep_out := ep_out ep @ [(ep_addr ep, wire (ep_sqn ep) RTP_FIN [])]\<rparr>"
  have "snd_break_loop ldebug ?ep1 pkt (log_tries ldebug 0) evs = Returned ep' rest"
    using r by (auto simp: snd_break_connection_def Let_def run_simps)
  from fin.returns [OF this] errno obtain pre e where
    "evs = pre @ e # rest" "valid_reply e (ep_sqn ep) (RTP_ACK OR RTP_FIN)"
    "map snd (ep_out ep') = map snd (ep_out ?ep1) @ replicate (length pre) (wire (ep_sqn ep) RTP_FIN [])"
    by auto
  then show ?thesis by (intro exI [of _ pre] exI [of _ e]) auto
qed

lemma rcv_fin_loop_returns:
  assumes "rcv_fin_loop ep pkt evs = Returned (ep', pkt') rest" and "ep_errno ep \<noteq> EAGAIN"
  shows "\<exists>pre e. evs = pre @ e # rest \<and> valid_reply e (seq_num (rtp pkt')) RTP_FIN
    \<and> ep_errno ep' \<noteq> EAGAIN \<and> ep_out ep' = ep_out ep"
  using assms
proof (induction evs arbitrary: ep pkt)
  case (Cons e evs)
  obtain c ep1 pkt1 where r: "recv_packet ep pkt e = Inr (c, ep1, pkt1)"
    using Cons.prems by (auto split: if_splits sum.splits)
  note errno = recv_packet_errno [OF r Cons.prems(2)] and frame = recv_packet_frame [OF r]
  show ?case
  proof (cases "\<not> c < 0 \<and> flags (rtp pkt1) = RTP_FIN")
    case True
    then have "ep' = ep1" "pkt' = pkt1" "rest = evs"
      using Cons.prems(1) r by (auto simp: Let_def split: if_splits)
    moreover have "c = 0" using r Cons.prems(2) True by (auto elim!: recv_packet_cases)
    then have "valid_reply e (seq_num (rtp pkt1)) RTP_FIN"
      using recv_packet_reply_iff [OF r Cons.prems(2)] True by blast
    ultimately show ?thesis using errno frame by (intro exI [of _ "[]"]) auto
  next
    case False
    then have "rcv_fin_loop ep1 pkt1 evs = Returned (ep', pkt') rest"
      using Cons.prems(1) r by (auto simp: Let_def split: if_splits)
    from Cons.IH [OF this errno] obtain pre e' where "evs = pre @ e' # rest"
      "valid_reply e' (seq_num (rtp pkt')) RTP_FIN" "ep_errno ep' \<noteq> EAGAIN" "ep_out ep' = ep_out ep1"
      by blast
    then show ?thesis using frame by (intro exI [of _ "e # pre"] exI [of _ e']) auto
  qed
qed simp

lemma rcv_break_returns:
  assumes r: "rcv_break_connection ep pkt evs = Returned ep' rest" and errno: "ep_errno ep \<noteq> EAGAIN"
  shows "\<exists>pre e e' s. evs = pre @ [e, e'] @ rest \<and> valid_reply e s RTP_FIN
    \<and> (\<exists>s'. map snd (ep_out ep') = map snd (ep_out ep) @ wire s (RTP_ACK OR RTP_FIN) []
          # (if \<exists>x. valid_reply e' x RTP_FIN then [wire s' (RTP_ACK OR RTP_FIN) []] else [])
        \<and> (\<forall>x. valid_reply e' x RTP_FIN \<longrightarrow> x = s'))"
proof -
  obtain ep1 pkt1 evs1 where l: "rcv_fin_loop (ep\<lparr>ep_timeo := (WAIT_S, 0)\<rparr>) pkt evs = Returned (ep1, pkt1) evs1"
    and rest: "bind_run (recv_run (ep1\<lparr>ep_timeo := (RECV_S, 0), ep_sqn := seq_num (rtp pkt1),
        ep_out := ep_out ep1 @ [(ep_addr ep1, wire (seq_num (rtp pkt1)) (RTP_ACK OR RTP_FIN) [])]\<rparr>) pkt1 evs1)
      (\<lambda>(scode, ep, packet) evs.
        let ep = ep\<lparr>ep_sqn := seq_num (rtp packet)\<rparr>
        in if scode = 0 \<and> seq_num (rtp packet) = ep_sqn ep \<and> flags (rtp packet) = RTP_FIN
           then call (send_packet ep (ep_sqn ep) (RTP_ACK OR RTP_FIN) 0 None) evs
           else Returned ep evs) = Returned ep' rest"
    using r by (auto simp: rcv_break_connection_def Let_def run_simps)
  from rcv_fin_loop_returns [OF l] errno obtain pre e where
    1: "evs = pre @ e # evs1" "valid_reply e (seq_num (rtp pkt1)) RTP_FIN" "ep_errno ep1 \<noteq> EAGAIN"
      "ep_out ep1 = ep_out ep" by auto
  let ?ep2 = "ep1\<lparr>ep_timeo := (RECV_S, 0), ep_sqn := seq_num (rtp pkt1),
        ep_out := ep_out ep1 @ [(ep_addr ep1, wire (seq_num (rtp pkt1)) (RTP_ACK OR RTP_FIN) [])]\<rparr>"
  obtain e' c ep3 pkt3 evs3 where e': "evs1 = e' # evs3" and r3: "recv_packet ?ep2 pkt1 e' = Inr (c, ep3, pkt3)"
    and fin: "(let ep = ep3\<lparr>ep_sqn := seq_num (rtp pkt3)\<rparr>
        in if c = 0 \<and> seq_num (rtp pkt3) = ep_sqn ep \<and> flags (rtp pkt3) = RTP_FIN
           then call (send_packet ep (ep_sqn ep) (RTP_ACK OR RTP_FIN) 0 None) evs3
           else Returned ep evs3) = Returned ep' rest"
    using rest by (auto simp: run_simps split: prod.splits)
  from fin have fin': "evs3 = rest" "map snd (ep_out ep') = map snd (ep_out ep3)
     @ (if c = 0 \<and> flags (rtp pkt3) = RTP_FIN
         then [wire (seq_num (rtp pkt3)) (RTP_ACK OR RTP_FIN) []] else [])"
    by (auto simp: Let_def send_packet_ctl sendto_Inr split: if_splits)
  have "ep_errno ?ep2 \<noteq> EAGAIN" using 1 by simp
  note iff = recv_packet_reply_iff [OF r3 this]
  have "(c = 0 \<and> flags (rtp pkt3) = RTP_FIN) \<longleftrightarrow> (\<exists>x. valid_reply e' x RTP_FIN)"
    using iff by blast
  moreover have "\<forall>x. valid_reply e' x RTP_FIN \<longrightarrow> x = seq_num (rtp pkt3)" by (simp flip: iff)
  ultimately show ?thesis using 1 e' fin' recv_packet_frame(2) [OF r3]
    by (intro exI [of _ pre] exI [of _ e] exI [of _ e'] exI [of _ "seq_num (rtp pkt1)"]) auto
qed

section \<open>What the handshakes promise\<close>

definition demo_addr :: sockaddr where "demo_addr = (0x7F000001, 54321)"

definition demo_snd_events :: "sock_event list" where
  "demo_snd_events = [Datagram demo_addr (wire 0 (RTP_ACK OR RTP_SYN) []), Recv_Error EAGAIN]"

definition demo_rcv_events :: "sock_event list" where
  "demo_rcv_events = [Datagram demo_addr (wire 0x7FFFFFFF RTP_SYN []), Datagram demo_addr (wire 0 RTP_ACK [])]"

lemmas run_eval = set_sock_recv_time_def send_packet_ctl sendto_def recv_packet_wire recv_packet_timeout
  log_tries_def SEND_TR_def Let_def get_random_seqnum_add seqnum_add_isn demo_ep_def

lemma EAGAIN_neq_0 [simp]: "EAGAIN \<noteq> 0" "0 \<noteq> EAGAIN"
  by (simp_all add: EAGAIN_def)

lemma demo_snd_establish:
  "\<exists>ep :: endpoint. snd_establish_connection False demo_ep demo_packet demo_snd_events = Returned ep []
    \<and> map snd (ep_out ep) = [wire 0x7FFFFFFF RTP_SYN [], wire 0 RTP_ACK []]"
  by (simp add: snd_establish_connection_def demo_snd_events_def run_eval)
     (simp add: get_random_seqnum_def)

lemma demo_rcv_establish:
  "\<exists>ep :: endpoint. rcv_establish_connection False demo_ep demo_packet demo_rcv_events = Returned ep []"
  by (simp add: rcv_establish_connection_def demo_rcv_events_def run_eval)

text \<open>C36: with \<open>LDEBUG\<close> defined, the sender's opening and closing handshakes are decided after at most 51 socket events:
  they return or the program exits, whatever arrives.\<close>

theorem debug_build_retries_are_bounded:
  assumes "51 \<le> length evs"
  shows "snd_establish_connection True ep pkt evs \<noteq> Waiting ep' \<and> snd_break_connection True ep pkt evs \<noteq> Waiting ep'"
  using snd_establish_debug [OF assms] snd_break_debug [of evs] assms by simp

theorem debug_build_retries_are_bounded_witness:
  "snd_establish_connection True demo_ep demo_packet (replicate 51 (Recv_Error EAGAIN)) \<noteq> Waiting demo_ep"
  using debug_build_retries_are_bounded [of "replicate 51 (Recv_Error EAGAIN)"] by simp

text \<open>C37: without \<open>LDEBUG\<close> the counter of \<open>SEND_TR\<close> is never incremented: against a silent peer the sender repeats its SYN
  after every timeout, for any number of timeouts, and neither returns nor exits.\<close>

theorem release_build_never_gives_up:
  assumes "\<forall>k. ep_sendto ep k" and "\<forall>s u. ep_setsockopt ep s u"
  shows "\<exists>ep'. snd_establish_connection False ep pkt (replicate n (Recv_Error EAGAIN)) = Waiting ep'
    \<and> map snd (ep_out ep') = map snd (ep_out ep) @ replicate (Suc n) (wire 0x7FFFFFFF RTP_SYN [])"
  using assms by (rule snd_establish_release)

theorem release_build_never_gives_up_witness:
  "\<exists>ep' :: endpoint. snd_establish_connection False demo_ep demo_packet (replicate 1000 (Recv_Error EAGAIN)) = Waiting ep'"
  using release_build_never_gives_up [of demo_ep demo_packet 1000] by (auto simp: demo_ep_def)

text \<open>C34: the sender's \<open>establish_connection\<close> returns only after a valid SYN+ACK that acknowledges its initial sequence
  number INT32_MAX; it has then sent SYNs and one or two ACKs and nothing else, and its sequence number has wrapped to 0.\<close>

theorem sender_establishes:
  assumes "snd_establish_connection ldebug ep pkt evs = Returned ep' rest" and "ep_errno ep \<noteq> EAGAIN"
  shows "ep_sqn ep' = 0 \<and> ep_errno ep' \<noteq> EAGAIN \<and> (\<exists>pre e e'. evs = pre @ [e, e'] @ rest
    \<and> valid_reply e 0 (RTP_ACK OR RTP_SYN)
    \<and> map snd (ep_out ep') = map snd (ep_out ep) @ replicate (Suc (length pre)) (wire 0x7FFFFFFF RTP_SYN [])
        @ replicate (if valid_reply e' 0 (RTP_ACK OR RTP_SYN) then 2 else 1) (wire 0 RTP_ACK []))"
  using assms by (rule snd_establish_returns)

theorem sender_establishes_witness:
  "\<exists>ep :: endpoint. snd_establish_connection False demo_ep demo_packet demo_snd_events = Returned ep [] \<and> ep_sqn ep = 0"
proof -
  obtain ep where s: "snd_establish_connection False demo_ep demo_packet demo_snd_events = Returned ep []"
    using demo_snd_establish by (elim exE conjE)
  with sender_establishes [OF s demo_errno] show ?thesis by blast
qed

text \<open>C35: the receiver's \<open>establish_connection\<close> returns only after a valid SYN followed by a valid ACK that carries the SYN's
  sequence number plus one, and has sent nothing but SYN+ACKs with that number.\<close>

theorem receiver_establishes:
  assumes "rcv_establish_connection ldebug ep pkt evs = Returned ep' rest" and "ep_errno ep \<noteq> EAGAIN"
  shows "\<exists>pre e mid e' s. evs = pre @ e # mid @ e' # rest \<and> valid_reply e s RTP_SYN
    \<and> ep_sqn ep' = seqnum_add s 1 \<and> ep_errno ep' \<noteq> EAGAIN \<and> valid_reply e' (ep_sqn ep') RTP_ACK
    \<and> map snd (ep_out ep') = map snd (ep_out ep)
        @ replicate (Suc (length mid)) (wire (ep_sqn ep') (RTP_ACK OR RTP_SYN) [])"
  using assms by (rule rcv_establish_returns)

theorem receiver_establishes_witness:
  "\<exists>(ep :: endpoint) s. rcv_establish_connection False demo_ep demo_packet demo_rcv_events = Returned ep []
    \<and> ep_sqn ep = seqnum_add s 1"
proof -
  obtain ep where r: "rcv_establish_connection False demo_ep demo_packet demo_rcv_events = Returned ep []"
    using demo_rcv_establish by (elim exE)
  with receiver_establishes [OF r demo_errno] show ?thesis by blast
qed

text \<open>The receiver's \<open>break_connection\<close> returns only after a valid FIN, which it answers with FIN+ACK; whatever comes next ends
  the wait, and a second FIN is answered with its own sequence number.\<close>

theorem receiver_breaks:
  assumes "rcv_break_connection ep pkt evs = Returned ep' rest" and "ep_errno ep \<noteq> EAGAIN"
  shows "\<exists>pre e e' s. evs = pre @ [e, e'] @ rest \<and> valid_reply e s RTP_FIN
    \<and> (\<exists>s'. map snd (ep_out ep') = map snd (ep_out ep) @ wire s (RTP_ACK OR RTP_FIN) []
          # (if \<exists>x. valid_reply e' x RTP_FIN then [wire s' (RTP_ACK OR RTP_FIN) []] else [])
        \<and> (\<forall>x. valid_reply e' x RTP_FIN \<longrightarrow> x = s'))"
  using assms by (rule rcv_break_returns)

lemma demo_rcv_break:
  "\<exists>ep :: endpoint. rcv_break_connection demo_ep demo_packet
    [Datagram demo_addr (wire 3 RTP_FIN []), Recv_Error EAGAIN] = Returned ep []"
  by (simp add: rcv_break_connection_def run_eval)

theorem receiver_breaks_witness:
  "\<exists>(ep :: endpoint) s. rcv_break_connection demo_ep demo_packet
    [Datagram demo_addr (wire 3 RTP_FIN []), Recv_Error EAGAIN] = Returned ep []
    \<and> wire s (RTP_ACK OR RTP_FIN) [] \<in> set (map snd (ep_out ep))"
proof -
  obtain ep where r: "rcv_break_connection demo_ep demo_packet
    [Datagram demo_addr (wire 3 RTP_FIN []), Recv_Error EAGAIN] = Returned ep []"
    using demo_rcv_break by (elim exE)
  with receiver_breaks [OF r demo_errno] show ?thesis by fastforce
qed

text \<open>while the receiver's \<open>break_connection\<close> waits for a FIN, its 5 second timeout is without effect: the result of
  \<open>recv_packet\<close> is compared with 0 before it is stored, so the test for -2 never holds and the wait goes on for ever.\<close>

theorem receiver_fin_wait_never_times_out:
  assumes "ep_setsockopt ep WAIT_S 0"
  shows "\<exists>ep'. rcv_break_connection ep pkt (replicate n (Recv_Error EAGAIN)) = Waiting ep'"
  using assms by (rule rcv_break_waits)

theorem receiver_fin_wait_never_times_out_witness:
  "\<exists>ep' :: endpoint. rcv_break_connection demo_ep demo_packet (replicate 100 (Recv_Error EAGAIN)) = Waiting ep'"
  by (rule receiver_fin_wait_never_times_out) (simp add: demo_ep_def)

end
