(* ===== verification/Files.thy ===== *)
theory Files
  imports Prelude
begin

text \<open>
  \<open>read_file\<close> and \<open>write_file\<close> of \<open>lab2/src/util.c\<close>: what they do to the buffer and the file, and when they exit. A file is
  its bytes, or \<open>None\<close> when \<open>fopen\<close> fails; a transfer of \<open>fread\<close> or \<open>fwrite\<close> is complete.
\<close>

definition MAXBUF :: nat where "MAXBUF = 2097152"

definition read_file :: "u8 list option \<Rightarrow> bool \<Rightarrow> u8 list \<Rightarrow> int \<Rightarrow> (int \<times> u8 list) res" where
  "read_file file fclose_ok buf bsize =
     (case file of
        None \<Rightarrow> Inl Log_Fatal
      | Some content \<Rightarrow>
          let fsize = int_of_long (int (length content));
              fsize = (if bsize < fsize then bsize else fsize);
              n = (if fsize < 0 then length content else min (nat fsize) (length content))
          in bind_res (mem_write buf 0 (take n content))
             (\<lambda>buf.
                let fsize = int_of_long (int n)
                in if fsize < 0 then Inl Log_Fatal
                   else if \<not> fclose_ok then Inl Log_Fatal else Inr (fsize, buf)))"

definition write_file :: "bool \<Rightarrow> bool \<Rightarrow> u8 list \<Rightarrow> nat \<Rightarrow> u8 list res" where
  "write_file fopen_ok fclose_ok buf bsize =
     (if \<not> fopen_ok then Inl Log_Fatal
      else bind_res (mem_read buf 0 bsize)
             (\<lambda>content. if \<not> fclose_ok then Inl Log_Fatal else Inr content))"

lemma read_file_ok:
  assumes "length content \<le> INT_MAX" and "length buf = MAXBUF"
  shows "read_file (Some content) True buf (int MAXBUF) =
    Inr (int (min (length content) MAXBUF), take MAXBUF content @ drop (length content) buf)"
proof -
  have "int_of_long (int (length content)) = int (length content)"
    using assms(1) by (intro int_of_long_id) (simp_all add: INT_MAX_def)
  moreover have "int_of_long (int (min (length content) MAXBUF)) = int (min (length content) MAXBUF)"
    using assms(1) by (intro int_of_long_id) (simp_all add: INT_MAX_def)
  ultimately show ?thesis
    using assms by (auto simp: read_file_def Let_def mem_write_def min_def MAXBUF_def)
qed

text \<open>The size of a file as an \<open>int\<close>.\<close>

lemma int_of_long_size: "int_of_long (int n) = (if n mod 2 ^ 32 < 2 ^ 31 then int (n mod 2 ^ 32) else int (n mod 2 ^ 32) - 2 ^ 32)"
proof -
  let ?m = "int (n mod 2 ^ 32)"
  have m: "0 \<le> ?m" "?m < 2 ^ 32" by simp_all
  have "int_of_long (int n) = (int n + 2 ^ 31) mod 2 ^ 32 - 2 ^ 31"
    by (simp add: int_of_long_def signed_take_bit_eq_take_bit_shift take_bit_eq_mod)
  also have "(int n + 2 ^ 31) mod 2 ^ 32 = (?m + 2 ^ 31) mod 2 ^ 32"
    by (simp add: zmod_int mod_add_left_eq)
  also have "\<dots> = (if ?m < 2 ^ 31 then ?m + 2 ^ 31 else ?m - 2 ^ 31)"
  proof (cases "?m < 2 ^ 31")
    case True
    then show ?thesis using m by (simp add: mod_pos_pos_trivial)
  next
    case False
    have "(?m + 2 ^ 31) mod 2 ^ 32 = (?m + 2 ^ 31 - 2 ^ 32) mod 2 ^ 32" by (rule minus_mod_self2 [symmetric])
    also have "\<dots> = ?m - 2 ^ 31" using False m by (subst mod_pos_pos_trivial) simp_all
    finally show ?thesis using False by simp
  qed
  finally show ?thesis by (auto simp: nat_less_iff)
qed

lemma read_file_close:
  "read_file disk fclose_ok buf n = bind_res (read_file disk True buf n) (\<lambda>r. if fclose_ok then Inr r else Inl Log_Fatal)"
proof -
  have close: "bind_res m (\<lambda>b. if p then Inl Log_Fatal else if \<not> c then Inl Log_Fatal else Inr (v, b)) =
      bind_res (bind_res m (\<lambda>b. if p then Inl Log_Fatal else if \<not> True then Inl Log_Fatal else Inr (v, b)))
        (\<lambda>r. if c then Inr r else Inl Log_Fatal)" for m :: "u8 list res" and p c and v :: int
    by (cases m) auto
  show ?thesis
    by (cases disk) (simp add: read_file_def, simp only: read_file_def option.case Let_def, rule close)
qed

text \<open>What is read of a file: its first \<open>MAXBUF\<close> bytes.\<close>

definition carried :: "u8 list \<Rightarrow> u8 list" where
  "carried content = take MAXBUF content"

lemma length_carried: "length (carried content) \<le> MAXBUF"
  by (simp add: carried_def)

lemma carried_short [simp]: "length content \<le> MAXBUF \<Longrightarrow> carried content = content"
  by (simp add: carried_def)

lemma MAXBUF_fits: "n \<le> MAXBUF \<Longrightarrow> n \<le> INT_MAX"
  by (simp add: MAXBUF_def INT_MAX_def)

lemma read_file_carried:
  assumes "length content \<le> INT_MAX" and "length buf = MAXBUF"
  shows "read_file (Some content) fclose_ok buf (int MAXBUF) =
    (if fclose_ok then Inr (int (length (carried content)), carried content @ drop (length (carried content)) buf)
     else Inl Log_Fatal)"
  using read_file_ok [OF assms] assms(2) by (subst read_file_close) (simp add: carried_def min_def)

lemma write_read_file:
  assumes "n \<le> length buf" and "n \<le> MAXBUF" and "length buf' = MAXBUF"
  shows "bind_res (write_file True True buf n) (\<lambda>f. read_file (Some f) True buf' (int MAXBUF)) =
     Inr (int n, take n buf @ drop n buf')"
proof -
  have "length (take n buf) = n" using assms(1) by simp
  moreover have "read_file (Some (take n buf)) True buf' (int MAXBUF) =
      Inr (int n, take n buf @ drop n buf')"
    using read_file_ok [of "take n buf" buf'] assms by (simp add: INT_MAX_def MAXBUF_def)
  ultimately show ?thesis using assms(1) by (simp add: write_file_def mem_read_def)
qed

text \<open>C10: \<open>read_file\<close> takes the size of a file for an \<open>int\<close>. Of a file whose size modulo 4 GiB is below 2 GiB it reads that
  many bytes, at most \<open>MAXBUF\<close>, and says nothing of the rest; any other size is negative as an \<open>int\<close>, passes the comparison with
  the size of the buffer, and \<open>fread\<close> writes the whole file over the buffer of \<open>transfer_data\<close> and past its end.
\<close>

theorem read_file_trusts_the_size:
  assumes "length buf = MAXBUF"
  shows "read_file (Some content) fclose_ok buf (int MAXBUF) =
    (let n = length content mod 2 ^ 32; m = min n MAXBUF
     in if 2 ^ 31 \<le> n then Inl Undef
        else if fclose_ok then Inr (int m, take m content @ drop m buf) else Inl Log_Fatal)"
proof -
  let ?n = "length content mod 2 ^ 32"
  have le: "?n \<le> length content" by (rule mod_less_eq_dividend)
  show ?thesis
  proof (cases "2 ^ 31 \<le> ?n")
    case True
    have "?n < 2 ^ 32" by simp
    then have "int ?n < 2 ^ 32" by (metis of_nat_less_numeral_power_cancel_iff)
    then have "int_of_long (int (length content)) < 0" using True by (simp add: int_of_long_size del: of_nat_mod)
    moreover have "MAXBUF < length content" using True le by (simp add: MAXBUF_def)
    ultimately show ?thesis using True assms by (simp add: read_file_def mem_write_def Let_def)
  next
    case False
    let ?m = "min ?n MAXBUF"
    have size: "int_of_long (int (length content)) = int ?n" using False by (simp add: int_of_long_size del: of_nat_mod)
    have "int_of_long (int ?m) = int ?m" by (rule int_of_long_id) (simp_all add: MAXBUF_def)
    moreover have "(if int MAXBUF < int ?n then int MAXBUF else int ?n) = int ?m" by simp
    moreover have "min ?m (length content) = ?m" using le by simp
    ultimately have "read_file (Some content) True buf (int MAXBUF) = Inr (int ?m, take ?m content @ drop ?m buf)"
      using assms le unfolding read_file_def option.case Let_def size
      by (simp add: mem_write_def del: of_nat_mod)
    then show ?thesis using False by (subst read_file_close) (simp add: Let_def)
  qed
qed

text \<open>A file of 2 GiB.\<close>

definition demo_huge :: "u8 list" where
  "demo_huge = replicate (2 ^ 31) 7"

lemma read_file_trusts_the_size_witness:
  "read_file (Some demo_huge) True (replicate MAXBUF 0) (int MAXBUF) = Inl Undef"
proof -
  have "length (replicate MAXBUF 0 :: u8 list) = MAXBUF" by (rule length_replicate)
  moreover have "length demo_huge mod 2 ^ 32 = 2 ^ 31" by (simp only: demo_huge_def length_replicate) simp
  ultimately show ?thesis using read_file_trusts_the_size [of "replicate MAXBUF 0" demo_huge True]
    by (simp add: Let_def)
qed

text \<open>what \<open>write_file\<close> wrote, \<open>read_file\<close> reads back: the same number of bytes (at most \<open>MAXBUF\<close>), the same bytes, and
  the rest of the buffer as it was.\<close>

theorem file_round_trip:
  assumes "n \<le> length buf" and "n \<le> MAXBUF" and "length buf' = MAXBUF"
  shows "bind_res (write_file True True buf n) (\<lambda>f. read_file (Some f) True buf' (int MAXBUF)) =
     Inr (int n, take n buf @ drop n buf')"
  using assms by (rule write_read_file)

theorem file_round_trip_witness:
  "bind_res (write_file True True [1, 2, 3] 2) (\<lambda>f. read_file (Some f) True (replicate MAXBUF 0) (int MAXBUF)) =
     Inr (2, [1, 2] @ drop 2 (replicate MAXBUF 0))"
  using file_round_trip [of 2 "[1, 2, 3]" "replicate MAXBUF 0"] by (simp add: MAXBUF_def numeral_2_eq_2)

end
