(* ===== verification/Sender.thy ===== *)
theory Sender
  imports Packet Seqnum Window Handshake Files
begin

text \<open>
  \<open>transfer_data\<close> of \<open>lab2/src/sender.c\<close>: the burst, the timeout branch, the handling of ACKs and the loop over them, in
  the order of the code. \<open>xfer\<close> is what stays fixed during a transfer, \<open>sender\<close> the local variables and the endpoint. \<open>snd_wf\<close> says which
  packets are outstanding: those from \<open>s_shift\<close> up to but without \<open>sn\<close>.
\<close>

record xfer =
  x_buf :: "u8 list"
  x_fsize :: nat
  x_wsize :: nat
  x_mode :: int

record sender =
  s_ep :: endpoint
  s_packet :: rtp_packet
  s_shift :: nat
  s_window :: "int list"
  s_wbase :: u32

definition npacket :: "xfer \<Rightarrow> nat" where
  "npacket x = (x_fsize x + PAYLOAD_MAX - 1) div PAYLOAD_MAX"

definition tsize :: "xfer \<Rightarrow> nat" where
  "tsize x = x_fsize x mod PAYLOAD_MAX"

definition dsize_of :: "xfer \<Rightarrow> nat \<Rightarrow> nat" where
  "dsize_of x k = (if Suc k = npacket x then tsize x else PAYLOAD_MAX)"

definition send_data :: "xfer \<Rightarrow> endpoint \<Rightarrow> u32 \<Rightarrow> nat \<Rightarrow> endpoint res" where
  "send_data x ep seq k =
     (let off = k * PAYLOAD_MAX
      in if length (x_buf x) < off then Inl Undef
         else send_packet ep seq 0 (dsize_of x k) (Some (drop off (x_buf x))))"

function snd_burst :: "xfer \<Rightarrow> sender \<Rightarrow> nat \<Rightarrow> sender res" where
  "snd_burst x s i =
     (if i < x_wsize x \<and> i + s_shift s < npacket x
      then bind_res (send_data x (s_ep s) (ep_sqn (s_ep s)) (s_shift s + i))
             (\<lambda>ep. snd_burst x (s\<lparr>s_ep := ep\<lparr>ep_sqn := seqnum_add (ep_sqn ep) 1\<rparr>\<rparr>) (Suc i))
      else Inr s)"
  by pat_completeness auto
termination
  by (relation "measure (\<lambda>(x, s, i). x_wsize x - i)") auto

function snd_resend :: "xfer \<Rightarrow> sender \<Rightarrow> nat \<Rightarrow> sender res" where
  "snd_resend x s i =
     (if seqnum_add (s_wbase s) (int i) < ep_sqn (s_ep s)
      then if x_mode x \<noteq> 0 \<and> length (s_window s) \<le> i then Inl Undef
           else if x_mode x \<noteq> 0 \<and> s_window s ! i \<noteq> 0 then snd_resend x s (Suc i)
           else if length (x_buf x) < (s_shift s + i) * PAYLOAD_MAX then Inl Undef
           else bind_res (send_data x (s_ep s) (seqnum_add (s_wbase s) (int i)) (s_shift s + i))
                  (\<lambda>ep. snd_resend x (s\<lparr>s_ep := ep\<rparr>) (Suc i))
      else Inr s)"
  by pat_completeness auto
termination
proof (relation "measure (\<lambda>(x, s, i). Suc (max (length (s_window s)) (length (x_buf x))) - i)", goal_cases)
  case (3 x s i ep)
  then have "s_shift s + i \<le> length (x_buf x)"
    by (simp add: PAYLOAD_MAX_def)
  then show ?case by simp
qed auto

declare snd_burst.simps [simp del] snd_resend.simps [simp del]

definition snd_ack :: "xfer \<Rightarrow> sender \<Rightarrow> sender res" where
  "snd_ack x s =
     (let seqnum = seqnum_add (seq_num (rtp (s_packet s))) (- (x_mode x XOR 1))
      in if \<not> seqnum_is_in seqnum (s_wbase s) (ep_sqn (s_ep s)) then Inr s
         else bind_res
           (if x_mode x \<noteq> 0
            then update_window (s_window s) (x_wsize x) (sqn_dis (s_wbase s) seqnum)
            else if sqn_dis (s_wbase s) seqnum + 1 \<le> int INT_MAX
            then Inr (nat (sqn_dis (s_wbase s) seqnum + 1), s_window s) else Inl Undef)
           (\<lambda>(mov, window).
              if INT_MAX < s_shift s + mov then Inl Undef
              else Inr (s\<lparr>s_window := window, s_shift := s_shift s + mov,
                          s_wbase := seqnum_add (s_wbase s) (int mov)\<rparr>)))"

definition snd_iter :: "xfer \<Rightarrow> sender \<Rightarrow> sock_event \<Rightarrow> sender res" where
  "snd_iter x s ev =
     bind_res (recv_packet (s_ep s) (s_packet s) ev)
     (\<lambda>(scode, ep, packet).
        let s = s\<lparr>s_ep := ep, s_packet := packet\<rparr>
        in if scode = -2 then snd_resend x s 0
           else if scode \<noteq> 0 \<or> flags (rtp packet) \<noteq> RTP_ACK then Inr s
           else snd_ack x s)"

definition snd_head :: "xfer \<Rightarrow> sender \<Rightarrow> sender res" where
  "snd_head x s = (if s_wbase s = ep_sqn (s_ep s) then snd_burst x s 0 else Inr s)"

fun snd_loop :: "xfer \<Rightarrow> sender \<Rightarrow> sock_event list \<Rightarrow> sender run" where
  "snd_loop x s [] =
     (if s_shift s < npacket x
      then case snd_head x s of Inl e \<Rightarrow> Failed e | Inr s \<Rightarrow> Waiting (s_ep s)
      else Returned s [])"
| "snd_loop x s (ev # evs) =
     (if s_shift s < npacket x
      then case bind_res (snd_head x s) (\<lambda>s. snd_iter x s ev) of
          Inl e \<Rightarrow> Failed e
        | Inr s \<Rightarrow> snd_loop x s evs
      else Returned s (ev # evs))"

definition snd_transfer_data ::
    "u8 list option \<Rightarrow> bool \<Rightarrow> u8 list \<Rightarrow> int \<Rightarrow> int \<Rightarrow> endpoint \<Rightarrow> rtp_packet \<Rightarrow> sock_event list \<Rightarrow> sender run" where
  "snd_transfer_data file fclose_ok buf wsize mode ep packet evs =
     bind_run (call (read_file file fclose_ok buf (int MAXBUF)) evs)
     (\<lambda>(fsize, buf) evs.
        if wsize \<le> 0 then Failed Undef
        else let x = \<lparr>x_buf = buf, x_fsize = nat fsize, x_wsize = nat wsize, x_mode = mode\<rparr>
             in bind_run (call (set_sock_recv_time ep 0 SEND_MS) evs)
             (\<lambda>ep evs. snd_loop x \<lparr>s_ep = ep, s_packet = packet, s_shift = 0,
                s_window = replicate (nat wsize) 0, s_wbase = ep_sqn ep\<rparr> evs))"


section \<open>Chunks of the file\<close>

definition chunk :: "xfer \<Rightarrow> nat \<Rightarrow> u8 list" where
  "chunk x k = take (dsize_of x k) (drop (k * PAYLOAD_MAX) (x_buf x))"

definition total :: "xfer \<Rightarrow> nat" where
  "total x = (npacket x - 1) * PAYLOAD_MAX + tsize x"

definition xfer_ok :: "xfer \<Rightarrow> bool" where
  "xfer_ok x \<longleftrightarrow> length (x_buf x) = MAXBUF \<and> x_fsize x \<le> MAXBUF \<and> 0 < x_wsize x
     \<and> x_wsize x + MAXBUF \<le> INT_MAX"

lemma npacket_less: "k < npacket x \<Longrightarrow> k * PAYLOAD_MAX < x_fsize x"
  by (simp add: npacket_def PAYLOAD_MAX_def less_eq_div_iff_mult_less_eq flip: Suc_le_eq)

lemma chunk_end:
  assumes "k < npacket x"
  shows "k * PAYLOAD_MAX + dsize_of x k \<le> x_fsize x"
proof (cases "Suc k = npacket x")
  case True
  have "k \<le> x_fsize x div PAYLOAD_MAX"
    using npacket_less [OF assms] by (simp add: PAYLOAD_MAX_def less_eq_div_iff_mult_less_eq)
  then have "k * PAYLOAD_MAX \<le> x_fsize x div PAYLOAD_MAX * PAYLOAD_MAX" by (rule mult_le_mono1)
  then have "k * PAYLOAD_MAX + x_fsize x mod PAYLOAD_MAX \<le> x_fsize x"
    using div_mult_mod_eq [of "x_fsize x" PAYLOAD_MAX] by linarith
  with True show ?thesis by (simp add: dsize_of_def tsize_def)
next
  case False
  with assms npacket_less [of "Suc k" x] show ?thesis by (simp add: dsize_of_def)
qed

lemma dsize_le: "dsize_of x k \<le> PAYLOAD_MAX"
  by (simp add: dsize_of_def tsize_def PAYLOAD_MAX_def)

lemma length_chunk:
  assumes "xfer_ok x" and "k < npacket x"
  shows "length (chunk x k) = dsize_of x k"
proof -
  have "k * PAYLOAD_MAX + dsize_of x k \<le> length (x_buf x)"
    using chunk_end [OF assms(2)] assms(1) by (simp add: xfer_ok_def)
  then show ?thesis by (simp add: chunk_def)
qed

lemma length_chunk_le: "length (chunk x k) \<le> PAYLOAD_MAX"
  using dsize_le [of x k] by (simp add: chunk_def)

lemma npacket_le: "xfer_ok x \<Longrightarrow> npacket x \<le> MAXBUF"
  by (auto simp: xfer_ok_def npacket_def PAYLOAD_MAX_def MAXBUF_def)

lemma xfer_ok_small: "xfer_ok x \<Longrightarrow> int (npacket x) + int (x_wsize x) < 2 ^ 31"
  using npacket_le [of x] by (auto simp: xfer_ok_def INT_MAX_def)

lemma send_data_eq:
  assumes "xfer_ok x" and "k < npacket x"
  shows "send_data x ep seq k = sendto ep (wire seq 0 (chunk x k))"
proof -
  have "k * PAYLOAD_MAX + dsize_of x k \<le> length (x_buf x)"
    using chunk_end [OF assms(2)] assms(1) by (simp add: xfer_ok_def)
  then have "length (x_buf x) \<ge> k * PAYLOAD_MAX" by simp
  moreover have "drop (k * PAYLOAD_MAX) (x_buf x) = chunk x k @ drop (dsize_of x k) (drop (k * PAYLOAD_MAX) (x_buf x))"
    by (simp only: chunk_def append_take_drop_id)
  ultimately show ?thesis
    using send_packet_data [OF length_chunk_le, of ep seq 0 x k "drop (dsize_of x k) (drop (k * PAYLOAD_MAX) (x_buf x))"]
      length_chunk [OF assms] by (simp add: send_data_def Let_def)
qed

section \<open>The sender's state and its loops\<close>

definition snd_wf :: "xfer \<Rightarrow> u32 \<Rightarrow> sender \<Rightarrow> nat \<Rightarrow> bool" where
  "snd_wf x b s sn \<longleftrightarrow>
     s_wbase s = seqnum_add b (int (s_shift s)) \<and> ep_sqn (s_ep s) = seqnum_add b (int sn)
     \<and> s_shift s \<le> sn \<and> sn \<le> npacket x \<and> sn \<le> s_shift s + x_wsize x
     \<and> length (s_window s) = x_wsize x \<and> ep_errno (s_ep s) \<noteq> EAGAIN"

definition data_msg :: "xfer \<Rightarrow> u32 \<Rightarrow> nat \<Rightarrow> u8 list" where
  "data_msg x b k = wire (seqnum_add b (int k)) 0 (chunk x k)"

lemma snd_wf_same: "xfer_ok x \<Longrightarrow> snd_wf x b s sn \<Longrightarrow> s_wbase s = ep_sqn (s_ep s) \<longleftrightarrow> sn = s_shift s"
  using xfer_ok_small [of x] by (auto simp: snd_wf_def sq.add_inj)

lemma snd_burst_spec:
  assumes "xfer_ok x" and "snd_wf x b s (s_shift s + i)"
  shows "(case snd_burst x s i of
      Inl e \<Rightarrow> e = Log_Fatal
    | Inr s' \<Rightarrow> (let sn = min (s_shift s + x_wsize x) (npacket x)
        in snd_wf x b s' sn \<and> s' = s\<lparr>s_ep := s_ep s'\<rparr>
           \<and> ep_out (s_ep s') = ep_out (s_ep s)
               @ map (\<lambda>k. (ep_addr (s_ep s), data_msg x b k)) [s_shift s + i..<sn]))"
  using assms
proof (induction x s i rule: snd_burst.induct)
  case (1 x s i)
  let ?sn = "min (s_shift s + x_wsize x) (npacket x)"
  show ?case
  proof (cases "i < x_wsize x \<and> i + s_shift s < npacket x")
    case False
    then have "s_shift s + i = ?sn" using "1.prems"(2) by (auto simp: snd_wf_def min_def)
    moreover have "snd_burst x s i = Inr s" using False by (subst snd_burst.simps) auto
    ultimately show ?thesis using "1.prems"(2) by (simp add: Let_def)
  next
    case True
    let ?ep = "s_ep s" and ?k = "s_shift s + i"
    have sd: "send_data x ?ep (ep_sqn ?ep) ?k = sendto ?ep (data_msg x b ?k)"
      using True "1.prems" by (simp add: send_data_eq data_msg_def snd_wf_def add.commute)
    show ?thesis
    proof (cases "sendto ?ep (data_msg x b ?k)")
      case (Inl e)
      with True sd show ?thesis by (auto simp: snd_burst.simps [of x s i] dest: sendto_Inl)
    next
      case (Inr ep)
      let ?s = "s\<lparr>s_ep := ep\<lparr>ep_sqn := seqnum_add (ep_sqn ep) 1\<rparr>\<rparr>"
      have ep: "ep = ?ep\<lparr>ep_out := ep_out ?ep @ [(ep_addr ?ep, data_msg x b ?k)]\<rparr>"
        using Inr by (simp add: sendto_Inr)
      have "snd_wf x b ?s (s_shift ?s + Suc i)"
        using "1.prems" True ep by (auto simp: snd_wf_def sq.add_add ac_simps)
      from "1.IH" [OF True "1.prems"(1) this] sd Inr
      have IH: "case snd_burst x ?s (Suc i) of Inl e \<Rightarrow> e = Log_Fatal
        | Inr s' \<Rightarrow> snd_wf x b s' ?sn \<and> s' = ?s\<lparr>s_ep := s_ep s'\<rparr>
           \<and> ep_out (s_ep s') = ep_out ep @ map (\<lambda>k. (ep_addr ep, data_msg x b k)) [s_shift s + Suc i..<?sn]"
        by (simp add: Let_def cong: sum.case_cong)
      have "[s_shift s + i..<?sn] = (s_shift s + i) # [s_shift s + Suc i..<?sn]"
        using True by (simp add: upt_rec)
      with IH True sd Inr ep show ?thesis
        by (simp add: snd_burst.simps [of x s i] Let_def split: sum.splits)
    qed
  qed
qed


definition unacked :: "xfer \<Rightarrow> sender \<Rightarrow> nat \<Rightarrow> bool" where
  "unacked x s k \<longleftrightarrow> x_mode x = 0 \<or> s_window s ! (k - s_shift s) = 0"

definition no_wrap :: "u32 \<Rightarrow> nat \<Rightarrow> bool" where
  "no_wrap b n \<longleftrightarrow> uint b + int n < 2 ^ 31"

lemma no_wrap_less:
  "no_wrap b n \<Longrightarrow> i \<le> n \<Longrightarrow> j \<le> n \<Longrightarrow> seqnum_add b (int i) < seqnum_add b (int j) \<longleftrightarrow> i < j"
  by (simp add: word_less_def uint_seqnum_add no_wrap_def mod_pos_pos_trivial)

lemma snd_resend_spec:
  assumes "xfer_ok x" and "snd_wf x b s sn" and "s_shift s + i \<le> sn"
  shows "(case snd_resend x s i of
      Inl e \<Rightarrow> e = Log_Fatal
    | Inr s' \<Rightarrow> s' = s\<lparr>s_ep := s_ep s'\<rparr> \<and> snd_wf x b s' sn
        \<and> (\<exists>n. s_shift s + i \<le> n \<and> n \<le> sn \<and> (no_wrap b sn \<longrightarrow> n = sn) \<and> ep_out (s_ep s') = ep_out (s_ep s)
            @ map (\<lambda>k. (ep_addr (s_ep s), data_msg x b k)) (filter (unacked x s) [s_shift s + i..<n])))"
  using assms
proof (induction x s i rule: snd_resend.induct)
  case (1 x s i)
  let ?k = "s_shift s + i" and ?ep = "s_ep s"
  have seq: "seqnum_add (s_wbase s) (int i) = seqnum_add b (int ?k)"
    using "1.prems"(2) by (simp add: snd_wf_def sq.add_add)
  show ?case
  proof (cases "seqnum_add (s_wbase s) (int i) < ep_sqn ?ep")
    case False
    then have "snd_resend x s i = Inr s" by (subst snd_resend.simps) simp
    moreover have "no_wrap b sn \<longrightarrow> ?k = sn"
      using False "1.prems" seq no_wrap_less [of b sn ?k sn] by (auto simp: snd_wf_def)
    ultimately show ?thesis using "1.prems" by auto
  next
    case True
    then have k: "?k < sn" using "1.prems"(2,3) seq by (cases "?k = sn") (auto simp: snd_wf_def)
    then have i: "i < length (s_window s)" and np: "?k < npacket x"
      using "1.prems"(2) by (auto simp: snd_wf_def)
    have upt: "[?k..<n] = ?k # [Suc ?k..<n]" if "Suc ?k \<le> n" for n
      using that by (simp add: upt_rec)
    show ?thesis
    proof (cases "x_mode x \<noteq> 0 \<and> s_window s ! i \<noteq> 0")
      case skip: True
      then have "snd_resend x s i = snd_resend x s (Suc i)"
        using True i by (subst snd_resend.simps) simp
      moreover have un: "\<not> unacked x s ?k" using skip by (simp add: unacked_def)
      moreover have bound: "\<not> (x_mode x \<noteq> 0 \<and> length (s_window s) \<le> i)" using i by simp
      ultimately have step: "snd_resend x s i = snd_resend x s (Suc i)" by simp
      have le: "s_shift s + Suc i \<le> sn" using k by simp
      note IH = "1.IH"(1) [OF True bound skip "1.prems"(1,2) le]
      show ?thesis
      proof (cases "snd_resend x s (Suc i)")
        case (Inl e)
        with IH step show ?thesis by simp
      next
        case (Inr s')
        with IH obtain n where "s' = s\<lparr>s_ep := s_ep s'\<rparr>" "snd_wf x b s' sn" "Suc ?k \<le> n" "n \<le> sn"
          "no_wrap b sn \<longrightarrow> n = sn" "ep_out (s_ep s') = ep_out ?ep
            @ map (\<lambda>k. (ep_addr ?ep, data_msg x b k)) (filter (unacked x s) [Suc ?k..<n])" by auto
        then show ?thesis using step Inr un upt [of n]
          by (simp only: sum.case) (intro conjI exI [of _ n], auto)
      qed
    next
      case send: False
      have off: "\<not> length (x_buf x) < ?k * PAYLOAD_MAX"
        using npacket_less [OF np] "1.prems"(1) by (simp add: xfer_ok_def)
      have bound: "\<not> (x_mode x \<noteq> 0 \<and> length (s_window s) \<le> i)" using i by simp
      have sd: "send_data x ?ep (seqnum_add (s_wbase s) (int i)) ?k = sendto ?ep (data_msg x b ?k)"
        using np "1.prems"(1) seq by (simp add: send_data_eq data_msg_def)
      have step: "snd_resend x s i = bind_res (sendto ?ep (data_msg x b ?k))
          (\<lambda>ep. snd_resend x (s\<lparr>s_ep := ep\<rparr>) (Suc i))"
        using True send off bound sd by (subst snd_resend.simps) auto
      show ?thesis
      proof (cases "sendto ?ep (data_msg x b ?k)")
        case (Inl e)
        with step show ?thesis by (auto dest: sendto_Inl)
      next
        case (Inr ep)
        have ep: "ep = ?ep\<lparr>ep_out := ep_out ?ep @ [(ep_addr ?ep, data_msg x b ?k)]\<rparr>"
          using Inr by (simp add: sendto_Inr)
        have wf: "snd_wf x b (s\<lparr>s_ep := ep\<rparr>) sn" using "1.prems"(2) ep by (simp add: snd_wf_def)
        have le: "s_shift (s\<lparr>s_ep := ep\<rparr>) + Suc i \<le> sn" using k by simp
        have un: "unacked x s ?k" "unacked x (s\<lparr>s_ep := ep\<rparr>) = unacked x s"
          using send by (auto simp: unacked_def)
        note IH = "1.IH"(2) [OF True bound send off "1.prems"(1) wf le]
        show ?thesis
        proof (cases "snd_resend x (s\<lparr>s_ep := ep\<rparr>) (Suc i)")
          case (Inl e)
          with IH step \<open>sendto ?ep (data_msg x b ?k) = Inr ep\<close> show ?thesis by simp
        next
          case r: (Inr s')
          with IH obtain n where n: "s' = s\<lparr>s_ep := s_ep s'\<rparr>" "snd_wf x b s' sn" "Suc ?k \<le> n" "n \<le> sn"
            "no_wrap b sn \<longrightarrow> n = sn" "ep_out (s_ep s') = ep_out ep
              @ map (\<lambda>k. (ep_addr ep, data_msg x b k)) (filter (unacked x s) [Suc ?k..<n])"
            using un(2) by auto
          have "snd_resend x s i = Inr s'" using step Inr r by simp
          then show ?thesis using n un(1) upt [of n] ep
            by (simp only: sum.case) (intro conjI exI [of _ n], auto)
        qed
      qed
    qed
  qed
qed


text \<open>The state in which \<open>transfer_data\<close> enters its loop.\<close>

definition snd_start :: "xfer \<Rightarrow> endpoint \<Rightarrow> rtp_packet \<Rightarrow> sender" where
  "snd_start x ep packet = \<lparr>s_ep = ep, s_packet = packet, s_shift = 0,
     s_window = replicate (x_wsize x) 0, s_wbase = ep_sqn ep\<rparr>"

text \<open>
  A concrete transfer: a file of \<open>n\<close> bytes in a buffer full of sevens, and a window of two packets;
  3000 bytes are three packets, 2922 bytes are two full ones.
\<close>

definition demo_xfer :: "nat \<Rightarrow> int \<Rightarrow> xfer" where
  "demo_xfer n mode = \<lparr>x_buf = replicate MAXBUF 7, x_fsize = n, x_wsize = 2, x_mode = mode\<rparr>"

lemma demo_xfer_simps [simp]:
  "x_buf (demo_xfer n mode) = replicate MAXBUF 7" "x_fsize (demo_xfer n mode) = n"
  "x_wsize (demo_xfer n mode) = 2" "x_mode (demo_xfer n mode) = mode"
  by (simp_all add: demo_xfer_def)

lemma demo_xfer_ok: "xfer_ok (demo_xfer 3000 mode)" "xfer_ok (demo_xfer 2922 mode)"
  by (simp_all add: xfer_ok_def MAXBUF_def INT_MAX_def)

lemma demo_npacket [simp]: "npacket (demo_xfer 3000 mode) = 3" "npacket (demo_xfer 2922 mode) = 2"
  by (simp_all add: npacket_def PAYLOAD_MAX_def)

definition demo_snd :: "int \<Rightarrow> int list \<Rightarrow> u32 \<Rightarrow> rtp_packet \<Rightarrow> sender" where
  "demo_snd mode w q p = (snd_start (demo_xfer 3000 mode) (demo_ep\<lparr>ep_sqn := q\<rparr>) p)\<lparr>s_window := w, s_wbase := 0\<rparr>"

lemma demo_snd_wf: "snd_wf (demo_xfer 3000 mode) 0 (demo_snd mode [u, v] 0 p) 0"
  "snd_wf (demo_xfer 3000 mode) 0 (demo_snd mode [u, v] 2 p) 2"
  by (simp_all add: snd_wf_def demo_snd_def snd_start_def seqnum_add_def demo_ep_def EAGAIN_def)

text \<open>With nothing outstanding, the head of the loop sends every packet that fits the window and the file, each with its
  own sequence number and slice of the file, in order and once, and advances \<open>sqn\<close> past them.\<close>

theorem sender_fills_window:
  assumes "xfer_ok x" and "snd_wf x b s (s_shift s)"
  shows "case snd_head x s of
      Inl e \<Rightarrow> e = Log_Fatal
    | Inr s' \<Rightarrow> (let sn = min (s_shift s + x_wsize x) (npacket x)
        in ep_sqn (s_ep s') = seqnum_add b (int sn) \<and> s' = s\<lparr>s_ep := s_ep s'\<rparr>
           \<and> ep_out (s_ep s') = ep_out (s_ep s)
               @ map (\<lambda>k. (ep_addr (s_ep s), data_msg x b k)) [s_shift s..<sn])"
proof -
  have "snd_head x s = snd_burst x s 0" using snd_wf_same [OF assms] by (simp add: snd_head_def)
  moreover have "snd_wf x b s (s_shift s + 0)" using assms(2) by simp
  note snd_burst_spec [OF assms(1) this]
  ultimately show ?thesis by (cases "snd_burst x s 0") (simp_all add: Let_def snd_wf_def)
qed

theorem sender_fills_window_witness:
  "case snd_head (demo_xfer 3000 0) (demo_snd 0 [0, 0] 0 demo_packet) of
      Inl e \<Rightarrow> e = Log_Fatal
    | Inr s \<Rightarrow> map snd (ep_out (s_ep s)) = [data_msg (demo_xfer 3000 0) 0 0, data_msg (demo_xfer 3000 0) 0 1]"
proof -
  let ?s = "demo_snd 0 [0, 0] 0 demo_packet"
  have s: "s_shift ?s = 0" "ep_out (s_ep ?s) = []" by (simp_all add: demo_snd_def snd_start_def demo_ep_def)
  then have wf: "snd_wf (demo_xfer 3000 0) 0 ?s (s_shift ?s)" using demo_snd_wf(1) by simp
  have "[0..<2] = [0, 1 :: nat]" by (simp add: upt_rec)
  with sender_fills_window [OF demo_xfer_ok(1) wf] s show ?thesis
    by (cases "snd_head (demo_xfer 3000 0) ?s") (simp_all add: Let_def)
qed

text \<open>C33: on a timeout the sender sends again exactly the outstanding packets, all of them in Go-Back-N and those not yet
  acknowledged in Selective Repeat, in order, and changes nothing else. (No sequence number in the window may have wrapped.)\<close>

theorem sender_resends_unacknowledged:
  assumes "xfer_ok x" and "snd_wf x b s sn" and "no_wrap b sn"
  shows "case snd_resend x s 0 of
      Inl e \<Rightarrow> e = Log_Fatal
    | Inr s' \<Rightarrow> s' = s\<lparr>s_ep := s_ep s'\<rparr> \<and> ep_out (s_ep s') = ep_out (s_ep s)
        @ map (\<lambda>k. (ep_addr (s_ep s), data_msg x b k)) (filter (unacked x s) [s_shift s..<sn])"
proof -
  have "s_shift s + 0 \<le> sn" using assms(2) by (simp add: snd_wf_def)
  from snd_resend_spec [OF assms(1,2) this] assms(3) show ?thesis
    by (cases "snd_resend x s 0") auto
qed

theorem sender_resends_unacknowledged_witness:
  "case snd_resend (demo_xfer 3000 1) (demo_snd 1 [0, 1] 2 demo_packet) 0 of
      Inl e \<Rightarrow> e = Log_Fatal
    | Inr s \<Rightarrow> map snd (ep_out (s_ep s)) = [data_msg (demo_xfer 3000 1) 0 0]"
proof -
  let ?s = "demo_snd 1 [0, 1] 2 demo_packet"
  have s: "s_shift ?s = 0" "ep_out (s_ep ?s) = []" "s_window ?s = [0, 1]"
    by (simp_all add: demo_snd_def snd_start_def demo_ep_def)
  have "[0..<2] = [0, 1 :: nat]" by (simp add: upt_rec)
  then have "filter (unacked (demo_xfer 3000 1) ?s) [s_shift ?s..<2] = [0]" using s by (simp add: unacked_def)
  moreover have "no_wrap 0 2" by (simp add: no_wrap_def)
  ultimately show ?thesis
    using sender_resends_unacknowledged [OF demo_xfer_ok(1) demo_snd_wf(2), of 1 0 1 demo_packet] s(2)
    by (cases "snd_resend (demo_xfer 3000 1) ?s 0") simp_all
qed

section \<open>Acknowledgements\<close>

lemma snd_in_window:
  assumes "xfer_ok x" and "snd_wf x b s sn" and "s_shift s < sn" and "-1 \<le> k" and "k < 2 ^ 31"
  shows "seqnum_is_in (seqnum_add b k) (s_wbase s) (ep_sqn (s_ep s)) \<longleftrightarrow> int (s_shift s) \<le> k \<and> k < int sn"
proof -
  have "seqnum_is_in (seqnum_add b k) (seqnum_add b (int (s_shift s))) (seqnum_add b (int sn))
      \<longleftrightarrow> int (s_shift s) \<le> k \<and> k < int sn" if "k - int (s_shift s) < 2 ^ 31"
    using that assms xfer_ok_small [of x] by (intro sq.is_in_window) (auto simp: snd_wf_def)
  then show ?thesis using assms(2,5) by (simp add: snd_wf_def)
qed

lemma snd_dis:
  assumes "xfer_ok x" and "snd_wf x b s sn" and "int (s_shift s) \<le> k" and "k < int sn"
  shows "sqn_dis (s_wbase s) (seqnum_add b k) = k - int (s_shift s)"
proof -
  have "sqn_dis (seqnum_add b (int (s_shift s))) (seqnum_add b k) = k - int (s_shift s)"
    using assms xfer_ok_small [of x] by (intro sq.dis_ahead) (auto simp: snd_wf_def)
  then show ?thesis using assms(2) by (simp add: snd_wf_def)
qed

text \<open>
  \<open>acked\<close> is the number that \<open>transfer_data\<close> computes from a received ACK: that of the last packet it acknowledges in Go-Back-N, of the
  packet itself in Selective Repeat. Whatever arrives, it is outside of the window and nothing changes, or it is that of an outstanding packet.
\<close>

definition acked :: "xfer \<Rightarrow> sender \<Rightarrow> u32" where
  "acked x s = seqnum_add (seq_num (rtp (s_packet s))) (- (x_mode x XOR 1))"

lemma snd_ack_stale: "\<not> seqnum_is_in (acked x s) (s_wbase s) (ep_sqn (s_ep s)) \<Longrightarrow> snd_ack x s = Inr s"
  by (simp add: snd_ack_def acked_def)

lemma snd_ack_cases:
  assumes "xfer_ok x" and "snd_wf x b s sn" and "s_shift s < sn"
  obtains (stale) "snd_ack x s = Inr s" | (hit) k where "s_shift s \<le> k" and "k < sn" and "acked x s = seqnum_add b (int k)"
proof -
  obtain i where i: "acked x s = seqnum_add b i" "0 \<le> i" "i < 2 ^ 31"
    using sq.offset [OF seq_ok_add [of b 0], of "acked x s"] seq_ok_add by (auto simp: acked_def sq.add_add)
  show ?thesis
  proof (cases "seqnum_is_in (acked x s) (s_wbase s) (ep_sqn (s_ep s))")
    case False
    then show ?thesis by (rule stale [OF snd_ack_stale])
  next
    case True
    then have "int (s_shift s) \<le> i" "i < int sn"
      using i snd_in_window [OF assms(1-3), of i] by simp_all
    then show ?thesis using i by (intro hit [of "nat i"]) auto
  qed
qed

lemma snd_ack_gbn_hit:
  assumes "xfer_ok x" and "x_mode x = 0" and "snd_wf x b s sn" and "s_shift s \<le> k" and "k < sn"
    and "acked x s = seqnum_add b (int k)"
  shows "snd_ack x s = Inr (s\<lparr>s_shift := Suc k, s_wbase := seqnum_add b (int (Suc k))\<rparr>)"
proof -
  have win: "seqnum_is_in (acked x s) (s_wbase s) (ep_sqn (s_ep s))"
    using snd_in_window [OF assms(1,3), of "int k"] assms(3-6) xfer_ok_small [OF assms(1)] by (simp add: snd_wf_def)
  have dis: "sqn_dis (s_wbase s) (acked x s) = int k - int (s_shift s)"
    using snd_dis [OF assms(1,3), of "int k"] assms(4-6) by simp
  have base: "seqnum_add (s_wbase s) (1 + int k - int (s_shift s)) = seqnum_add b (1 + int k)"
    using assms(3) by (simp add: snd_wf_def sq.add_add)
  have "k < INT_MAX" using assms(1,3,5) npacket_le [of x] by (auto simp: xfer_ok_def snd_wf_def)
  moreover have "nat (int k - int (s_shift s) + 1) = Suc k - s_shift s" using assms(4) by simp
  ultimately show ?thesis unfolding snd_ack_def Let_def acked_def [symmetric] dis
    using win base assms(2,4) by simp
qed

lemma snd_ack_sr_hit:
  assumes "xfer_ok x" and "x_mode x = 1" and "snd_wf x b s sn" and "s_shift s \<le> k" and "k < sn"
    and "acked x s = seqnum_add b (int k)"
    and "update_window (s_window s) (length (s_window s)) (int (k - s_shift s)) = Inr (mov, w)"
  shows "snd_ack x s = Inr (s\<lparr>s_window := w, s_shift := s_shift s + mov, s_wbase := seqnum_add b (int (s_shift s + mov))\<rparr>)"
proof -
  have win: "seqnum_is_in (acked x s) (s_wbase s) (ep_sqn (s_ep s))"
    using snd_in_window [OF assms(1,3), of "int k"] assms(3-6) xfer_ok_small [OF assms(1)] by (simp add: snd_wf_def)
  have dis: "sqn_dis (s_wbase s) (acked x s) = int (k - s_shift s)"
    using snd_dis [OF assms(1,3), of "int k"] assms(4-6) by simp
  have base: "seqnum_add (s_wbase s) (int mov) = seqnum_add b (int (s_shift s + mov))"
    using assms(3) by (simp add: snd_wf_def sq.add_add)
  have len: "length (s_window s) = x_wsize x" using assms(3) by (simp add: snd_wf_def)
  have i: "k - s_shift s < length (s_window s)" using assms(3-5) by (auto simp: snd_wf_def)
  have "s_shift s + mov \<le> INT_MAX"
    using uw.upd_mov [OF i assms(7)] len assms(1,3) npacket_le [OF assms(1)] by (auto simp: snd_wf_def xfer_ok_def)
  then show ?thesis unfolding snd_ack_def Let_def acked_def [symmetric] dis base
    using win assms(2,7) len base by simp
qed

lemma snd_ack_gbn:
  assumes "xfer_ok x" and "x_mode x = 0" and "snd_wf x b s sn" and "s_shift s < sn"
    and "seq_num (rtp (s_packet s)) = seqnum_add b (int a)" and "a \<le> npacket x"
  shows "snd_ack x s = Inr (if s_shift s < a \<and> a \<le> sn
    then s\<lparr>s_shift := a, s_wbase := seqnum_add b (int a)\<rparr> else s)"
proof -
  have seq: "acked x s = seqnum_add b (int a - 1)" using assms(2,5) by (simp add: acked_def sq.add_add)
  show ?thesis
  proof (cases "s_shift s < a \<and> a \<le> sn")
    case True
    then have "acked x s = seqnum_add b (int (a - 1))" using seq by (simp add: of_nat_diff)
    then show ?thesis using True snd_ack_gbn_hit [OF assms(1-3), of "a - 1"] by auto
  next
    case False
    then have "\<not> seqnum_is_in (acked x s) (s_wbase s) (ep_sqn (s_ep s))"
      using snd_in_window [OF assms(1,3,4), of "int a - 1"] assms(6) xfer_ok_small [OF assms(1)] seq by auto
    then show ?thesis using False snd_ack_stale by (simp only: if_False)
  qed
qed

lemma snd_ack_sr:
  assumes "xfer_ok x" and "x_mode x = 1" and "snd_wf x b s sn" and "s_shift s < sn"
    and "seq_num (rtp (s_packet s)) = seqnum_add b (int k)" and "k \<le> npacket x"
  shows "snd_ack x s =
    (if s_shift s \<le> k \<and> k < sn
     then (case update_window (s_window s) (length (s_window s)) (int (k - s_shift s)) of
             Inl e \<Rightarrow> Inl e
           | Inr (mov, w) \<Rightarrow> Inr (s\<lparr>s_window := w, s_shift := s_shift s + mov,
               s_wbase := seqnum_add b (int (s_shift s + mov))\<rparr>))
     else Inr s)"
proof -
  have seq: "acked x s = seqnum_add b (int k)" using assms(2,5) by (simp add: acked_def sq.add_add)
  show ?thesis
  proof (cases "s_shift s \<le> k \<and> k < sn")
    case True
    then have i: "k - s_shift s < length (s_window s)" using assms(3) by (auto simp: snd_wf_def)
    from uw.upd_total [OF i] obtain mov w where
      u: "update_window (s_window s) (length (s_window s)) (int (k - s_shift s)) = Inr (mov, w)" by blast
    with True snd_ack_sr_hit [OF assms(1-3) _ _ seq u] show ?thesis by simp
  next
    case False
    then have "\<not> seqnum_is_in (acked x s) (s_wbase s) (ep_sqn (s_ep s))"
      using snd_in_window [OF assms(1,3,4), of "int k"] assms(6) xfer_ok_small [OF assms(1)] seq by auto
    then show ?thesis using False snd_ack_stale by (simp only: if_False)
  qed
qed

text \<open>C31: in Go-Back-N an ACK whose number is that of packet \<open>a\<close> slides the window to \<open>a\<close> when some outstanding packet lies
  before it, and is ignored (old, duplicated, out of range) otherwise; numbers that have wrapped are handled.\<close>

theorem gbn_ack_is_cumulative:
  assumes "xfer_ok x" and "x_mode x = 0" and "snd_wf x b s sn" and "s_shift s < sn"
    and "seq_num (rtp (s_packet s)) = seqnum_add b (int a)" and "a \<le> npacket x"
  shows "snd_ack x s = Inr (if s_shift s < a \<and> a \<le> sn
    then s\<lparr>s_shift := a, s_wbase := seqnum_add b (int a)\<rparr> else s)"
  using assms by (rule snd_ack_gbn)

theorem gbn_ack_is_cumulative_witness:
  "\<exists>s. snd_ack (demo_xfer 3000 0) (demo_snd 0 [0, 0] 2 (received demo_packet 2 RTP_ACK [])) = Inr s \<and> s_shift s = 2"
proof -
  let ?s = "demo_snd 0 [0, 0] 2 (received demo_packet 2 RTP_ACK [])"
  have s: "s_shift ?s = 0" "seq_num (rtp (s_packet ?s)) = seqnum_add 0 (int 2)"
    by (simp_all add: demo_snd_def snd_start_def seqnum_add_def)
  with gbn_ack_is_cumulative [OF demo_xfer_ok(1) _ demo_snd_wf(2), of 0 0 0 "received demo_packet 2 RTP_ACK []" 2]
  show ?thesis by simp
qed

text \<open>C32: in Selective Repeat an ACK for an outstanding packet marks that packet, slides the window past the packets
  acknowledged without a gap and stops at the first that is not; every other ACK is ignored.\<close>

theorem sr_ack_marks_one_packet:
  assumes "xfer_ok x" and "x_mode x = 1" and "snd_wf x b s sn" and "s_shift s < sn"
    and "seq_num (rtp (s_packet s)) = seqnum_add b (int k)" and "k \<le> npacket x"
  shows "if s_shift s \<le> k \<and> k < sn
    then \<exists>s'. snd_ack x s = Inr s' \<and> covered (s_shift s') (s_window s') = insert k (covered (s_shift s) (s_window s))
           \<and> s_shift s' \<notin> covered (s_shift s') (s_window s') \<and> s_wbase s' = seqnum_add b (int (s_shift s'))
    else snd_ack x s = Inr s"
proof (cases "s_shift s \<le> k \<and> k < sn")
  case False
  then have "snd_ack x s = Inr s" using snd_ack_sr [OF assms] by (simp only: if_False)
  with False show ?thesis by (simp only: if_False)
next
  case True
  have i: "k - s_shift s < length (s_window s)" using True assms(3) by (auto simp: snd_wf_def)
  from uw.upd_total [OF i] obtain mov w where
    u: "update_window (s_window s) (length (s_window s)) (int (k - s_shift s)) = Inr (mov, w)" by blast
  with snd_ack_sr [OF assms] True uw.upd_marked [OF i u, of "s_shift s"] uw.upd_maximal [OF i u, of "s_shift s"]
  show ?thesis by simp
qed

theorem sr_ack_marks_one_packet_witness:
  "\<exists>s. snd_ack (demo_xfer 3000 1) (demo_snd 1 [0, 0] 2 (received demo_packet 1 RTP_ACK [])) = Inr s
    \<and> covered (s_shift s) (s_window s) = {1}"
proof -
  let ?s = "demo_snd 1 [0, 0] 2 (received demo_packet 1 RTP_ACK [])"
  have s: "s_shift ?s = 0" "s_window ?s = [0, 0]" "seq_num (rtp (s_packet ?s)) = seqnum_add 0 (int 1)"
    by (simp_all add: demo_snd_def snd_start_def seqnum_add_def)
  have "covered 0 [0, 0] = {}" by (auto simp: covered_def nth_Cons split: nat.splits)
  with s sr_ack_marks_one_packet [OF demo_xfer_ok(1) _ demo_snd_wf(2), of 1 0 0 "received demo_packet 1 RTP_ACK []" 1]
  show ?thesis by auto
qed

end
