(* ===== verification/Receiver.thy ===== *)
theory Receiver
  imports Packet Seqnum Window Handshake Files
begin

text \<open>
  \<open>transfer_data\<close> of \<open>lab2/src/receiver.c\<close>: one definition for each of the two modes, one for an iteration and the loop.
\<close>

record receiver =
  r_ep :: endpoint
  r_packet :: rtp_packet
  r_fsize :: nat
  r_shift :: nat
  r_window :: "int list"
  r_wbase :: u32
  r_buf :: "u8 list"

datatype rcv_result = R_Continue receiver | R_Break receiver

definition rcv_sr :: "nat \<Rightarrow> receiver \<Rightarrow> receiver res" where
  "rcv_sr wsize r =
     (let seq = seq_num (rtp (r_packet r)); wbase = r_wbase r
      in if seqnum_is_in seq (seqnum_add wbase (- int wsize)) wbase
         then bind_res (send_packet (r_ep r) seq RTP_ACK 0 None) (\<lambda>ep. Inr (r\<lparr>r_ep := ep\<rparr>))
         else if seqnum_is_in seq wbase (seqnum_add wbase (int wsize))
         then let mov = nat (sqn_dis wbase seq) + r_shift r;
                  len = unat (rtp_length (rtp (r_packet r)))
              in bind_res (mem_read (payload (r_packet r)) 0 len) (\<lambda>data.
                 bind_res (mem_write (r_buf r) (mov * PAYLOAD_MAX) data) (\<lambda>buf.
                 let fsize = (if r_fsize r < mov * PAYLOAD_MAX + len then mov * PAYLOAD_MAX + len
                              else r_fsize r)
                 in bind_res (update_window (r_window r) wsize (int mov - int (r_shift r)))
                   (\<lambda>(mov, window).
                      bind_res (send_packet (r_ep r) seq RTP_ACK 0 None)
                        (\<lambda>ep. Inr (r\<lparr>r_buf := buf, r_fsize := fsize, r_window := window,
                                     r_shift := r_shift r + mov,
                                     r_wbase := seqnum_add wbase (int mov), r_ep := ep\<rparr>)))))
         else Inr r)"

definition rcv_gbn :: "receiver \<Rightarrow> receiver res" where
  "rcv_gbn r =
     bind_res
       (if seq_num (rtp (r_packet r)) = ep_sqn (r_ep r)
        then let len = unat (rtp_length (rtp (r_packet r)))
             in bind_res (mem_read (payload (r_packet r)) 0 len) (\<lambda>data.
                bind_res (mem_write (r_buf r) (r_shift r * PAYLOAD_MAX) data) (\<lambda>buf.
                Inr (r\<lparr>r_buf := buf, r_shift := r_shift r + 1, r_fsize := r_fsize r + len,
                       r_ep := (r_ep r)\<lparr>ep_sqn := seqnum_add (ep_sqn (r_ep r)) 1\<rparr>\<rparr>)))
        else Inr r)
       (\<lambda>r. bind_res (send_packet (r_ep r) (ep_sqn (r_ep r)) RTP_ACK 0 None)
              (\<lambda>ep. Inr (r\<lparr>r_ep := ep\<rparr>)))"

definition rcv_iter :: "nat \<Rightarrow> int \<Rightarrow> receiver \<Rightarrow> sock_event \<Rightarrow> rcv_result res" where
  "rcv_iter wsize mode r ev =
     bind_res (recv_packet (r_ep r) (r_packet r) ev)
     (\<lambda>(scode, ep, packet).
        let r = r\<lparr>r_ep := ep, r_packet := packet\<rparr>
        in if scode = -2 \<or> flags (rtp packet) AND RTP_FIN \<noteq> 0 then Inr (R_Break r)
           else if scode \<noteq> 0 \<or> flags (rtp packet) \<noteq> 0 then Inr (R_Continue r)
           else bind_res (if mode \<noteq> 0 then rcv_sr wsize r else rcv_gbn r)
                  (\<lambda>r. Inr (R_Continue r)))"

fun rcv_loop :: "nat \<Rightarrow> int \<Rightarrow> receiver \<Rightarrow> sock_event list \<Rightarrow> receiver run" where
  "rcv_loop wsize mode r [] = Waiting (r_ep r)"
| "rcv_loop wsize mode r (ev # evs) =
     (case rcv_iter wsize mode r ev of
        Inl e \<Rightarrow> Failed e
      | Inr (R_Break r) \<Rightarrow> Returned r evs
      | Inr (R_Continue r) \<Rightarrow> rcv_loop wsize mode r evs)"

definition rcv_transfer_data ::
    "bool \<Rightarrow> bool \<Rightarrow> u8 list \<Rightarrow> int \<Rightarrow> int \<Rightarrow> endpoint \<Rightarrow> rtp_packet \<Rightarrow> sock_event list
     \<Rightarrow> (receiver \<times> u8 list) run" where
  "rcv_transfer_data fopen_ok fclose_ok buf wsize mode ep packet evs =
     (if wsize \<le> 0 then Failed Undef
      else bind_run (call (set_sock_recv_time ep WAIT_S 0) evs)
        (\<lambda>ep evs. bind_run
           (rcv_loop (nat wsize) mode
              \<lparr>r_ep = ep, r_packet = packet, r_fsize = 0, r_shift = 0,
               r_window = replicate (nat wsize) 0, r_wbase = ep_sqn ep, r_buf = buf\<rparr> evs)
           (\<lambda>r evs. call (bind_res (write_file fopen_ok fclose_ok (r_buf r) (r_fsize r))
                            (\<lambda>content. Inr (r, content))) evs)))"

text \<open>The state in which \<open>transfer_data\<close> enters its loop.\<close>

definition rcv_start :: "nat \<Rightarrow> endpoint \<Rightarrow> rtp_packet \<Rightarrow> u8 list \<Rightarrow> receiver" where
  "rcv_start wsize ep packet buf = \<lparr>r_ep = ep, r_packet = packet, r_fsize = 0, r_shift = 0,
     r_window = replicate wsize 0, r_wbase = ep_sqn ep, r_buf = buf\<rparr>"

end
