(* ===== verification/Delivery.thy ===== *)
theory Delivery
  imports Sender Receiver
begin

text \<open>
  What one data packet does to the receiver. \<open>stored\<close> relates its buffer to the file of the sender; \<open>gbn_inv\<close> and \<open>sr_inv\<close>
  are its invariants in the two modes, and \<open>total\<close> is the number of bytes that the sender's packets carry.
\<close>

section \<open>What the receiver has stored\<close>

definition stored :: "xfer \<Rightarrow> u8 list \<Rightarrow> nat set \<Rightarrow> bool" where
  "stored x buf G \<longleftrightarrow> length buf = MAXBUF \<and>
     (\<forall>k \<in> G. take (dsize_of x k) (drop (k * PAYLOAD_MAX) buf) = chunk x k)"

lemma chunk_fits:
  assumes "xfer_ok x" and "k < npacket x"
  shows "k * PAYLOAD_MAX + length (chunk x k) \<le> MAXBUF"
  using chunk_end [OF assms(2)] length_chunk [OF assms] assms(1) by (simp add: xfer_ok_def)

lemma store_chunk:
  assumes "xfer_ok x" and "k < npacket x" and "stored x buf G" and "G \<subseteq> {..<npacket x}"
  shows "\<exists>buf'. mem_write buf (k * PAYLOAD_MAX) (chunk x k) = Inr buf' \<and> stored x buf' (insert k G)"
proof -
  have len: "length buf = MAXBUF" using assms(3) by (simp add: stored_def)
  then obtain buf' where w: "mem_write buf (k * PAYLOAD_MAX) (chunk x k) = Inr buf'"
    using chunk_fits [OF assms(1,2)] by (simp add: mem_write_def)
  have "take (dsize_of x i) (drop (i * PAYLOAD_MAX) buf') = chunk x i" if "i \<in> insert k G" for i
  proof (cases i k rule: linorder_cases)
    case less
    have "Suc i * PAYLOAD_MAX \<le> k * PAYLOAD_MAX" using less by (intro mult_le_mono1) simp
    then have "i * PAYLOAD_MAX + dsize_of x i \<le> k * PAYLOAD_MAX" using dsize_le [of x i] by simp
    then show ?thesis
      using mem_write_read_below [OF w] that less assms(3) by (simp add: stored_def)
  next
    case equal
    then show ?thesis using mem_write_read_same [OF w] length_chunk [OF assms(1,2)] by simp
  next
    case greater
    have "Suc k * PAYLOAD_MAX \<le> i * PAYLOAD_MAX" using greater by (intro mult_le_mono1) simp
    then have "k * PAYLOAD_MAX + length (chunk x k) \<le> i * PAYLOAD_MAX"
      using length_chunk_le [of x k] by simp
    then show ?thesis
      using mem_write_read_above [OF w] that greater assms(3) by (simp add: stored_def)
  qed
  with w len show ?thesis by (auto simp: stored_def mem_write_length)
qed

lemma stored_prefix:
  assumes "xfer_ok x" and "stored x buf {..<n}" and "n < npacket x"
  shows "take (n * PAYLOAD_MAX) buf = take (n * PAYLOAD_MAX) (x_buf x)"
  using assms(2,3)
proof (induction n)
  case (Suc n)
  have "stored x buf {..<n}" using Suc.prems(1) by (simp add: stored_def)
  then have IH: "take (n * PAYLOAD_MAX) buf = take (n * PAYLOAD_MAX) (x_buf x)"
    using Suc.IH Suc.prems(2) by simp
  have "dsize_of x n = PAYLOAD_MAX" using Suc.prems(2) by (simp add: dsize_of_def)
  then have "take PAYLOAD_MAX (drop (n * PAYLOAD_MAX) buf) = take PAYLOAD_MAX (drop (n * PAYLOAD_MAX) (x_buf x))"
    using Suc.prems(1) by (force simp: stored_def chunk_def)
  then show ?case using IH by (simp add: take_add add.commute [of PAYLOAD_MAX])
qed simp

lemma stored_total:
  assumes "xfer_ok x" and "stored x buf {..<npacket x}" and "0 < npacket x"
  shows "take (total x) buf = take (total x) (x_buf x)"
proof -
  let ?n = "npacket x - 1"
  have "stored x buf {..<?n}" using assms(2) by (simp add: stored_def)
  then have "take (?n * PAYLOAD_MAX) buf = take (?n * PAYLOAD_MAX) (x_buf x)"
    using stored_prefix [OF assms(1)] assms(3) by simp
  moreover have "dsize_of x ?n = tsize x" using assms(3) by (simp add: dsize_of_def)
  moreover have "take (dsize_of x ?n) (drop (?n * PAYLOAD_MAX) buf) = chunk x ?n"
    using assms(2,3) by (simp add: stored_def)
  ultimately show ?thesis by (simp add: total_def take_add chunk_def)
qed

lemma ceil_div:
  fixes p q r :: nat
  assumes "0 < p" and "r < p"
  shows "(q * p + r + p - 1) div p = q + (if r = 0 then 0 else 1)"
  using assms by (cases "r = 0") (auto intro!: div_nat_eqI simp: algebra_simps)

lemma total_eq:
  assumes "0 < npacket x"
  shows "total x = (if x_fsize x mod PAYLOAD_MAX = 0 then x_fsize x - PAYLOAD_MAX else x_fsize x)"
proof -
  let ?q = "x_fsize x div PAYLOAD_MAX" and ?r = "x_fsize x mod PAYLOAD_MAX"
  have f: "x_fsize x = ?q * PAYLOAD_MAX + ?r" by simp
  have r: "0 < PAYLOAD_MAX" "?r < PAYLOAD_MAX" by (simp_all add: PAYLOAD_MAX_def)
  have n: "npacket x = ?q + (if ?r = 0 then 0 else 1)"
    unfolding npacket_def using ceil_div [OF r, of ?q] by simp
  show ?thesis
  proof (cases "?r = 0")
    case True
    then have "total x = ?q * PAYLOAD_MAX - PAYLOAD_MAX"
      using n by (simp add: total_def tsize_def diff_mult_distrib)
    with True show ?thesis by auto
  next
    case False
    with n show ?thesis by (simp add: total_def tsize_def)
  qed
qed

lemma chunk_below_total:
  assumes "k < npacket x"
  shows "k * PAYLOAD_MAX + dsize_of x k \<le> total x"
proof (cases "Suc k = npacket x")
  case True
  then have "npacket x - 1 = k" by simp
  with True show ?thesis by (simp add: total_def dsize_of_def)
next
  case False
  then have "Suc k * PAYLOAD_MAX \<le> (npacket x - 1) * PAYLOAD_MAX" using assms by (intro mult_le_mono1) simp
  with False show ?thesis by (simp add: total_def dsize_of_def)
qed

section \<open>One data packet at the receiver\<close>

definition rcv_wf :: "xfer \<Rightarrow> receiver \<Rightarrow> bool" where
  "rcv_wf x r \<longleftrightarrow> r_shift r \<le> npacket x \<and> ep_errno (r_ep r) \<noteq> EAGAIN"

definition data_packet :: "xfer \<Rightarrow> u32 \<Rightarrow> nat \<Rightarrow> rtp_packet \<Rightarrow> bool" where
  "data_packet x b k p \<longleftrightarrow> (\<exists>buf. p = received buf (seqnum_add b (int k)) 0 (chunk x k))"

lemma data_packet_simps:
  assumes "data_packet x b k p"
  shows "seq_num (rtp p) = seqnum_add b (int k)" "unat (rtp_length (rtp p)) = length (chunk x k)"
    "mem_read (payload p) 0 (length (chunk x k)) = Inr (chunk x k)"
proof -
  have "length (chunk x k) \<le> PAYLOAD_MAX" by (rule length_chunk_le)
  then show "seq_num (rtp p) = seqnum_add b (int k)" "unat (rtp_length (rtp p)) = length (chunk x k)"
    "mem_read (payload p) 0 (length (chunk x k)) = Inr (chunk x k)"
    using assms by (auto simp: data_packet_def unat_length16 mem_read_def received_def)
qed

definition ack_msg :: "u32 \<Rightarrow> nat \<Rightarrow> u8 list" where
  "ack_msg b k = wire (seqnum_add b (int k)) RTP_ACK []"

definition gbn_inv :: "xfer \<Rightarrow> u32 \<Rightarrow> receiver \<Rightarrow> bool" where
  "gbn_inv x b r \<longleftrightarrow> rcv_wf x r \<and> ep_sqn (r_ep r) = seqnum_add b (int (r_shift r))
     \<and> stored x (r_buf r) {..<r_shift r} \<and> r_fsize r = (\<Sum>k<r_shift r. dsize_of x k)"

lemma rcv_gbn_spec:
  assumes x: "xfer_ok x" and inv: "gbn_inv x b r" and p: "data_packet x b k (r_packet r)" and k: "k < npacket x"
  shows "case rcv_gbn r of
      Inl e \<Rightarrow> e = Log_Fatal
    | Inr r' \<Rightarrow> gbn_inv x b r' \<and> r_shift r' = (if k = r_shift r then Suc (r_shift r) else r_shift r)
        \<and> ep_out (r_ep r') = ep_out (r_ep r) @ [(ep_addr (r_ep r), ack_msg b (r_shift r'))]"
proof -
  let ?j = "r_shift r"
  have j: "?j \<le> npacket x" using inv by (simp add: gbn_inv_def rcv_wf_def)
  have same: "seq_num (rtp (r_packet r)) = ep_sqn (r_ep r) \<longleftrightarrow> k = ?j"
    using data_packet_simps(1) [OF p] inv k j xfer_ok_small [OF x]
    by (auto simp: gbn_inv_def sq.add_inj)
  show ?thesis
  proof (cases "k = ?j")
    case False
    then have "rcv_gbn r = bind_res (sendto (r_ep r) (ack_msg b ?j)) (\<lambda>ep. Inr (r\<lparr>r_ep := ep\<rparr>))"
      using same inv by (simp add: rcv_gbn_def send_packet_ctl ack_msg_def gbn_inv_def)
    then show ?thesis using False inv
      by (cases "sendto (r_ep r) (ack_msg b ?j)")
         (auto simp: gbn_inv_def rcv_wf_def sendto_Inr dest: sendto_Inl)
  next
    case True
    have "{..<?j} \<subseteq> {..<npacket x}" using j by auto
    from store_chunk [OF x k _ this] inv True obtain buf' where
      w: "mem_write (r_buf r) (?j * PAYLOAD_MAX) (chunk x k) = Inr buf'" and st: "stored x buf' (insert ?j {..<?j})"
      by (auto simp: gbn_inv_def)
    have ins: "insert ?j {..<?j} = {..<Suc ?j}" by auto
    let ?ep = "(r_ep r)\<lparr>ep_sqn := seqnum_add (ep_sqn (r_ep r)) 1\<rparr>"
    have sq: "seqnum_add (ep_sqn (r_ep r)) 1 = seqnum_add b (int (Suc ?j))"
      using inv by (simp add: gbn_inv_def sq.add_add add.commute)
    have g: "rcv_gbn r = bind_res (sendto ?ep (ack_msg b (Suc ?j)))
       (\<lambda>ep. Inr (r\<lparr>r_buf := buf', r_shift := Suc ?j, r_fsize := r_fsize r + dsize_of x ?j, r_ep := ep\<rparr>))"
      using same True data_packet_simps(2,3) [OF p] w sq length_chunk [OF x k]
      by (simp add: rcv_gbn_def Let_def send_packet_ctl ack_msg_def)
    show ?thesis
    proof (cases "sendto ?ep (ack_msg b (Suc ?j))")
      case (Inl e)
      with g show ?thesis by (auto dest: sendto_Inl)
    next
      case (Inr ep)
      then have ep: "ep = ?ep\<lparr>ep_out := ep_out (r_ep r) @ [(ep_addr (r_ep r), ack_msg b (Suc ?j))]\<rparr>"
        by (simp add: sendto_Inr)
      let ?r = "r\<lparr>r_buf := buf', r_shift := Suc ?j, r_fsize := r_fsize r + dsize_of x ?j, r_ep := ep\<rparr>"
      have "gbn_inv x b ?r"
        using inv True k st ep sq by (simp add: gbn_inv_def rcv_wf_def ins)
      then show ?thesis using g Inr ep True by simp
    qed
  qed
qed


definition rcovered :: "receiver \<Rightarrow> nat set" where
  "rcovered r = covered (r_shift r) (r_window r)"

definition sr_inv :: "xfer \<Rightarrow> u32 \<Rightarrow> receiver \<Rightarrow> bool" where
  "sr_inv x b r \<longleftrightarrow> rcv_wf x r \<and> r_wbase r = seqnum_add b (int (r_shift r))
     \<and> length (r_window r) = x_wsize x \<and> rcovered r \<subseteq> {..<npacket x} \<and> r_shift r \<notin> rcovered r
     \<and> stored x (r_buf r) (rcovered r)
     \<and> (\<forall>k \<in> rcovered r. k * PAYLOAD_MAX + dsize_of x k \<le> r_fsize r) \<and> r_fsize r \<le> total x"

lemma sr_windows:
  assumes x: "xfer_ok x" and inv: "sr_inv x b r" and k: "k < npacket x"
  shows "seqnum_is_in (seqnum_add b (int k)) (seqnum_add (r_wbase r) (- int (x_wsize x))) (r_wbase r)
      \<longleftrightarrow> r_shift r \<le> k + x_wsize x \<and> k < r_shift r"
    and "seqnum_is_in (seqnum_add b (int k)) (r_wbase r) (seqnum_add (r_wbase r) (int (x_wsize x)))
      \<longleftrightarrow> r_shift r \<le> k \<and> k < r_shift r + x_wsize x"
    and "r_shift r \<le> k \<Longrightarrow> nat (sqn_dis (r_wbase r) (seqnum_add b (int k))) + r_shift r = k"
proof -
  have wb: "r_wbase r = seqnum_add b (int (r_shift r))" and le: "r_shift r \<le> npacket x" and w: "0 < x_wsize x"
    using inv x by (auto simp: sr_inv_def rcv_wf_def xfer_ok_def)
  note small = xfer_ok_small [OF x]
  have "seqnum_is_in (seqnum_add b (int k)) (seqnum_add b (int (r_shift r) - int (x_wsize x))) (seqnum_add b (int (r_shift r)))
      \<longleftrightarrow> int (r_shift r) - int (x_wsize x) \<le> int k \<and> int k < int (r_shift r)"
    using le w small k by (intro sq.is_in_window) auto
  then show "seqnum_is_in (seqnum_add b (int k)) (seqnum_add (r_wbase r) (- int (x_wsize x))) (r_wbase r)
      \<longleftrightarrow> r_shift r \<le> k + x_wsize x \<and> k < r_shift r"
    by (simp add: wb sq.add_add) linarith
  have "seqnum_is_in (seqnum_add b (int k)) (seqnum_add b (int (r_shift r))) (seqnum_add b (int (r_shift r) + int (x_wsize x)))
      \<longleftrightarrow> int (r_shift r) \<le> int k \<and> int k < int (r_shift r) + int (x_wsize x)"
    using le w small k by (intro sq.is_in_window) auto
  then show "seqnum_is_in (seqnum_add b (int k)) (r_wbase r) (seqnum_add (r_wbase r) (int (x_wsize x)))
      \<longleftrightarrow> r_shift r \<le> k \<and> k < r_shift r + x_wsize x"
    by (simp add: wb sq.add_add) linarith
  assume "r_shift r \<le> k"
  then have "sqn_dis (seqnum_add b (int (r_shift r))) (seqnum_add b (int k)) = int k - int (r_shift r)"
    using small k by (intro sq.dis_ahead) auto
  then show "nat (sqn_dis (r_wbase r) (seqnum_add b (int k))) + r_shift r = k"
    using \<open>r_shift r \<le> k\<close> by (simp add: wb)
qed

lemma rcv_sr_accept:
  assumes x: "xfer_ok x" and inv: "sr_inv x b r" and p: "data_packet x b k (r_packet r)" and k: "k < npacket x"
    and acc: "r_shift r \<le> k" "k < r_shift r + x_wsize x"
  shows "\<exists>r1. rcv_sr (x_wsize x) r = bind_res (sendto (r_ep r) (ack_msg b k)) (\<lambda>ep. Inr (r1\<lparr>r_ep := ep\<rparr>))
    \<and> r_ep r1 = r_ep r \<and> sr_inv x b r1 \<and> rcovered r1 = insert k (rcovered r)"
proof -
  let ?i = "k - r_shift r"
  have i: "?i < length (r_window r)" using acc inv by (auto simp: sr_inv_def)
  from uw.upd_total [OF i] obtain mov w where
    u: "update_window (r_window r) (length (r_window r)) (int ?i) = Inr (mov, w)" by blast
  have cov: "covered (r_shift r + mov) w = insert k (rcovered r)"
    using uw.upd_marked [OF i u, of "r_shift r"] acc by (simp add: rcovered_def)
  obtain buf' where buf': "mem_write (r_buf r) (k * PAYLOAD_MAX) (chunk x k) = Inr buf'"
    and st: "stored x buf' (insert k (rcovered r))"
    using store_chunk [OF x k, of "r_buf r" "rcovered r"] inv by (auto simp: sr_inv_def)
  have len: "length (r_window r) = x_wsize x" using inv by (simp add: sr_inv_def)
  let ?stop = "k * PAYLOAD_MAX + length (chunk x k)"
  let ?fs = "if r_fsize r < ?stop then ?stop else r_fsize r"
  let ?r1 = "r\<lparr>r_buf := buf', r_fsize := ?fs, r_window := w, r_shift := r_shift r + mov,
      r_wbase := seqnum_add (r_wbase r) (int mov)\<rparr>"
  have ind: "int k - int (r_shift r) = int ?i" using acc by simp
  note pk = data_packet_simps [OF p]
  have "rcv_sr (x_wsize x) r = bind_res (sendto (r_ep r) (ack_msg b k)) (\<lambda>ep. Inr (?r1\<lparr>r_ep := ep\<rparr>))"
    using acc sr_windows [OF x inv k] pk buf' u len
    by (simp add: rcv_sr_def Let_def send_packet_ctl ack_msg_def flip: ind)
  moreover have "r_shift r + mov \<le> npacket x"
  proof (rule ccontr)
    assume "\<not> ?thesis"
    then have "npacket x \<in> covered (r_shift r + mov) w" by (simp add: covered_def)
    with cov k inv show False by (auto simp: sr_inv_def)
  qed
  then have "sr_inv x b ?r1"
    using inv k cov st uw.upd_maximal [OF i u, of "r_shift r"] uw.upd_wlen [OF i u] length_chunk [OF x k] chunk_below_total [OF k]
    by (auto simp: sr_inv_def rcv_wf_def rcovered_def sq.add_add)
  ultimately show ?thesis using cov
    by (intro exI [of _ ?r1]) (simp add: rcovered_def)
qed

lemma rcv_sr_spec:
  assumes x: "xfer_ok x" and inv: "sr_inv x b r" and p: "data_packet x b k (r_packet r)" and k: "k < npacket x"
  shows "case rcv_sr (x_wsize x) r of
      Inl e \<Rightarrow> e = Log_Fatal
    | Inr r' \<Rightarrow> sr_inv x b r'
        \<and> rcovered r' = (if r_shift r \<le> k \<and> k < r_shift r + x_wsize x then insert k (rcovered r) else rcovered r)
        \<and> ep_out (r_ep r') = ep_out (r_ep r) @ (if r_shift r \<le> k + x_wsize x \<and> k < r_shift r + x_wsize x
            then [(ep_addr (r_ep r), ack_msg b k)] else [])"
proof -
  have inv_ep: "sr_inv x b (r1\<lparr>r_ep := ep\<rparr>)" "rcovered (r1\<lparr>r_ep := ep\<rparr>) = rcovered r1"
    if "sr_inv x b r1" "ep_errno ep \<noteq> EAGAIN" for r1 ep
    using that by (auto simp: sr_inv_def rcv_wf_def rcovered_def)
  have errno: "ep_errno (r_ep r) \<noteq> EAGAIN" using inv by (simp add: sr_inv_def rcv_wf_def)
  consider (old) "r_shift r \<le> k + x_wsize x" "k < r_shift r"
    | (new) "r_shift r \<le> k" "k < r_shift r + x_wsize x"
    | (out) "\<not> (r_shift r \<le> k + x_wsize x \<and> k < r_shift r + x_wsize x)" by linarith
  then show ?thesis
  proof cases
    case old
    then have "rcv_sr (x_wsize x) r = bind_res (sendto (r_ep r) (ack_msg b k)) (\<lambda>ep. Inr (r\<lparr>r_ep := ep\<rparr>))"
      using sr_windows [OF x inv k] data_packet_simps [OF p]
      by (simp add: rcv_sr_def Let_def send_packet_ctl ack_msg_def)
    then show ?thesis using old inv_ep [OF inv] errno
      by (cases "sendto (r_ep r) (ack_msg b k)") (auto simp: sendto_Inr dest: sendto_Inl)
  next
    case new
    from rcv_sr_accept [OF x inv p k new] obtain r1 where
      r1: "rcv_sr (x_wsize x) r = bind_res (sendto (r_ep r) (ack_msg b k)) (\<lambda>ep. Inr (r1\<lparr>r_ep := ep\<rparr>))"
        "r_ep r1 = r_ep r" "sr_inv x b r1" "rcovered r1 = insert k (rcovered r)" by blast
    then show ?thesis using new inv_ep [OF r1(3)] errno
      by (cases "sendto (r_ep r) (ack_msg b k)") (auto simp: sendto_Inr dest: sendto_Inl)
  next
    case out
    then have "rcv_sr (x_wsize x) r = Inr r"
      using sr_windows [OF x inv k] data_packet_simps [OF p] by (auto simp: rcv_sr_def Let_def)
    then show ?thesis using out inv by auto
  qed
qed

section \<open>What the receiver answers\<close>

definition demo_rcv :: "nat \<Rightarrow> receiver" where
  "demo_rcv k = rcv_start 2 demo_ep (received demo_packet (of_nat k) 0 (chunk (demo_xfer 3000 0) k)) (replicate MAXBUF 0)"

lemma demo_rcv_simps [simp]:
  "r_shift (demo_rcv k) = 0" "r_fsize (demo_rcv k) = 0" "r_window (demo_rcv k) = [0, 0]"
  "r_wbase (demo_rcv k) = 0" "ep_sqn (r_ep (demo_rcv k)) = 0" "r_buf (demo_rcv k) = replicate MAXBUF 0"
  "ep_errno (r_ep (demo_rcv k)) = 0" "ep_out (r_ep (demo_rcv k)) = []"
  by (simp_all add: demo_rcv_def rcv_start_def demo_ep_def numeral_2_eq_2)

lemma demo_data_packet:
  assumes "k < 3"
  shows "data_packet (demo_xfer 3000 mode) 0 k (r_packet (demo_rcv k))"
proof -
  have "seqnum_add 0 (int k) = of_nat k" using assms
    by (auto simp: seqnum_add_def less_Suc_eq numeral_3_eq_3)
  moreover have "chunk (demo_xfer 3000 mode) k = chunk (demo_xfer 3000 0) k"
    by (simp add: chunk_def dsize_of_def npacket_def tsize_def)
  ultimately show ?thesis by (auto simp: data_packet_def demo_rcv_def rcv_start_def)
qed

lemma demo_rcv_inv: "gbn_inv (demo_xfer 3000 mode) 0 (demo_rcv k)" "sr_inv (demo_xfer 3000 mode) 0 (demo_rcv k)"
proof -
  have c: "rcovered (demo_rcv k) = {}" by (auto simp: rcovered_def covered_def nth_Cons split: nat.splits)
  show "gbn_inv (demo_xfer 3000 mode) 0 (demo_rcv k)"
    by (simp add: gbn_inv_def rcv_wf_def stored_def seqnum_add_def EAGAIN_def)
  show "sr_inv (demo_xfer 3000 mode) 0 (demo_rcv k)"
    unfolding sr_inv_def c by (simp add: rcv_wf_def stored_def seqnum_add_def EAGAIN_def)
qed

text \<open>C29: the Go-Back-N receiver, given a data packet of the file, stores it if it is the next one and drops it otherwise; in both
  cases it answers with the number of the packet it wants next, and its buffer and \<open>fsize\<close> describe exactly the
  packets stored.\<close>

theorem gbn_receiver_answers:
  assumes "xfer_ok x" and "gbn_inv x b r" and "data_packet x b k (r_packet r)" and "k < npacket x"
  shows "case rcv_gbn r of
      Inl e \<Rightarrow> e = Log_Fatal
    | Inr r' \<Rightarrow> gbn_inv x b r' \<and> r_shift r' = (if k = r_shift r then Suc (r_shift r) else r_shift r)
        \<and> ep_out (r_ep r') = ep_out (r_ep r) @ [(ep_addr (r_ep r), ack_msg b (r_shift r'))]"
  using assms by (rule rcv_gbn_spec)

theorem gbn_receiver_answers_witness:
  "case rcv_gbn (demo_rcv 0) of Inl e \<Rightarrow> e = Log_Fatal
    | Inr r \<Rightarrow> r_shift r = 1 \<and> map snd (ep_out (r_ep r)) = [ack_msg 0 1]"
  using gbn_receiver_answers [OF demo_xfer_ok(1) demo_rcv_inv(1) demo_data_packet, of 0 0]
  by (cases "rcv_gbn (demo_rcv 0)") simp_all

text \<open>C30: the Selective Repeat receiver, given a data packet of the file, stores it and marks it when it lies in the window,
  answers with that packet's own number when it lies in the window or in the window before it, and is silent otherwise.\<close>

theorem sr_receiver_answers:
  assumes "xfer_ok x" and "sr_inv x b r" and "data_packet x b k (r_packet r)" and "k < npacket x"
  shows "case rcv_sr (x_wsize x) r of
      Inl e \<Rightarrow> e = Log_Fatal
    | Inr r' \<Rightarrow> sr_inv x b r'
        \<and> rcovered r' = (if r_shift r \<le> k \<and> k < r_shift r + x_wsize x then insert k (rcovered r) else rcovered r)
        \<and> ep_out (r_ep r') = ep_out (r_ep r) @ (if r_shift r \<le> k + x_wsize x \<and> k < r_shift r + x_wsize x
            then [(ep_addr (r_ep r), ack_msg b k)] else [])"
  using assms by (rule rcv_sr_spec)

theorem sr_receiver_answers_witness:
  "case rcv_sr 2 (demo_rcv 1) of Inl e \<Rightarrow> e = Log_Fatal
    | Inr r \<Rightarrow> rcovered r = insert 1 (rcovered (demo_rcv 1)) \<and> map snd (ep_out (r_ep r)) = [ack_msg 0 1]"
  using sr_receiver_answers [OF demo_xfer_ok(1) demo_rcv_inv(2) demo_data_packet, of 1 1]
  by (cases "rcv_sr 2 (demo_rcv 1)") simp_all

end
