(* ===== verification/Network.thy ===== *)
theory Network
  imports Delivery
begin

text \<open>
  Sender and receiver side by side. The network is everything that was ever sent: a program may be handed any datagram
  of its peer, any number of times and in any order, a timeout, or any bytes that \<open>recv_packet\<close> rejects (\<open>from_peer\<close>). \<open>net_all\<close> states a
  property of all valid packets under way.
\<close>

section \<open>The two programs and the network between them\<close>

datatype pc = At_Head | At_Recv | At_Break

record sys =
  y_snd :: sender
  y_pc :: pc
  y_rcv :: receiver
  y_done :: bool

inductive sys_step :: "xfer \<Rightarrow> sys \<Rightarrow> sys \<Rightarrow> bool" for x where
  snd_burst_step: "y_pc y = At_Head \<Longrightarrow> s_shift (y_snd y) < npacket x \<Longrightarrow> snd_head x (y_snd y) = Inr s \<Longrightarrow>
     sys_step x y (y\<lparr>y_snd := s, y_pc := At_Recv\<rparr>)"
| snd_recv_step: "y_pc y = At_Recv \<Longrightarrow> from_peer (ep_out (r_ep (y_rcv y))) ev \<Longrightarrow>
     snd_iter x (y_snd y) ev = Inr s \<Longrightarrow> sys_step x y (y\<lparr>y_snd := s, y_pc := At_Head\<rparr>)"
| snd_fin_step: "y_pc y = At_Head \<and> npacket x \<le> s_shift (y_snd y) \<or> y_pc y = At_Break \<Longrightarrow>
     bind_res (set_sock_recv_time (s_ep (y_snd y)) 0 SEND_MS) (\<lambda>ep. send_packet ep (ep_sqn ep) RTP_FIN 0 None) = Inr ep \<Longrightarrow>
     sys_step x y (y\<lparr>y_snd := (y_snd y)\<lparr>s_ep := ep\<rparr>, y_pc := At_Break\<rparr>)"
| rcv_step: "\<not> y_done y \<Longrightarrow> from_peer (ep_out (s_ep (y_snd y))) ev \<Longrightarrow>
     rcv_iter (x_wsize x) (x_mode x) (y_rcv y) ev = Inr (R_Continue r) \<Longrightarrow>
     sys_step x y (y\<lparr>y_rcv := r\<rparr>)"
| rcv_break_step: "\<not> y_done y \<Longrightarrow> from_peer (ep_out (s_ep (y_snd y))) ev \<Longrightarrow>
     rcv_iter (x_wsize x) (x_mode x) (y_rcv y) ev = Inr (R_Break r) \<Longrightarrow>
     sys_step x y (y\<lparr>y_rcv := r, y_done := True\<rparr>)"

definition net_all :: "(u32 \<Rightarrow> u8 \<Rightarrow> u8 list \<Rightarrow> bool) \<Rightarrow> (sockaddr \<times> u8 list) list \<Rightarrow> bool" where
  "net_all P out \<longleftrightarrow> (\<forall>m \<in> snd ` set out.
     case decode_packet (take RTP_PACKET_SIZE m) of None \<Rightarrow> True | Some (q, f, d) \<Rightarrow> P q f d)"

definition sys_init :: "xfer \<Rightarrow> u32 \<Rightarrow> sys \<Rightarrow> bool" where
  "sys_init x b y \<longleftrightarrow>
     (let s = y_snd y; r = y_rcv y
      in seq_ok b \<and> y_pc y = At_Head \<and> \<not> y_done y
       \<and> ep_sqn (s_ep s) = b \<and> ep_errno (s_ep s) \<noteq> EAGAIN
       \<and> s = \<lparr>s_ep = s_ep s, s_packet = s_packet s, s_shift = 0, s_window = replicate (x_wsize x) 0,
              s_wbase = ep_sqn (s_ep s)\<rparr>
       \<and> ep_sqn (r_ep r) = b \<and> ep_errno (r_ep r) \<noteq> EAGAIN \<and> length (r_buf r) = MAXBUF
       \<and> r = \<lparr>r_ep = r_ep r, r_packet = r_packet r, r_fsize = 0, r_shift = 0,
              r_window = replicate (x_wsize x) 0, r_wbase = ep_sqn (r_ep r), r_buf = r_buf r\<rparr>
       \<and> net_all (\<lambda>q f d. f = RTP_SYN \<and> seqnum_add q 1 = b \<or> f = RTP_ACK) (ep_out (s_ep s))
       \<and> net_all (\<lambda>q f d. f \<noteq> RTP_ACK) (ep_out (r_ep r)))"

text \<open>What the receiver relies on: data packets carry slices of the file, and SYNs announce the first sequence number.\<close>

definition data_net :: "xfer \<Rightarrow> u32 \<Rightarrow> nat \<Rightarrow> (sockaddr \<times> u8 list) list \<Rightarrow> bool" where
  "data_net x b n = net_all (\<lambda>q f d. (f = 0 \<longrightarrow> (\<exists>k < n. q = seqnum_add b (int k) \<and> d = chunk x k))
     \<and> (f = RTP_SYN \<longrightarrow> seqnum_add q 1 = b))"

definition ack_net :: "(nat \<Rightarrow> bool) \<Rightarrow> xfer \<Rightarrow> u32 \<Rightarrow> (sockaddr \<times> u8 list) list \<Rightarrow> bool" where
  "ack_net ok x b =
     net_all (\<lambda>q f d. f = RTP_ACK \<longrightarrow> (\<exists>k \<le> npacket x. q = seqnum_add b (int k) \<and> ok k))"

definition no_fin :: "(sockaddr \<times> u8 list) list \<Rightarrow> bool" where
  "no_fin = net_all (\<lambda>q f d. f AND RTP_FIN = 0)"

lemma net_all_append [simp]: "net_all P (out @ out') \<longleftrightarrow> net_all P out \<and> net_all P out'"
  by (auto simp: net_all_def)

lemma net_all_Nil [simp]: "net_all P []"
  by (simp add: net_all_def)

lemma net_all_wire [simp]:
  "length d \<le> PAYLOAD_MAX \<Longrightarrow> net_all P ((a, wire q f d) # out) \<longleftrightarrow> P q f d \<and> net_all P out"
  by (simp add: net_all_def wire_fits decode_wire)

lemma net_all_mono: "net_all P out \<Longrightarrow> (\<And>q f d. P q f d \<Longrightarrow> Q q f d) \<Longrightarrow> net_all Q out"
  unfolding net_all_def by (fastforce split: option.splits)

lemma net_all_decode:
  "net_all P out \<Longrightarrow> from_peer out (Datagram sa m) \<Longrightarrow>
   decode_packet (take RTP_PACKET_SIZE m) = Some (q, f, d) \<Longrightarrow> P q f d"
  unfolding net_all_def from_peer_def by fastforce

lemma net_all_ctl_cong: "map snd out = map snd out' \<Longrightarrow> net_all P out = net_all P out'"
  unfolding net_all_def by (metis list.set_map)

lemma net_all_data_msgs:
  "net_all P (map (\<lambda>k. (a, data_msg x b k)) ks) \<longleftrightarrow> (\<forall>k \<in> set ks. P (seqnum_add b (int k)) 0 (chunk x k))"
  by (induction ks) (simp_all add: data_msg_def length_chunk_le)

lemma data_net_append:
  assumes "data_net x b n out" and "n \<le> n'" and "\<forall>k \<in> set ks. k < n'"
  shows "data_net x b n' (out @ map (\<lambda>k. (a, data_msg x b k)) ks)"
proof -
  have "data_net x b n' out"
    using assms(1) unfolding data_net_def by (rule net_all_mono) (use assms(2) order_less_le_trans in blast)
  moreover have "data_net x b n' (map (\<lambda>k. (a, data_msg x b k)) ks)"
    using assms(3) by (auto simp: data_net_def net_all_data_msgs RTP_SYN_def)
  ultimately show ?thesis by (simp add: data_net_def)
qed

lemma no_fin_append: "no_fin out \<Longrightarrow> no_fin (out @ map (\<lambda>k. (a, data_msg x b k)) ks)"
  by (simp add: no_fin_def net_all_data_msgs)

lemma ack_net_mono: "ack_net ok x b out \<Longrightarrow> (\<And>k. ok k \<Longrightarrow> ok' k) \<Longrightarrow> ack_net ok' x b out"
  unfolding ack_net_def by (erule net_all_mono) blast

lemma ack_net_append:
  assumes "ack_net ok x b out" and "\<forall>a \<in> set as. \<exists>j \<le> npacket x. snd a = ack_msg b j \<and> ok j"
  shows "ack_net ok x b (out @ as)"
proof -
  have "ack_net ok x b as"
    using assms(2) by (induction as) (auto simp: ack_net_def ack_msg_def)
  with assms(1) show ?thesis by (simp add: ack_net_def)
qed

end
