(* ===== verification/Arq.thy ===== *)
theory Arq
  imports Network
begin

text \<open>
  The safety argument of sliding window retransmission, once for both modes. The locale \<open>arq\<close> takes what the sender has
  marked, what the receiver has got and which ACKs may be under way as parameters and the laws of one ACK and one data packet as
  assumptions; \<open>sys_inv\<close> is preserved by every step. Go-Back-N and Selective Repeat are its interpretations \<open>gbn\<close> and \<open>sr\<close>.
\<close>

lemma total_le_MAXBUF: "xfer_ok x \<Longrightarrow> total x \<le> MAXBUF"
proof (cases "npacket x = 0")
  case True
  then have "x_fsize x = 0" by (auto simp: npacket_def PAYLOAD_MAX_def)
  with True show ?thesis by (simp add: total_def tsize_def)
qed (auto simp: total_eq xfer_ok_def)

lemma s_shift_ep: "s' = s\<lparr>s_ep := ep\<rparr> \<Longrightarrow> s_shift s' = s_shift s"
  by simp

text \<open>The sender has marked packets it has sent, and not the one at the edge of its window.\<close>

definition snd_marked :: "xfer \<Rightarrow> u32 \<Rightarrow> sender \<Rightarrow> nat \<Rightarrow> nat set \<Rightarrow> bool" where
  "snd_marked x b s sn M \<longleftrightarrow> snd_wf x b s sn \<and> s_shift s \<notin> M \<and> M \<subseteq> {..<sn}"

locale arq =
  fixes mode :: int and smark :: "sender \<Rightarrow> nat set" and got :: "receiver \<Rightarrow> nat set"
    and rinv :: "xfer \<Rightarrow> u32 \<Rightarrow> receiver \<Rightarrow> bool" and ack_ok :: "nat set \<Rightarrow> nat \<Rightarrow> bool"
  assumes ack_mono: "ack_ok G k \<Longrightarrow> G \<subseteq> G' \<Longrightarrow> ack_ok G' k"
    and smark_ep: "smark (s\<lparr>s_ep := ep\<rparr>) = smark s"
    and smark_packet: "smark (s\<lparr>s_ep := ep, s_packet := p\<rparr>) = smark s"
    and smark_below: "{..<s_shift s} \<subseteq> smark s"
    and smark_init: "s_shift s = 0 \<Longrightarrow> s_window s = replicate n 0 \<Longrightarrow> smark s = {}"
    and ack_step: "xfer_ok x \<Longrightarrow> x_mode x = mode \<Longrightarrow> snd_marked x b s sn (smark s) \<Longrightarrow> s_shift s < sn \<Longrightarrow>
        \<exists>s'. snd_ack x s = Inr s' \<and> snd_marked x b s' sn (smark s') \<and> s_ep s' = s_ep s
          \<and> (\<forall>k G. seq_num (rtp (s_packet s)) = seqnum_add b (int k) \<longrightarrow> k \<le> npacket x \<longrightarrow> ack_ok G k \<longrightarrow>
               smark s \<subseteq> G \<longrightarrow> smark s' \<subseteq> G)"
    and rinv_init: "xfer_ok x \<Longrightarrow> sys_init x b y \<Longrightarrow> rinv x b (y_rcv y) \<and> got (y_rcv y) = {}"
    and rinv_packet: "rinv x b r \<Longrightarrow> ep_sqn ep = ep_sqn (r_ep r) \<Longrightarrow> ep_errno ep \<noteq> EAGAIN \<Longrightarrow>
        rinv x b (r\<lparr>r_ep := ep, r_packet := p\<rparr>)"
    and got_packet: "got (r\<lparr>r_ep := ep, r_packet := p\<rparr>) = got r"
    and rinv_wf: "rinv x b r \<Longrightarrow> rcv_wf x r"
    and rinv_stored: "rinv x b r \<Longrightarrow> stored x (r_buf r) (got r)"
    and rinv_fsize: "xfer_ok x \<Longrightarrow> rinv x b r \<Longrightarrow> r_fsize r \<le> total x"
    and rinv_complete: "xfer_ok x \<Longrightarrow> rinv x b r \<Longrightarrow> got r = {..<npacket x} \<Longrightarrow> r_fsize r = total x"
    and data_step: "xfer_ok x \<Longrightarrow> x_mode x = mode \<Longrightarrow> rinv x b r \<Longrightarrow> data_packet x b k (r_packet r) \<Longrightarrow>
        k < npacket x \<Longrightarrow>
        (case (if mode \<noteq> 0 then rcv_sr (x_wsize x) r else rcv_gbn r) of
           Inl e \<Rightarrow> e = Log_Fatal
         | Inr r' \<Rightarrow> rinv x b r' \<and> got r \<subseteq> got r' \<and> got r' \<subseteq> insert k (got r)
             \<and> (\<exists>as. ep_out (r_ep r') = ep_out (r_ep r) @ as
                  \<and> (\<forall>a \<in> set as. \<exists>j \<le> npacket x. snd a = ack_msg b j \<and> ack_ok (got r') j)))"
begin

lemma snd_head_inv:
  assumes "xfer_ok x" and "snd_wf x b s sn" and "s_shift s < npacket x" and "data_net x b sn (ep_out (s_ep s))"
  shows "case snd_head x s of
      Inl e \<Rightarrow> e = Log_Fatal
    | Inr s' \<Rightarrow> \<exists>sn'. snd_wf x b s' sn' \<and> sn \<le> sn' \<and> s_shift s' < sn' \<and> s_shift s' = s_shift s \<and> smark s' = smark s
        \<and> data_net x b sn' (ep_out (s_ep s')) \<and> (no_fin (ep_out (s_ep s)) \<longrightarrow> no_fin (ep_out (s_ep s')))"
proof (cases "sn = s_shift s")
  case True
  let ?n = "min (s_shift s + x_wsize x) (npacket x)"
  have head: "snd_head x s = snd_burst x s 0"
    using snd_wf_same [OF assms(1,2)] True by (simp add: snd_head_def)
  have n: "s_shift s < ?n" using assms(1,3) by (simp add: xfer_ok_def)
  from snd_burst_spec [OF assms(1), of b s 0] assms(2) True
  have sp: "case snd_burst x s 0 of Inl e \<Rightarrow> e = Log_Fatal
    | Inr s' \<Rightarrow> snd_wf x b s' ?n \<and> s' = s\<lparr>s_ep := s_ep s'\<rparr> \<and> ep_out (s_ep s') = ep_out (s_ep s)
               @ map (\<lambda>k. (ep_addr (s_ep s), data_msg x b k)) [s_shift s..<?n]"
    by (simp add: Let_def cong: sum.case_cong)
  show ?thesis
  proof (cases "snd_burst x s 0")
    case (Inl e)
    with sp head show ?thesis by simp
  next
    case (Inr s')
    then have wf: "snd_wf x b s' ?n" and fr: "s' = s\<lparr>s_ep := s_ep s'\<rparr>" and out: "ep_out (s_ep s') = ep_out (s_ep s)
               @ map (\<lambda>k. (ep_addr (s_ep s), data_msg x b k)) [s_shift s..<?n]" using sp by auto
    have "data_net x b ?n (ep_out (s_ep s'))"
      unfolding out by (rule data_net_append [OF assms(4)]) (use True n in auto)
    moreover have "no_fin (ep_out (s_ep s)) \<longrightarrow> no_fin (ep_out (s_ep s'))"
      unfolding out by (simp add: no_fin_append)
    moreover have "smark s' = smark s" using smark_ep [of "s_ep s'" s] fr by simp
    moreover have "s_shift s' = s_shift s" using fr by (rule s_shift_ep)
    ultimately show ?thesis using Inr head wf n True by (auto intro!: exI [of _ ?n])
  qed
next
  case False
  then have "snd_head x s = Inr s" using snd_wf_same [OF assms(1,2)] by (simp add: snd_head_def)
  with False assms show ?thesis by (auto simp: snd_wf_def intro!: exI [of _ sn])
qed

lemma snd_iter_inv:
  assumes x: "xfer_ok x" "x_mode x = mode" and marked: "snd_marked x b s sn (smark s)" and more: "s_shift s < sn"
    and net: "data_net x b sn (ep_out (s_ep s))"
  shows "case snd_iter x s ev of
      Inl e \<Rightarrow> e = Log_Fatal
    | Inr s' \<Rightarrow> snd_marked x b s' sn (smark s') \<and> data_net x b sn (ep_out (s_ep s'))
        \<and> (no_fin (ep_out (s_ep s)) \<longrightarrow> no_fin (ep_out (s_ep s')))
        \<and> (\<forall>G out. ack_net (ack_ok G) x b out \<longrightarrow> from_peer out ev \<longrightarrow> smark s \<subseteq> G \<longrightarrow> smark s' \<subseteq> G)"
proof (cases "recv_packet (s_ep s) (s_packet s) ev")
  case (Inl e)
  then have "e = Log_Fatal" by (rule recv_packet_fault)
  with Inl show ?thesis by (simp add: snd_iter_def)
next
  case (Inr res)
  obtain c ep p where r: "recv_packet (s_ep s) (s_packet s) ev = Inr (c, ep, p)" using Inr by (cases res) auto
  have wf: "snd_wf x b s sn" and errno: "ep_errno (s_ep s) \<noteq> EAGAIN"
    using marked by (simp_all add: snd_marked_def snd_wf_def)
  let ?s = "s\<lparr>s_ep := ep, s_packet := p\<rparr>"
  have same: "smark ?s = smark s" by (rule smark_packet)
  have marked': "snd_marked x b ?s sn (smark ?s)" and net': "data_net x b sn (ep_out (s_ep ?s))" and more': "s_shift ?s < sn"
    using marked net more recv_packet_errno [OF r errno] recv_packet_frame [OF r] same
    by (simp_all add: snd_marked_def snd_wf_def)
  note out' = recv_packet_frame(2) [OF r]
  from r errno show ?thesis
  proof (cases rule: recv_packet_cases)
    case timeout
    then have it: "snd_iter x s ev = snd_resend x ?s 0" using r by (simp add: snd_iter_def)
    have wf': "snd_wf x b ?s sn" "s_shift ?s + 0 \<le> sn" using marked' more by (simp_all add: snd_marked_def)
    note sp = snd_resend_spec [OF x(1) wf']
    show ?thesis
    proof (cases "snd_resend x ?s 0")
      case (Inl e)
      with sp it show ?thesis by simp
    next
      case (Inr s')
      with sp obtain n where s': "s' = ?s\<lparr>s_ep := s_ep s'\<rparr>" "snd_wf x b s' sn" "n \<le> sn"
        and out: "ep_out (s_ep s') = ep_out (s_ep ?s)
            @ map (\<lambda>k. (ep_addr (s_ep ?s), data_msg x b k)) (filter (unacked x ?s) [s_shift ?s + 0..<n])"
        by (simp only: sum.case) blast
      have "data_net x b sn (ep_out (s_ep s'))"
        unfolding out by (rule data_net_append [OF net' order_refl]) (use s'(3) in auto)
      moreover have "no_fin (ep_out (s_ep s)) \<longrightarrow> no_fin (ep_out (s_ep s'))"
        unfolding out using out' by (simp add: no_fin_append)
      moreover have m: "smark s' = smark ?s" "s_shift s' = s_shift ?s"
        using smark_ep [of "s_ep s'" ?s] s'(1) s_shift_ep [OF s'(1)] by metis+
      moreover have "snd_marked x b s' sn (smark s')" using marked' s'(2) m by (simp add: snd_marked_def)
      ultimately show ?thesis using Inr it same by simp
    qed
  next
    case reject
    then have "snd_iter x s ev = Inr ?s" using r by (simp add: snd_iter_def)
    with marked' net' out' same show ?thesis by simp
  next
    case (accept sa m q f d)
    show ?thesis
    proof (cases "f = RTP_ACK")
      case False
      then have "snd_iter x s ev = Inr ?s" using r accept by (simp add: snd_iter_def)
      with marked' net' out' same show ?thesis by simp
    next
      case True
      then have it: "snd_iter x s ev = snd_ack x ?s" using r accept by (simp add: snd_iter_def)
      obtain s' where s': "snd_ack x ?s = Inr s'" "snd_marked x b s' sn (smark s')" "s_ep s' = s_ep ?s"
        "\<And>k G. seq_num (rtp p) = seqnum_add b (int k) \<Longrightarrow> k \<le> npacket x \<Longrightarrow> ack_ok G k \<Longrightarrow> smark s \<subseteq> G \<Longrightarrow> smark s' \<subseteq> G"
        using ack_step [OF x marked' more'] same by auto
      have "smark s' \<subseteq> G" if "ack_net (ack_ok G) x b out" "from_peer out ev" "smark s \<subseteq> G" for G out
      proof -
        have "from_peer out (Datagram sa m)" using that(2) accept(1) by simp
        from net_all_decode [OF that(1) [unfolded ack_net_def] this accept(4)] True
        obtain k where "k \<le> npacket x" "q = seqnum_add b (int k)" "ack_ok G k" by blast
        then show ?thesis using s'(4) [of k G] that(3) accept by simp
      qed
      then show ?thesis using it s'(1-3) net' out' by simp
    qed
  qed
qed

lemma rcv_iter_inv:
  assumes x: "xfer_ok x" "x_mode x = mode" and inv: "rinv x b r" and net: "data_net x b sn out"
    and sn: "sn \<le> npacket x" "got r \<subseteq> {..<sn}" and acks: "ack_net (ack_ok (got r)) x b (ep_out (r_ep r))"
    and ev: "from_peer out ev"
  shows "case rcv_iter (x_wsize x) (x_mode x) r ev of
      Inl e \<Rightarrow> e = Log_Fatal
    | Inr (R_Break r') \<Rightarrow> rinv x b r' \<and> got r' = got r \<and> ep_out (r_ep r') = ep_out (r_ep r)
    | Inr (R_Continue r') \<Rightarrow> rinv x b r' \<and> got r \<subseteq> got r' \<and> got r' \<subseteq> {..<sn}
        \<and> ack_net (ack_ok (got r')) x b (ep_out (r_ep r'))"
proof (cases "recv_packet (r_ep r) (r_packet r) ev")
  case (Inl e)
  then have "e = Log_Fatal" by (rule recv_packet_fault)
  with Inl show ?thesis by (simp add: rcv_iter_def)
next
  case (Inr res)
  obtain c ep p where r: "recv_packet (r_ep r) (r_packet r) ev = Inr (c, ep, p)" using Inr by (cases res) auto
  have errno: "ep_errno (r_ep r) \<noteq> EAGAIN" using rinv_wf [OF inv] by (simp add: rcv_wf_def)
  let ?r = "r\<lparr>r_ep := ep, r_packet := p\<rparr>"
  note frame = recv_packet_frame [OF r]
  have inv': "rinv x b ?r" and got': "got ?r = got r"
    using rinv_packet [OF inv frame(1) recv_packet_errno [OF r errno]] got_packet by simp_all
  have it: "rcv_iter (x_wsize x) (x_mode x) r ev =
     (if c = -2 \<or> flags (rtp p) AND RTP_FIN \<noteq> 0 then Inr (R_Break ?r)
      else if c \<noteq> 0 \<or> flags (rtp p) \<noteq> 0 then Inr (R_Continue ?r)
      else bind_res (if mode \<noteq> 0 then rcv_sr (x_wsize x) ?r else rcv_gbn ?r) (\<lambda>r. Inr (R_Continue r)))"
    using r x(2) by (simp add: rcv_iter_def)
  show ?thesis
  proof (cases "c = -2 \<or> flags (rtp p) AND RTP_FIN \<noteq> 0 \<or> c \<noteq> 0 \<or> flags (rtp p) \<noteq> 0")
    case True
    then show ?thesis using it inv' got' acks sn(2) frame(2) by auto
  next
    case False
    obtain sa m q f d where acc: "ev = Datagram sa m"
        "decode_packet (take RTP_PACKET_SIZE m) = Some (q, f, d)" "p = received (r_packet r) q f d"
      using r errno by (rule recv_packet_cases) (use False in auto)
    have "from_peer out (Datagram sa m)" using ev acc(1) by simp
    from net_all_decode [OF net [unfolded data_net_def] this acc(2)] False acc(3)
    obtain k where k: "k < sn" "q = seqnum_add b (int k)" "d = chunk x k" by auto
    have "data_packet x b k (r_packet ?r)" using k acc(3) False by (auto simp: data_packet_def)
    from data_step [OF x inv' this] k(1) sn(1)
    have st: "case (if mode \<noteq> 0 then rcv_sr (x_wsize x) ?r else rcv_gbn ?r) of
           Inl e \<Rightarrow> e = Log_Fatal
         | Inr r' \<Rightarrow> rinv x b r' \<and> got r \<subseteq> got r' \<and> got r' \<subseteq> insert k (got r)
             \<and> (\<exists>as. ep_out (r_ep r') = ep_out (r_ep r) @ as
                  \<and> (\<forall>a \<in> set as. \<exists>j \<le> npacket x. snd a = ack_msg b j \<and> ack_ok (got r') j))"
      using got' frame(2) by (simp cong: sum.case_cong)
    show ?thesis
    proof (cases "if mode \<noteq> 0 then rcv_sr (x_wsize x) ?r else rcv_gbn ?r")
      case (Inl e)
      with st it False show ?thesis by simp
    next
      case (Inr r')
      with st obtain as where r': "rinv x b r'" "got r \<subseteq> got r'" "got r' \<subseteq> insert k (got r)"
        "ep_out (r_ep r') = ep_out (r_ep r) @ as"
        "\<forall>a \<in> set as. \<exists>j \<le> npacket x. snd a = ack_msg b j \<and> ack_ok (got r') j" by auto
      have "ack_net (ack_ok (got r')) x b (ep_out (r_ep r))"
        using acks by (rule ack_net_mono) (rule ack_mono [OF _ r'(2)])
      then have "ack_net (ack_ok (got r')) x b (ep_out (r_ep r'))"
        unfolding r'(4) by (rule ack_net_append) (rule r'(5))
      moreover have "got r' \<subseteq> {..<sn}" using r'(3) sn(2) k(1) by auto
      ultimately show ?thesis using Inr it False r'(1,2) by simp
    qed
  qed
qed

definition sys_inv :: "xfer \<Rightarrow> u32 \<Rightarrow> sys \<Rightarrow> bool" where
  "sys_inv x b y \<longleftrightarrow>
     (\<exists>sn. snd_wf x b (y_snd y) sn \<and> smark (y_snd y) \<subseteq> got (y_rcv y) \<and> got (y_rcv y) \<subseteq> {..<sn}
       \<and> s_shift (y_snd y) \<notin> smark (y_snd y) \<and> rinv x b (y_rcv y)
       \<and> data_net x b sn (ep_out (s_ep (y_snd y)))
       \<and> ack_net (ack_ok (got (y_rcv y))) x b (ep_out (r_ep (y_rcv y)))
       \<and> (y_pc y = At_Recv \<longrightarrow> s_shift (y_snd y) < sn)
       \<and> (y_pc y = At_Break \<longrightarrow> s_shift (y_snd y) = npacket x)
       \<and> (y_pc y \<noteq> At_Break \<longrightarrow> no_fin (ep_out (s_ep (y_snd y)))))"

lemma sys_inv_init:
  assumes "xfer_ok x" and "sys_init x b y"
  shows "sys_inv x b y"
proof -
  have net: "net_all (\<lambda>q f d. f = RTP_SYN \<and> seqnum_add q 1 = b \<or> f = RTP_ACK) (ep_out (s_ep (y_snd y)))"
    "net_all (\<lambda>q f d. f \<noteq> RTP_ACK) (ep_out (r_ep (y_rcv y)))"
    using assms(2) by (simp_all add: sys_init_def Let_def)
  have "data_net x b 0 (ep_out (s_ep (y_snd y)))" "no_fin (ep_out (s_ep (y_snd y)))"
    unfolding data_net_def no_fin_def
    by (rule net_all_mono [OF net(1)], auto simp: RTP_SYN_def RTP_ACK_def RTP_FIN_def)+
  moreover have "ack_net (ack_ok {}) x b (ep_out (r_ep (y_rcv y)))"
    unfolding ack_net_def by (rule net_all_mono [OF net(2)]) simp
  moreover have init: "s_shift (y_snd y) = 0" "s_window (y_snd y) = replicate (x_wsize x) 0"
    "s_wbase (y_snd y) = b" "ep_sqn (s_ep (y_snd y)) = b" "y_pc y = At_Head"
    "ep_errno (s_ep (y_snd y)) \<noteq> EAGAIN" "seq_ok b"
    using assms(2) unfolding sys_init_def Let_def
    by (auto dest: arg_cong [of _ _ s_shift] arg_cong [of _ _ s_window] arg_cong [of _ _ s_wbase])
  moreover have "snd_wf x b (y_snd y) 0" using init by (simp add: snd_wf_def sq.add_0)
  moreover have "smark (y_snd y) = {}" using init(1,2) by (rule smark_init)
  ultimately show ?thesis using rinv_init [OF assms] unfolding sys_inv_def
    by (intro exI [of _ 0]) simp
qed

lemma snd_fin_inv:
  assumes inv: "sys_inv x b y" and at: "y_pc y = At_Head \<and> npacket x \<le> s_shift (y_snd y) \<or> y_pc y = At_Break"
    and ep: "bind_res (set_sock_recv_time (s_ep (y_snd y)) 0 SEND_MS) (\<lambda>ep. send_packet ep (ep_sqn ep) RTP_FIN 0 None) = Inr ep"
  shows "sys_inv x b (y\<lparr>y_snd := (y_snd y)\<lparr>s_ep := ep\<rparr>, y_pc := At_Break\<rparr>)"
proof -
  let ?s = "y_snd y"
  have ep': "ep = (s_ep ?s)\<lparr>ep_timeo := (0, SEND_MS * 1000), ep_out := ep_out (s_ep ?s)
      @ [(ep_addr (s_ep ?s), wire (ep_sqn (s_ep ?s)) RTP_FIN [])]\<rparr>"
    using ep by (auto simp: bind_res_Inr set_sock_recv_time_Inr send_packet_ctl sendto_Inr)
  obtain sn where i: "snd_wf x b ?s sn" "smark ?s \<subseteq> got (y_rcv y)" "got (y_rcv y) \<subseteq> {..<sn}" "s_shift ?s \<notin> smark ?s"
    "rinv x b (y_rcv y)" "data_net x b sn (ep_out (s_ep ?s))"
    "ack_net (ack_ok (got (y_rcv y))) x b (ep_out (r_ep (y_rcv y)))"
    "y_pc y = At_Break \<longrightarrow> s_shift ?s = npacket x"
    using inv unfolding sys_inv_def by blast
  have "s_shift ?s = npacket x" using at i(1,8) by (auto simp: snd_wf_def)
  moreover have "snd_wf x b (?s\<lparr>s_ep := ep\<rparr>) sn" using i(1) ep' by (simp add: snd_wf_def)
  moreover have "data_net x b sn (ep_out ep)"
    using i(6) ep' by (simp add: data_net_def RTP_FIN_def RTP_SYN_def)
  ultimately show ?thesis using i unfolding sys_inv_def
    by (intro exI [of _ sn]) (simp add: smark_ep)
qed

lemma sys_inv_step:
  assumes x: "xfer_ok x" "x_mode x = mode" and step: "sys_step x y z" and inv: "sys_inv x b y"
  shows "sys_inv x b z"
proof -
  obtain sn where wf: "snd_wf x b (y_snd y) sn" and G: "smark (y_snd y) \<subseteq> got (y_rcv y)" "got (y_rcv y) \<subseteq> {..<sn}"
    and edge: "s_shift (y_snd y) \<notin> smark (y_snd y)" and rinv: "rinv x b (y_rcv y)"
    and net: "data_net x b sn (ep_out (s_ep (y_snd y)))"
    and acks: "ack_net (ack_ok (got (y_rcv y))) x b (ep_out (r_ep (y_rcv y)))"
    and pc: "y_pc y = At_Recv \<longrightarrow> s_shift (y_snd y) < sn" "y_pc y = At_Break \<longrightarrow> s_shift (y_snd y) = npacket x"
      "y_pc y \<noteq> At_Break \<longrightarrow> no_fin (ep_out (s_ep (y_snd y)))"
    using inv unfolding sys_inv_def by blast
  have np: "sn \<le> npacket x" using wf by (simp add: snd_wf_def)
  have marked: "snd_marked x b (y_snd y) sn (smark (y_snd y))" using wf edge G by (auto simp: snd_marked_def)
  from step show ?thesis
  proof cases
    case (snd_burst_step s)
    with snd_head_inv [OF x(1) wf snd_burst_step(3) net] edge G pc(3) rinv acks obtain sn' where
      "snd_wf x b s sn'" "sn \<le> sn'" "s_shift s < sn'" "s_shift s = s_shift (y_snd y)"
      "smark s = smark (y_snd y)" "data_net x b sn' (ep_out (s_ep s))" "no_fin (ep_out (s_ep s))" by auto
    with snd_burst_step(1) edge G rinv acks show ?thesis unfolding sys_inv_def
      by (intro exI [of _ sn']) auto
  next
    case (snd_recv_step ev s)
    have more: "s_shift (y_snd y) < sn" using pc(1) snd_recv_step(2) by blast
    from snd_iter_inv [OF x marked more net, of ev] snd_recv_step(4)
    have s: "snd_marked x b s sn (smark s)" "data_net x b sn (ep_out (s_ep s))" "no_fin (ep_out (s_ep s))"
      using pc(3) snd_recv_step(2) by auto
    have "smark s \<subseteq> got (y_rcv y)"
      using snd_iter_inv [OF x marked more net, of ev] snd_recv_step(3,4) acks G(1) by simp
    with s rinv G(2) acks snd_recv_step(1) show ?thesis
      unfolding sys_inv_def by (intro exI [of _ sn]) (simp add: snd_marked_def)
  next
    case (snd_fin_step ep)
    with snd_fin_inv [OF inv snd_fin_step(2,3)] show ?thesis by simp
  next
    case (rcv_step ev r)
    with rcv_iter_inv [OF x rinv net np G(2) acks rcv_step(3)] wf G(1) edge net pc show ?thesis
      unfolding sys_inv_def by (intro exI [of _ sn]) auto
  next
    case (rcv_break_step ev r)
    with rcv_iter_inv [OF x rinv net np G(2) acks rcv_break_step(3)] wf G edge net pc acks show ?thesis
      unfolding sys_inv_def by (intro exI [of _ sn]) auto
  qed
qed

lemma no_undef:
  assumes x: "xfer_ok x" "x_mode x = mode" and inv: "sys_inv x b y"
  shows "s_shift (y_snd y) < npacket x \<Longrightarrow> snd_head x (y_snd y) \<noteq> Inl Undef"
    and "y_pc y = At_Recv \<Longrightarrow> snd_iter x (y_snd y) ev \<noteq> Inl Undef"
    and "from_peer (ep_out (s_ep (y_snd y))) ev \<Longrightarrow> rcv_iter (x_wsize x) (x_mode x) (y_rcv y) ev \<noteq> Inl Undef"
proof -
  obtain sn where i: "snd_wf x b (y_snd y) sn" "smark (y_snd y) \<subseteq> got (y_rcv y)" "got (y_rcv y) \<subseteq> {..<sn}"
    "s_shift (y_snd y) \<notin> smark (y_snd y)" "rinv x b (y_rcv y)" "data_net x b sn (ep_out (s_ep (y_snd y)))"
    "ack_net (ack_ok (got (y_rcv y))) x b (ep_out (r_ep (y_rcv y)))" "y_pc y = At_Recv \<longrightarrow> s_shift (y_snd y) < sn"
    using inv unfolding sys_inv_def by blast
  have np: "sn \<le> npacket x" using i(1) by (simp add: snd_wf_def)
  show "s_shift (y_snd y) < npacket x \<Longrightarrow> snd_head x (y_snd y) \<noteq> Inl Undef"
    using snd_head_inv [OF x(1) i(1) _ i(6)] by auto
  have marked: "snd_marked x b (y_snd y) sn (smark (y_snd y))" using i(1-4) by (auto simp: snd_marked_def)
  show "y_pc y = At_Recv \<Longrightarrow> snd_iter x (y_snd y) ev \<noteq> Inl Undef"
    using snd_iter_inv [OF x marked _ i(6), of ev] i(8) by auto
  show "from_peer (ep_out (s_ep (y_snd y))) ev \<Longrightarrow> rcv_iter (x_wsize x) (x_mode x) (y_rcv y) ev \<noteq> Inl Undef"
    using rcv_iter_inv [OF x i(5,6) np i(3,7)] by fastforce
qed

lemma got_all_written:
  assumes x: "xfer_ok x" and inv: "rinv x b r" and got: "got r = {..<npacket x}"
  shows "write_file True True (r_buf r) (r_fsize r) = Inr (take (total x) (x_buf x))"
proof -
  have "r_fsize r = total x" using rinv_complete [OF x inv got] .
  moreover have "take (total x) (r_buf r) = take (total x) (x_buf x)"
  proof (cases "npacket x = 0")
    case True
    then have "x_fsize x = 0" by (auto simp: npacket_def PAYLOAD_MAX_def)
    with True show ?thesis by (simp add: total_def tsize_def)
  next
    case False
    with stored_total [OF x] rinv_stored [OF inv] got show ?thesis by simp
  qed
  moreover have "length (r_buf r) = MAXBUF" using rinv_stored [OF inv] by (simp add: stored_def)
  ultimately show ?thesis using total_le_MAXBUF [OF x] by (simp add: write_file_def mem_read_def)
qed

lemma finished_delivered:
  assumes x: "xfer_ok x" and inv: "sys_inv x b y" and fin: "npacket x \<le> s_shift (y_snd y)"
  shows "write_file True True (r_buf (y_rcv y)) (r_fsize (y_rcv y)) = Inr (take (total x) (x_buf x))"
proof -
  obtain sn where i: "snd_wf x b (y_snd y) sn" "smark (y_snd y) \<subseteq> got (y_rcv y)" "got (y_rcv y) \<subseteq> {..<sn}"
    "rinv x b (y_rcv y)" using inv unfolding sys_inv_def by blast
  have "{..<npacket x} \<subseteq> got (y_rcv y)" using smark_below [of "y_snd y"] i(2) fin by fastforce
  with i(1,3) have got: "got (y_rcv y) = {..<npacket x}" by (fastforce simp: snd_wf_def)
  with got_all_written [OF x i(4)] show ?thesis by blast
qed

lemma fin_delivered:
  assumes x: "xfer_ok x" "x_mode x = mode" and inv: "sys_inv x b y"
    and ev: "from_peer (ep_out (s_ep (y_snd y))) (Datagram sa m)"
    and dec: "decode_packet (take RTP_PACKET_SIZE m) = Some d"
    and brk: "rcv_iter (x_wsize x) (x_mode x) (y_rcv y) (Datagram sa m) = Inr (R_Break r)"
  shows "write_file True True (r_buf r) (r_fsize r) = Inr (take (total x) (x_buf x))"
proof -
  obtain q f p where d: "d = (q, f, p)" by (cases d)
  have "rinv x b (y_rcv y)" using inv unfolding sys_inv_def by blast
  then have errno: "ep_errno (r_ep (y_rcv y)) \<noteq> EAGAIN" using rinv_wf by (auto simp: rcv_wf_def)
  from recv_packet_decode [OF this, where m = m and buf = "r_packet (y_rcv y)" and sa = sa] dec d
  have "recv_packet (r_ep (y_rcv y)) (r_packet (y_rcv y)) (Datagram sa m)
      = Inr (0, (r_ep (y_rcv y))\<lparr>ep_addr := sa\<rparr>, received (r_packet (y_rcv y)) q f p)" by simp
  with brk have f: "f AND RTP_FIN \<noteq> 0"
    and r: "r_fsize r = r_fsize (y_rcv y)" "r_buf r = r_buf (y_rcv y)"
    by (auto simp: rcv_iter_def Let_def bind_res_Inr split: if_splits)
  have "\<not> no_fin (ep_out (s_ep (y_snd y)))"
    using net_all_decode [OF _ ev dec [unfolded d]] f unfolding no_fin_def by blast
  then have "npacket x \<le> s_shift (y_snd y)" using inv unfolding sys_inv_def by auto
  then show ?thesis using finished_delivered [OF x(1) inv] r by simp
qed

end

sublocale arq \<subseteq> run: invariant_system "\<lambda>(x, b). xfer_ok x \<and> x_mode x = mode"
  "\<lambda>(x, b). sys_init x b" "\<lambda>(x, b). sys_step x" "\<lambda>(x, b). sys_inv x b"
  by unfold_locales (auto intro: sys_inv_init sys_inv_step)

context arq
begin

lemma reachable_sys_inv:
  "xfer_ok x \<Longrightarrow> x_mode x = mode \<Longrightarrow> reachable (sys_init x b) (sys_step x) y \<Longrightarrow> sys_inv x b y"
  using run.reachable_inv [of "(x, b)" y] by simp

end

lemma sys_init_rcv:
  assumes "sys_init x b y"
  shows "seq_ok b" "r_shift (y_rcv y) = 0" "r_fsize (y_rcv y) = 0" "r_window (y_rcv y) = replicate (x_wsize x) 0"
    "r_wbase (y_rcv y) = b" "ep_sqn (r_ep (y_rcv y)) = b" "ep_errno (r_ep (y_rcv y)) \<noteq> EAGAIN"
    "length (r_buf (y_rcv y)) = MAXBUF"
proof -
  have r: "y_rcv y = \<lparr>r_ep = r_ep (y_rcv y), r_packet = r_packet (y_rcv y), r_fsize = 0, r_shift = 0,
      r_window = replicate (x_wsize x) 0, r_wbase = ep_sqn (r_ep (y_rcv y)), r_buf = r_buf (y_rcv y)\<rparr>"
    using assms unfolding sys_init_def Let_def by (elim conjE)
  have e: "seq_ok b" "ep_sqn (r_ep (y_rcv y)) = b" "ep_errno (r_ep (y_rcv y)) \<noteq> EAGAIN"
      "length (r_buf (y_rcv y)) = MAXBUF"
    using assms by (simp_all add: sys_init_def Let_def)
  show "seq_ok b" "ep_sqn (r_ep (y_rcv y)) = b" "ep_errno (r_ep (y_rcv y)) \<noteq> EAGAIN"
      "length (r_buf (y_rcv y)) = MAXBUF" by (rule e)+
  show "r_shift (y_rcv y) = 0" "r_fsize (y_rcv y) = 0" "r_window (y_rcv y) = replicate (x_wsize x) 0"
    by (subst r, simp)+
  show "r_wbase (y_rcv y) = b" by (subst r) (simp add: e(2))
qed

section \<open>Go-Back-N\<close>

definition gbn_mark :: "sender \<Rightarrow> nat set" where "gbn_mark s = {..<s_shift s}"
definition gbn_got :: "receiver \<Rightarrow> nat set" where "gbn_got r = {..<r_shift r}"
definition gbn_ack_ok :: "nat set \<Rightarrow> nat \<Rightarrow> bool" where "gbn_ack_ok G a \<longleftrightarrow> {..<a} \<subseteq> G"

lemma gbn_ack_step:
  assumes x: "xfer_ok x" "x_mode x = 0" and marked: "snd_marked x b s sn (gbn_mark s)" and more: "s_shift s < sn"
  shows "\<exists>s'. snd_ack x s = Inr s' \<and> snd_marked x b s' sn (gbn_mark s') \<and> s_ep s' = s_ep s
    \<and> (\<forall>k G. seq_num (rtp (s_packet s)) = seqnum_add b (int k) \<longrightarrow> k \<le> npacket x \<longrightarrow> gbn_ack_ok G k \<longrightarrow>
         gbn_mark s \<subseteq> G \<longrightarrow> gbn_mark s' \<subseteq> G)"
proof -
  have wf: "snd_wf x b s sn" using marked by (simp add: snd_marked_def)
  from x(1) wf more show ?thesis
  proof (cases rule: snd_ack_cases)
    case stale
    with marked show ?thesis by auto
  next
    case (hit k)
    let ?s = "s\<lparr>s_shift := Suc k, s_wbase := seqnum_add b (int (Suc k))\<rparr>"
    note ack = snd_ack_gbn_hit [OF x wf hit]
    have "snd_marked x b ?s sn (gbn_mark ?s)"
      using wf hit(1,2) by (auto simp: snd_marked_def snd_wf_def gbn_mark_def)
    moreover have "gbn_mark ?s \<subseteq> G"
      if "seq_num (rtp (s_packet s)) = seqnum_add b (int j)" "j \<le> npacket x" "gbn_ack_ok G j" "gbn_mark s \<subseteq> G" for j G
      using snd_ack_gbn [OF x wf more that(1,2)] ack that(3,4)
      by (auto simp: gbn_mark_def gbn_ack_ok_def split: if_splits dest: arg_cong [of _ _ s_shift])
    ultimately show ?thesis using ack by auto
  qed
qed

lemma sum_dsize: "(\<Sum>k<npacket x. dsize_of x k) = total x"
proof (cases "npacket x")
  case 0
  then have "x_fsize x = 0" by (auto simp: npacket_def PAYLOAD_MAX_def)
  with 0 show ?thesis by (simp add: total_def tsize_def)
next
  case (Suc n)
  have "(\<Sum>k<n. dsize_of x k) = (\<Sum>k<n. PAYLOAD_MAX)"
    using Suc by (intro sum.cong) (auto simp: dsize_of_def)
  with Suc show ?thesis by (simp add: total_def dsize_of_def)
qed

lemma gbn_data_step:
  assumes "xfer_ok x" "gbn_inv x b r" "data_packet x b k (r_packet r)" "k < npacket x"
  shows "case rcv_gbn r of
      Inl e \<Rightarrow> e = Log_Fatal
    | Inr r' \<Rightarrow> gbn_inv x b r' \<and> gbn_got r \<subseteq> gbn_got r' \<and> gbn_got r' \<subseteq> insert k (gbn_got r)
        \<and> (\<exists>as. ep_out (r_ep r') = ep_out (r_ep r) @ as
             \<and> (\<forall>a \<in> set as. \<exists>j \<le> npacket x. snd a = ack_msg b j \<and> gbn_ack_ok (gbn_got r') j))"
proof (cases "rcv_gbn r")
  case (Inl e)
  with rcv_gbn_spec [OF assms] show ?thesis by simp
next
  case (Inr r')
  have "r_shift r' \<le> npacket x" if "gbn_inv x b r'" using that by (simp add: gbn_inv_def rcv_wf_def)
  with Inr rcv_gbn_spec [OF assms] show ?thesis
    by (auto simp: gbn_got_def gbn_ack_ok_def split: if_splits)
qed

interpretation gbn: arq 0 gbn_mark gbn_got gbn_inv gbn_ack_ok
proof unfold_locales
  fix x b y assume "xfer_ok x" "sys_init x b y"
  then show "gbn_inv x b (y_rcv y) \<and> gbn_got (y_rcv y) = {}"
    using sys_init_rcv [of x b y] by (simp add: gbn_inv_def rcv_wf_def gbn_got_def stored_def sq.add_0)
next
  fix x b s sn assume "xfer_ok x" "x_mode x = 0" "snd_marked x b s sn (gbn_mark s)" "s_shift s < sn"
  then show "\<exists>s'. snd_ack x s = Inr s' \<and> snd_marked x b s' sn (gbn_mark s') \<and> s_ep s' = s_ep s
      \<and> (\<forall>k G. seq_num (rtp (s_packet s)) = seqnum_add b (int k) \<longrightarrow> k \<le> npacket x \<longrightarrow> gbn_ack_ok G k \<longrightarrow>
           gbn_mark s \<subseteq> G \<longrightarrow> gbn_mark s' \<subseteq> G)"
    by (rule gbn_ack_step)
next
  fix x b r assume "xfer_ok x" "gbn_inv x b r"
  then have "r_shift r \<le> npacket x" "r_fsize r = (\<Sum>k<r_shift r. dsize_of x k)" by (simp_all add: gbn_inv_def rcv_wf_def)
  then show "r_fsize r \<le> total x" by (simp add: sum_mono2 flip: sum_dsize)
next
  fix x b r assume "xfer_ok x" "gbn_inv x b r" "gbn_got r = {..<npacket x}"
  then show "r_fsize r = total x"
    by (auto simp: gbn_inv_def gbn_got_def sum_dsize)
next
  fix x b r k assume "xfer_ok x" "gbn_inv x b r" "data_packet x b k (r_packet r)" "k < npacket x"
  from gbn_data_step [OF this] show "case (if (0::int) \<noteq> 0 then rcv_sr (x_wsize x) r else rcv_gbn r) of
      Inl e \<Rightarrow> e = Log_Fatal
    | Inr r' \<Rightarrow> gbn_inv x b r' \<and> gbn_got r \<subseteq> gbn_got r' \<and> gbn_got r' \<subseteq> insert k (gbn_got r)
        \<and> (\<exists>as. ep_out (r_ep r') = ep_out (r_ep r) @ as
             \<and> (\<forall>a \<in> set as. \<exists>j \<le> npacket x. snd a = ack_msg b j \<and> gbn_ack_ok (gbn_got r') j))" by simp
qed (auto simp: gbn_mark_def gbn_got_def gbn_ack_ok_def gbn_inv_def rcv_wf_def)

section \<open>Selective Repeat\<close>

definition sr_mark :: "sender \<Rightarrow> nat set" where "sr_mark s = covered (s_shift s) (s_window s)"
definition sr_ack_ok :: "nat set \<Rightarrow> nat \<Rightarrow> bool" where "sr_ack_ok G k \<longleftrightarrow> k \<in> G"

lemma sr_ack_step:
  assumes x: "xfer_ok x" "x_mode x = 1" and marked: "snd_marked x b s sn (sr_mark s)" and more: "s_shift s < sn"
  shows "\<exists>s'. snd_ack x s = Inr s' \<and> snd_marked x b s' sn (sr_mark s') \<and> s_ep s' = s_ep s
    \<and> (\<forall>k G. seq_num (rtp (s_packet s)) = seqnum_add b (int k) \<longrightarrow> k \<le> npacket x \<longrightarrow> sr_ack_ok G k \<longrightarrow>
         sr_mark s \<subseteq> G \<longrightarrow> sr_mark s' \<subseteq> G)"
proof -
  have wf: "snd_wf x b s sn" using marked by (simp add: snd_marked_def)
  from x(1) wf more show ?thesis
  proof (cases rule: snd_ack_cases)
    case stale
    with marked show ?thesis by auto
  next
    case (hit k)
    have i: "k - s_shift s < length (s_window s)" using hit(1,2) wf by (auto simp: snd_wf_def)
    from uw.upd_total [OF i] obtain mov w where
      u: "update_window (s_window s) (length (s_window s)) (int (k - s_shift s)) = Inr (mov, w)" by blast
    let ?s = "s\<lparr>s_window := w, s_shift := s_shift s + mov, s_wbase := seqnum_add b (int (s_shift s + mov))\<rparr>"
    note ack = snd_ack_sr_hit [OF x wf hit u]
    have mark: "sr_mark ?s = insert k (sr_mark s)"
      using uw.upd_marked [OF i u, of "s_shift s"] hit(1) by (simp add: sr_mark_def)
    then have below: "sr_mark ?s \<subseteq> {..<sn}" using marked hit(2) by (simp add: snd_marked_def)
    have "s_shift s + mov \<le> sn"
    proof (rule ccontr)
      assume "\<not> ?thesis"
      then have "sn \<in> sr_mark ?s" by (simp add: sr_mark_def covered_def)
      with below show False by auto
    qed
    then have "snd_wf x b ?s sn" using wf uw.upd_wlen [OF i u] by (auto simp: snd_wf_def)
    then have "snd_marked x b ?s sn (sr_mark ?s)"
      using below uw.upd_maximal [OF i u, of "s_shift s"] by (simp add: snd_marked_def sr_mark_def)
    moreover have "sr_mark ?s \<subseteq> G"
      if j: "seq_num (rtp (s_packet s)) = seqnum_add b (int j)" "j \<le> npacket x" and G: "sr_ack_ok G j" "sr_mark s \<subseteq> G" for j G
    proof -
      have "seqnum_add b (int k) = seqnum_add b (int j)" using j(1) hit(3) x(2) by (simp add: acked_def sq.add_add)
      moreover have "\<bar>int k - int j\<bar> < 2 ^ 31" using j(2) hit(2) wf xfer_ok_small [OF x(1)] by (auto simp: snd_wf_def)
      ultimately have "k = j" by (simp add: sq.add_inj)
      with G mark show ?thesis by (simp add: sr_ack_ok_def)
    qed
    ultimately show ?thesis using ack by auto
  qed
qed

lemma sr_data_step:
  assumes "xfer_ok x" "sr_inv x b r" "data_packet x b k (r_packet r)" "k < npacket x"
  shows "case rcv_sr (x_wsize x) r of
      Inl e \<Rightarrow> e = Log_Fatal
    | Inr r' \<Rightarrow> sr_inv x b r' \<and> rcovered r \<subseteq> rcovered r' \<and> rcovered r' \<subseteq> insert k (rcovered r)
        \<and> (\<exists>as. ep_out (r_ep r') = ep_out (r_ep r) @ as
             \<and> (\<forall>a \<in> set as. \<exists>j \<le> npacket x. snd a = ack_msg b j \<and> sr_ack_ok (rcovered r') j))"
proof (cases "rcv_sr (x_wsize x) r")
  case (Inl e)
  with rcv_sr_spec [OF assms] show ?thesis by simp
next
  case (Inr r')
  have old: "k \<in> rcovered r" if "k < r_shift r" using that by (simp add: rcovered_def covered_def)
  have "snd a = ack_msg b k \<and> k \<in> rcovered r'"
    if "a \<in> set (if r_shift r \<le> k + x_wsize x \<and> k < r_shift r + x_wsize x then [(ep_addr (r_ep r), ack_msg b k)] else [])" for a
    using that old Inr rcv_sr_spec [OF assms] by (auto split: if_splits)
  then have "\<exists>j\<le>npacket x. snd a = ack_msg b j \<and> sr_ack_ok (rcovered r') j"
    if "a \<in> set (if r_shift r \<le> k + x_wsize x \<and> k < r_shift r + x_wsize x then [(ep_addr (r_ep r), ack_msg b k)] else [])" for a
    using that assms(4) unfolding sr_ack_ok_def by (meson less_imp_le)
  with Inr rcv_sr_spec [OF assms] show ?thesis by (simp split: if_splits) blast+
qed

lemma sr_complete:
  assumes x: "xfer_ok x" and "sr_inv x b r" and "rcovered r = {..<npacket x}"
  shows "r_fsize r = total x"
proof (cases "npacket x")
  case 0
  then have "x_fsize x = 0" by (auto simp: npacket_def PAYLOAD_MAX_def)
  with 0 have "total x = 0" by (simp add: total_def tsize_def)
  with assms show ?thesis by (simp add: sr_inv_def)
next
  case (Suc n)
  then have "n * PAYLOAD_MAX + dsize_of x n \<le> r_fsize r" using assms by (simp add: sr_inv_def)
  with Suc assms show ?thesis by (simp add: sr_inv_def total_def dsize_of_def)
qed

interpretation sr: arq 1 sr_mark rcovered sr_inv sr_ack_ok
proof unfold_locales
  fix x b y assume x: "xfer_ok x" and "sys_init x b y"
  note init = sys_init_rcv [OF this(2)]
  have "rcovered (y_rcv y) = {}" using init by (auto simp: rcovered_def covered_def)
  then show "sr_inv x b (y_rcv y) \<and> rcovered (y_rcv y) = {}"
    using init by (simp add: sr_inv_def rcv_wf_def stored_def sq.add_0)
next
  fix x b s sn assume "xfer_ok x" "x_mode x = 1" "snd_marked x b s sn (sr_mark s)" "s_shift s < sn"
  then show "\<exists>s'. snd_ack x s = Inr s' \<and> snd_marked x b s' sn (sr_mark s') \<and> s_ep s' = s_ep s
      \<and> (\<forall>k G. seq_num (rtp (s_packet s)) = seqnum_add b (int k) \<longrightarrow> k \<le> npacket x \<longrightarrow> sr_ack_ok G k \<longrightarrow>
           sr_mark s \<subseteq> G \<longrightarrow> sr_mark s' \<subseteq> G)"
    by (rule sr_ack_step)
next
  fix x b r assume "xfer_ok x" "sr_inv x b r" "rcovered r = {..<npacket x}"
  then show "r_fsize r = total x" by (rule sr_complete)
next
  fix x b r k assume "xfer_ok x" "sr_inv x b r" "data_packet x b k (r_packet r)" "k < npacket x"
  from sr_data_step [OF this] show "case (if (1::int) \<noteq> 0 then rcv_sr (x_wsize x) r else rcv_gbn r) of
      Inl e \<Rightarrow> e = Log_Fatal
    | Inr r' \<Rightarrow> sr_inv x b r' \<and> rcovered r \<subseteq> rcovered r' \<and> rcovered r' \<subseteq> insert k (rcovered r)
        \<and> (\<exists>as. ep_out (r_ep r') = ep_out (r_ep r) @ as
             \<and> (\<forall>a \<in> set as. \<exists>j \<le> npacket x. snd a = ack_msg b j \<and> sr_ack_ok (rcovered r') j))" by simp
qed (auto simp: sr_mark_def rcovered_def covered_def sr_ack_ok_def sr_inv_def rcv_wf_def)

end
