(* ===== verification/Liveness.thy ===== *)
theory Liveness
  imports Arq
begin

text \<open>
  No reachable state of the transfer is stuck: from each, a timeout and two deliveries advance the sender's window (locale
  \<open>arq_live\<close>, an extension of \<open>arq\<close>), hence some behaviour of the network completes the transfer.
\<close>

section \<open>Sends that succeed\<close>

definition reliable :: "endpoint \<Rightarrow> bool" where
  "reliable ep \<longleftrightarrow> (\<forall>n. ep_sendto ep n) \<and> (\<forall>sec usec. ep_setsockopt ep sec usec)"

lemma send_packet_reliable:
  assumes "reliable ep"
  shows "send_packet ep q f n buf \<noteq> Inl Log_Fatal"
    and "send_packet ep q f n buf = Inr ep' \<Longrightarrow> reliable ep'"
  using assms by (auto simp: send_packet_def sendto_def reliable_def Let_def mem_read_def bind_res_Inl bind_res_Inr
      split: option.splits if_splits)

lemma send_data_reliable:
  assumes "reliable ep"
  shows "send_data x ep q k \<noteq> Inl Log_Fatal" and "send_data x ep q k = Inr ep' \<Longrightarrow> reliable ep'"
  using send_packet_reliable [OF assms] by (auto simp: send_data_def Let_def split: if_splits)

lemma snd_burst_reliable:
  "reliable (s_ep s) \<Longrightarrow> snd_burst x s i \<noteq> Inl Log_Fatal \<and> (\<forall>s'. snd_burst x s i = Inr s' \<longrightarrow> reliable (s_ep s'))"
proof (induction x s i rule: snd_burst.induct)
  case (1 x s i)
  show ?case
  proof (cases "i < x_wsize x \<and> i + s_shift s < npacket x")
    case False
    then show ?thesis using "1.prems" by (subst (1 2) snd_burst.simps) auto
  next
    case True
    show ?thesis
    proof (cases "send_data x (s_ep s) (ep_sqn (s_ep s)) (s_shift s + i)")
      case (Inl e)
      then show ?thesis using True send_data_reliable(1) [OF "1.prems"]
        by (subst (1 2) snd_burst.simps) auto
    next
      case (Inr ep)
      then have "reliable ep" using send_data_reliable(2) [OF "1.prems"] by blast
      then have "reliable (s_ep (s\<lparr>s_ep := ep\<lparr>ep_sqn := seqnum_add (ep_sqn ep) 1\<rparr>\<rparr>))" by (simp add: reliable_def)
      from "1.IH" [OF True this] Inr True show ?thesis by (subst (1 2) snd_burst.simps) auto
    qed
  qed
qed

lemma snd_resend_reliable:
  "reliable (s_ep s) \<Longrightarrow> snd_resend x s i \<noteq> Inl Log_Fatal \<and> (\<forall>s'. snd_resend x s i = Inr s' \<longrightarrow> reliable (s_ep s'))"
proof (induction x s i rule: snd_resend.induct)
  case (1 x s i)
  show ?case
  proof (cases "seqnum_add (s_wbase s) (int i) < ep_sqn (s_ep s)")
    case False
    then show ?thesis using "1.prems" by (subst (1 2) snd_resend.simps) auto
  next
    case True
    consider (oob) "x_mode x \<noteq> 0 \<and> length (s_window s) \<le> i"
      | (skip) "\<not> (x_mode x \<noteq> 0 \<and> length (s_window s) \<le> i)" "x_mode x \<noteq> 0 \<and> s_window s ! i \<noteq> 0"
      | (off) "\<not> (x_mode x \<noteq> 0 \<and> length (s_window s) \<le> i)" "\<not> (x_mode x \<noteq> 0 \<and> s_window s ! i \<noteq> 0)"
          "length (x_buf x) < (s_shift s + i) * PAYLOAD_MAX"
      | (send) "\<not> (x_mode x \<noteq> 0 \<and> length (s_window s) \<le> i)" "\<not> (x_mode x \<noteq> 0 \<and> s_window s ! i \<noteq> 0)"
          "\<not> length (x_buf x) < (s_shift s + i) * PAYLOAD_MAX" by blast
    then show ?thesis
    proof cases
      case skip
      have "snd_resend x s i = snd_resend x s (Suc i)" by (subst snd_resend.simps) (use True skip in auto)
      with "1.IH"(1) [OF True skip "1.prems"] show ?thesis by simp
    next
      case send
      have eq: "snd_resend x s i = bind_res (send_data x (s_ep s) (seqnum_add (s_wbase s) (int i)) (s_shift s + i))
          (\<lambda>ep. snd_resend x (s\<lparr>s_ep := ep\<rparr>) (Suc i))"
        by (subst snd_resend.simps) (use True send in auto)
      show ?thesis
      proof (cases "send_data x (s_ep s) (seqnum_add (s_wbase s) (int i)) (s_shift s + i)")
        case (Inl e)
        with eq send_data_reliable(1) [OF "1.prems"] show ?thesis by auto
      next
        case (Inr ep)
        then have "reliable (s_ep (s\<lparr>s_ep := ep\<rparr>))" using send_data_reliable(2) [OF "1.prems"] by simp
        from "1.IH"(2) [OF True send this] Inr eq show ?thesis by simp
      qed
    next
      case oob
      then have "snd_resend x s i = Inl Undef" by (subst snd_resend.simps) (use True in auto)
      then show ?thesis by simp
    next
      case off
      then have "snd_resend x s i = Inl Undef" by (subst snd_resend.simps) (use True in auto)
      then show ?thesis by simp
    qed
  qed
qed

lemma rcv_gbn_reliable:
  assumes "reliable (r_ep r)"
  shows "rcv_gbn r \<noteq> Inl Log_Fatal" and "rcv_gbn r = Inr r' \<Longrightarrow> reliable (r_ep r')"
proof -
  have rel: "reliable ((r_ep r)\<lparr>ep_sqn := q\<rparr>)" for q using assms by (simp add: reliable_def)
  show "rcv_gbn r \<noteq> Inl Log_Fatal" "rcv_gbn r = Inr r' \<Longrightarrow> reliable (r_ep r')"
    using send_packet_reliable [OF assms] send_packet_reliable [OF rel]
    by (auto simp: rcv_gbn_def Let_def mem_read_def mem_write_def bind_res_Inl bind_res_Inr split: if_splits)
qed

lemma rcv_sr_reliable:
  assumes "reliable (r_ep r)"
  shows "rcv_sr n r \<noteq> Inl Log_Fatal" and "rcv_sr n r = Inr r' \<Longrightarrow> reliable (r_ep r')"
  using assms send_packet_reliable [OF assms]
  by (auto simp: rcv_sr_def update_window_def Let_def mem_read_def mem_write_def bind_res_Inl bind_res_Inr
      split: if_splits prod.splits)

section \<open>One round of recovery\<close>

definition can_run :: "sys \<Rightarrow> bool" where
  "can_run y \<longleftrightarrow> y_pc y \<noteq> At_Break \<and> \<not> y_done y \<and> reliable (s_ep (y_snd y)) \<and> reliable (r_ep (y_rcv y))"

locale arq_live = arq +
  fixes useful :: "nat \<Rightarrow> nat \<Rightarrow> bool"
  assumes edge_unacked: "x_mode x = mode \<Longrightarrow> snd_wf x b s sn \<Longrightarrow> s_shift s < sn \<Longrightarrow>
        s_shift s \<notin> smark s \<Longrightarrow> unacked x s (s_shift s)"
    and data_answer: "xfer_ok x \<Longrightarrow> x_mode x = mode \<Longrightarrow> rinv x b r \<Longrightarrow> data_packet x b k (r_packet r) \<Longrightarrow>
        k < npacket x \<Longrightarrow> {..<k} \<subseteq> got r \<Longrightarrow> got r \<subseteq> {..<k + x_wsize x} \<Longrightarrow> reliable (r_ep r) \<Longrightarrow>
        \<exists>r' a j. (if mode \<noteq> 0 then rcv_sr (x_wsize x) r else rcv_gbn r) = Inr r' \<and> reliable (r_ep r')
          \<and> ep_out (r_ep r') = ep_out (r_ep r) @ [(a, ack_msg b j)] \<and> useful k j
          \<and> j \<le> npacket x \<and> ack_ok (got r') j"
    and ack_advances: "xfer_ok x \<Longrightarrow> x_mode x = mode \<Longrightarrow> snd_wf x b s sn \<Longrightarrow> s_shift s < sn \<Longrightarrow>
        G \<subseteq> {..<sn} \<Longrightarrow> ack_ok G k \<Longrightarrow> k \<le> npacket x \<Longrightarrow>
        seq_num (rtp (s_packet s)) = seqnum_add b (int k) \<Longrightarrow> useful (s_shift s) k \<Longrightarrow>
        snd_ack x s = Inr s' \<Longrightarrow> s_shift s < s_shift s'"
begin

lemma to_recv:
  assumes x: "xfer_ok x" "x_mode x = mode" and inv: "sys_inv x b y" and run: "can_run y"
    and more: "s_shift (y_snd y) < npacket x"
  shows "\<exists>s. (sys_step x)\<^sup>*\<^sup>* y (y\<lparr>y_snd := s, y_pc := At_Recv\<rparr>) \<and> s_shift s = s_shift (y_snd y)
    \<and> reliable (s_ep s) \<and> (\<exists>as. ep_out (s_ep s) = ep_out (s_ep (y_snd y)) @ as)"
proof (cases "y_pc y")
  case At_Recv
  then have "y = y\<lparr>y_snd := y_snd y, y_pc := At_Recv\<rparr>" by simp
  then show ?thesis using run by (intro exI [of _ "y_snd y"]) (auto simp: can_run_def)
next
  case At_Head
  obtain sn where wf: "snd_wf x b (y_snd y) sn" "data_net x b sn (ep_out (s_ep (y_snd y)))"
    using inv unfolding sys_inv_def by blast
  note sp = snd_head_inv [OF x(1) wf(1) more wf(2)]
  have rel: "reliable (s_ep (y_snd y))" using run by (simp add: can_run_def)
  have "snd_head x (y_snd y) \<noteq> Inl Log_Fatal"
    using snd_burst_reliable [OF rel, of x 0] by (simp add: snd_head_def)
  with sp obtain s where s: "snd_head x (y_snd y) = Inr s" "s_shift s = s_shift (y_snd y)"
    by (cases "snd_head x (y_snd y)") auto
  have "reliable (s_ep s)"
    using s(1) rel snd_burst_reliable [OF rel, of x 0] by (auto simp: snd_head_def split: if_splits)
  moreover have "\<exists>as. ep_out (s_ep s) = ep_out (s_ep (y_snd y)) @ as"
  proof (cases "s_wbase (y_snd y) = ep_sqn (s_ep (y_snd y))")
    case True
    then have "sn = s_shift (y_snd y)" using snd_wf_same [OF x(1) wf(1)] by simp
    with snd_burst_spec [OF x(1), of b "y_snd y" 0] wf(1) True s(1) show ?thesis
      by (simp add: snd_head_def Let_def)
  qed (use s(1) in \<open>simp add: snd_head_def\<close>)
  moreover have "sys_step x y (y\<lparr>y_snd := s, y_pc := At_Recv\<rparr>)"
    using At_Head more s(1) by (rule snd_burst_step)
  ultimately show ?thesis using s(2) by blast
next
  case At_Break
  with run show ?thesis by (simp add: can_run_def)
qed

lemma timeout_resends:
  assumes x: "xfer_ok x" "x_mode x = mode" and inv: "sys_inv x b y" and run: "can_run y"
    and pc: "y_pc y = At_Recv" and nw: "no_wrap b (npacket x)"
  shows "\<exists>s a. sys_step x y (y\<lparr>y_snd := s, y_pc := At_Head\<rparr>) \<and> s_shift s = s_shift (y_snd y)
    \<and> reliable (s_ep s) \<and> (a, data_msg x b (s_shift s)) \<in> set (ep_out (s_ep s))"
proof -
  let ?s = "y_snd y" and ?ep = "(s_ep (y_snd y))\<lparr>ep_errno := 0\<rparr>"
  let ?t = "?s\<lparr>s_ep := ?ep, s_packet := s_packet ?s\<rparr>"
  obtain sn where wf: "snd_wf x b ?s sn" "s_shift ?s < sn" "s_shift ?s \<notin> smark ?s"
    using inv pc unfolding sys_inv_def by blast
  have wf0: "snd_wf x b ?t sn" "s_shift ?t + 0 \<le> sn" using wf by (simp_all add: snd_wf_def EAGAIN_def)
  have rel: "reliable (s_ep ?t)" using run by (simp add: can_run_def reliable_def)
  have it: "snd_iter x ?s (Recv_Error EAGAIN) = snd_resend x ?t 0"
    by (simp add: snd_iter_def recv_packet_timeout)
  from snd_resend_spec [OF x(1) wf0] snd_resend_reliable [OF rel, of x 0]
  obtain s n where s: "snd_resend x ?t 0 = Inr s" "s = ?t\<lparr>s_ep := s_ep s\<rparr>" "no_wrap b sn \<longrightarrow> n = sn"
    "ep_out (s_ep s) = ep_out (s_ep ?t)
       @ map (\<lambda>k. (ep_addr (s_ep ?t), data_msg x b k)) (filter (unacked x ?t) [s_shift ?t + 0..<n])"
    by (cases "snd_resend x ?t 0") (simp, simp only: sum.case, blast)
  have "no_wrap b sn" using nw wf(1) by (simp add: no_wrap_def snd_wf_def)
  then have "n = sn" using s(3) by blast
  moreover have "unacked x ?t (s_shift ?s)"
    using edge_unacked [OF x(2) wf0(1)] wf(2,3) smark_ep by simp
  ultimately have "(ep_addr (s_ep ?t), data_msg x b (s_shift ?s)) \<in> set (ep_out (s_ep s))"
    unfolding s(4) using wf(2) by auto
  moreover have "s_shift s = s_shift ?s" using s_shift_ep [OF s(2)] by simp
  moreover have "reliable (s_ep s)" using snd_resend_reliable [OF rel, of x 0] s(1) by blast
  moreover have "sys_step x y (y\<lparr>y_snd := s, y_pc := At_Head\<rparr>)"
    using pc s(1) it by (intro snd_recv_step [where ev = "Recv_Error EAGAIN"]) (simp_all add: from_peer_def)
  ultimately show ?thesis by metis
qed

lemma data_delivered:
  assumes x: "xfer_ok x" "x_mode x = mode" and inv: "sys_inv x b y" and run: "can_run y"
    and more: "s_shift (y_snd y) < npacket x"
    and msg: "(a, data_msg x b (s_shift (y_snd y))) \<in> set (ep_out (s_ep (y_snd y)))"
  shows "\<exists>r a' j. sys_step x y (y\<lparr>y_rcv := r\<rparr>) \<and> reliable (r_ep r) \<and> useful (s_shift (y_snd y)) j \<and> j \<le> npacket x
    \<and> (a', ack_msg b j) \<in> set (ep_out (r_ep r)) \<and> ack_ok (got r) j"
proof -
  let ?k = "s_shift (y_snd y)" and ?r = "y_rcv y"
  obtain sn where i: "snd_wf x b (y_snd y) sn" "smark (y_snd y) \<subseteq> got ?r" "got ?r \<subseteq> {..<sn}" "rinv x b ?r"
    using inv unfolding sys_inv_def by blast
  let ?p = "received (r_packet ?r) (seqnum_add b (int ?k)) 0 (chunk x ?k)"
  let ?q = "?r\<lparr>r_ep := (r_ep ?r)\<lparr>ep_addr := a\<rparr>, r_packet := ?p\<rparr>"
  have errno: "ep_errno (r_ep ?r) \<noteq> EAGAIN" using rinv_wf [OF i(4)] by (simp add: rcv_wf_def)
  have "recv_packet (r_ep ?r) (r_packet ?r) (Datagram a (data_msg x b ?k)) = Inr (0, (r_ep ?r)\<lparr>ep_addr := a\<rparr>, ?p)"
    unfolding data_msg_def using length_chunk_le errno by (rule recv_packet_wire)
  then have it: "rcv_iter (x_wsize x) (x_mode x) ?r (Datagram a (data_msg x b ?k)) =
     bind_res (if mode \<noteq> 0 then rcv_sr (x_wsize x) ?q else rcv_gbn ?q) (\<lambda>r. Inr (R_Continue r))"
    using x(2) by (simp add: rcv_iter_def)
  have inv0: "rinv x b ?q" using i(4) errno by (intro rinv_packet) simp_all
  have p: "data_packet x b ?k (r_packet ?q)" by (auto simp: data_packet_def)
  have below: "{..<?k} \<subseteq> got ?q" using i(2) smark_below [of "y_snd y"] got_packet by auto
  have above: "got ?q \<subseteq> {..<?k + x_wsize x}" using i(1,3) got_packet by (force simp: snd_wf_def)
  have "reliable (r_ep ?q)" using run by (simp add: can_run_def reliable_def)
  from data_answer [OF x inv0 p more below above this] obtain r' a' j where
    r': "(if mode \<noteq> 0 then rcv_sr (x_wsize x) ?q else rcv_gbn ?q) = Inr r'" "reliable (r_ep r')"
      "ep_out (r_ep r') = ep_out (r_ep ?q) @ [(a', ack_msg b j)]" "useful ?k j" "j \<le> npacket x" "ack_ok (got r') j"
    by blast
  have "sys_step x y (y\<lparr>y_rcv := r'\<rparr>)"
  proof (rule rcv_step)
    show "\<not> y_done y" using run by (simp add: can_run_def)
    show "from_peer (ep_out (s_ep (y_snd y))) (Datagram a (data_msg x b ?k))"
      using msg by (force simp: from_peer_def)
    show "rcv_iter (x_wsize x) (x_mode x) ?r (Datagram a (data_msg x b ?k)) = Inr (R_Continue r')"
      using it r'(1) by simp
  qed
  moreover have "(a', ack_msg b j) \<in> set (ep_out (r_ep r'))" using r'(3) by simp
  ultimately show ?thesis using r'(2,4-6) by blast
qed

lemma ack_delivered:
  assumes x: "xfer_ok x" "x_mode x = mode" and inv: "sys_inv x b y" and run: "can_run y"
    and pc: "y_pc y = At_Recv" and msg: "(a, ack_msg b j) \<in> set (ep_out (r_ep (y_rcv y)))"
    and j: "useful (s_shift (y_snd y)) j" "j \<le> npacket x" "ack_ok (got (y_rcv y)) j"
  shows "\<exists>s. sys_step x y (y\<lparr>y_snd := s, y_pc := At_Head\<rparr>) \<and> s_shift (y_snd y) < s_shift s \<and> reliable (s_ep s)"
proof -
  let ?s = "y_snd y"
  obtain sn where i: "snd_wf x b ?s sn" "s_shift ?s < sn" "smark ?s \<subseteq> got (y_rcv y)" "got (y_rcv y) \<subseteq> {..<sn}"
    "s_shift ?s \<notin> smark ?s" using inv pc unfolding sys_inv_def by blast
  let ?p = "received (s_packet ?s) (seqnum_add b (int j)) RTP_ACK []"
  let ?t = "?s\<lparr>s_ep := (s_ep ?s)\<lparr>ep_addr := a\<rparr>, s_packet := ?p\<rparr>"
  have errno: "ep_errno (s_ep ?s) \<noteq> EAGAIN" using i(1) by (simp add: snd_wf_def)
  have "recv_packet (s_ep ?s) (s_packet ?s) (Datagram a (ack_msg b j)) = Inr (0, (s_ep ?s)\<lparr>ep_addr := a\<rparr>, ?p)"
    unfolding ack_msg_def using errno by (intro recv_packet_wire) simp_all
  then have it: "snd_iter x ?s (Datagram a (ack_msg b j)) = snd_ack x ?t" by (simp add: snd_iter_def)
  have wf: "snd_wf x b ?t sn" "s_shift ?t < sn" "s_shift ?t \<notin> smark ?t" "smark ?t \<subseteq> got (y_rcv y)"
    "seq_num (rtp (s_packet ?t)) = seqnum_add b (int j)"
    using i smark_packet by (simp_all add: snd_wf_def)
  have "snd_marked x b ?t sn (smark ?t)" using wf(1,3,4) i(4) by (auto simp: snd_marked_def)
  from ack_step [OF x this wf(2)] obtain s' where s': "snd_ack x ?t = Inr s'" "s_ep s' = s_ep ?t" by blast
  moreover have "s_shift ?s < s_shift s'"
    using ack_advances [OF x wf(1,2) i(4) j(3,2) wf(5) _ s'(1)] j(1) by simp
  moreover have "reliable (s_ep s')" using run s'(2) by (simp add: can_run_def reliable_def)
  moreover have "sys_step x y (y\<lparr>y_snd := s', y_pc := At_Head\<rparr>)"
    using pc it s'(1) msg by (intro snd_recv_step [where ev = "Datagram a (ack_msg b j)"]) (force simp: from_peer_def)+
  ultimately show ?thesis by blast
qed

lemma recovery_round:
  assumes x: "xfer_ok x" "x_mode x = mode" and inv: "sys_inv x b y" and run: "can_run y"
    and more: "s_shift (y_snd y) < npacket x" and nw: "no_wrap b (npacket x)"
  shows "\<exists>z. (sys_step x)\<^sup>*\<^sup>* y z \<and> can_run z \<and> s_shift (y_snd y) < s_shift (y_snd z)"
proof -
  note stepI = rtranclp.rtrancl_into_rtrancl
  have inv_steps: "sys_inv x b z" if "(sys_step x)\<^sup>*\<^sup>* y z" for z
    using run.steps_inv [of "(x, b)" y z] that x inv by simp
  from to_recv [OF x inv run more] obtain s1 where
    1: "(sys_step x)\<^sup>*\<^sup>* y (y\<lparr>y_snd := s1, y_pc := At_Recv\<rparr>)" "s_shift s1 = s_shift (y_snd y)" "reliable (s_ep s1)"
    by blast
  let ?y1 = "y\<lparr>y_snd := s1, y_pc := At_Recv\<rparr>"
  have run1: "can_run ?y1" using run 1(3) by (simp add: can_run_def)
  from timeout_resends [OF x inv_steps [OF 1(1)] run1 _ nw] obtain s2 a where
    2: "sys_step x ?y1 (?y1\<lparr>y_snd := s2, y_pc := At_Head\<rparr>)" "s_shift s2 = s_shift s1" "reliable (s_ep s2)"
      "(a, data_msg x b (s_shift s2)) \<in> set (ep_out (s_ep s2))" by auto
  let ?y2 = "?y1\<lparr>y_snd := s2, y_pc := At_Head\<rparr>"
  have steps2: "(sys_step x)\<^sup>*\<^sup>* y ?y2" using 1(1) 2(1) by (rule stepI)
  have run2: "can_run ?y2" using run 2(3) by (simp add: can_run_def)
  from to_recv [OF x inv_steps [OF steps2] run2] more 1(2) 2(2) obtain s3 as where
    3: "(sys_step x)\<^sup>*\<^sup>* ?y2 (?y2\<lparr>y_snd := s3, y_pc := At_Recv\<rparr>)" "s_shift s3 = s_shift s2" "reliable (s_ep s3)"
      "ep_out (s_ep s3) = ep_out (s_ep s2) @ as" by auto
  let ?y3 = "?y2\<lparr>y_snd := s3, y_pc := At_Recv\<rparr>"
  have steps3: "(sys_step x)\<^sup>*\<^sup>* y ?y3" using steps2 3(1) by (rule rtranclp_trans)
  have run3: "can_run ?y3" using run 3(3) by (simp add: can_run_def)
  have edge: "s_shift s3 = s_shift (y_snd y)" using 1(2) 2(2) 3(2) by simp
  have msg: "(a, data_msg x b (s_shift (y_snd ?y3))) \<in> set (ep_out (s_ep (y_snd ?y3)))" using 2(4) 3(2,4) by simp
  have more3: "s_shift (y_snd ?y3) < npacket x" using more edge by simp
  from data_delivered [OF x inv_steps [OF steps3] run3 more3 msg] obtain r a' j where
    4: "sys_step x ?y3 (?y3\<lparr>y_rcv := r\<rparr>)" "reliable (r_ep r)" "useful (s_shift (y_snd ?y3)) j" "j \<le> npacket x"
      "(a', ack_msg b j) \<in> set (ep_out (r_ep r))" "ack_ok (got r) j" by blast
  let ?y4 = "?y3\<lparr>y_rcv := r\<rparr>"
  have steps4: "(sys_step x)\<^sup>*\<^sup>* y ?y4" using steps3 4(1) by (rule stepI)
  have run4: "can_run ?y4" using run3 4(2) by (simp add: can_run_def)
  have at4: "y_pc ?y4 = At_Recv" "(a', ack_msg b j) \<in> set (ep_out (r_ep (y_rcv ?y4)))"
    "useful (s_shift (y_snd ?y4)) j" "ack_ok (got (y_rcv ?y4)) j" using 4(3,5,6) by simp_all
  from ack_delivered [OF x inv_steps [OF steps4] run4 at4(1-3) 4(4) at4(4)] obtain s5 where
    5: "sys_step x ?y4 (?y4\<lparr>y_snd := s5, y_pc := At_Head\<rparr>)" "s_shift (y_snd ?y4) < s_shift s5" "reliable (s_ep s5)" by blast
  let ?y5 = "?y4\<lparr>y_snd := s5, y_pc := At_Head\<rparr>"
  have "can_run ?y5" using run4 5(3) by (simp add: can_run_def)
  with stepI [OF steps4 5(1)] 5(2) edge show ?thesis by (intro exI [of _ ?y5]) simp
qed

lemma can_complete:
  assumes x: "xfer_ok x" "x_mode x = mode" and inv: "sys_inv x b y" and run: "can_run y"
    and nw: "no_wrap b (npacket x)"
  shows "\<exists>z. (sys_step x)\<^sup>*\<^sup>* y z \<and> can_run z \<and> npacket x \<le> s_shift (y_snd z)"
  using inv run
proof (induction "npacket x - s_shift (y_snd y)" arbitrary: y rule: less_induct)
  case less
  show ?case
  proof (cases "s_shift (y_snd y) < npacket x")
    case False
    then show ?thesis using less.prems by (intro exI [of _ y]) auto
  next
    case True
    from recovery_round [OF x less.prems True nw] obtain z where
      z: "(sys_step x)\<^sup>*\<^sup>* y z" "can_run z" "s_shift (y_snd y) < s_shift (y_snd z)" by blast
    have "sys_inv x b z" using run.steps_inv [of "(x, b)" y z] z(1) x less.prems(1) by simp
    with less.hyps [OF _ this z(2)] z(3) True obtain z' where
      "(sys_step x)\<^sup>*\<^sup>* z z'" "can_run z'" "npacket x \<le> s_shift (y_snd z')" by (metis diff_less_mono2)
    with rtranclp_trans [OF z(1)] show ?thesis by blast
  qed
qed

lemma can_finish:
  assumes x: "xfer_ok x" "x_mode x = mode" and inv: "sys_inv x b y" and run: "can_run y"
    and fin: "npacket x \<le> s_shift (y_snd y)"
  shows "\<exists>z. (sys_step x)\<^sup>*\<^sup>* y z \<and> y_done z \<and> y_pc z = At_Break
    \<and> r_buf (y_rcv z) = r_buf (y_rcv y) \<and> r_fsize (y_rcv z) = r_fsize (y_rcv y)"
proof -
  let ?ep = "s_ep (y_snd y)"
  let ?m = "wire (ep_sqn ?ep) RTP_FIN []"
  let ?fin = "?ep\<lparr>ep_timeo := (0, SEND_MS * 1000), ep_out := ep_out ?ep @ [(ep_addr ?ep, ?m)]\<rparr>"
  let ?y1 = "y\<lparr>y_snd := (y_snd y)\<lparr>s_ep := ?fin\<rparr>, y_pc := At_Break\<rparr>"
  obtain sn where i: "snd_wf x b (y_snd y) sn" "rinv x b (y_rcv y)" "y_pc y = At_Recv \<longrightarrow> s_shift (y_snd y) < sn"
    using inv unfolding sys_inv_def by blast
  have "y_pc y = At_Head" using i(1,3) fin run by (cases "y_pc y") (auto simp: can_run_def snd_wf_def)
  then have 1: "sys_step x y ?y1" using fin run
    by (intro snd_fin_step) (auto simp: can_run_def reliable_def set_sock_recv_time_def send_packet_ctl sendto_def)
  have errno: "ep_errno (r_ep (y_rcv y)) \<noteq> EAGAIN" using rinv_wf [OF i(2)] by (simp add: rcv_wf_def)
  let ?r = "(y_rcv y)\<lparr>r_ep := (r_ep (y_rcv y))\<lparr>ep_addr := ep_addr ?ep\<rparr>,
     r_packet := received (r_packet (y_rcv y)) (ep_sqn ?ep) RTP_FIN []\<rparr>"
  have "rcv_iter (x_wsize x) (x_mode x) (y_rcv y) (Datagram (ep_addr ?ep) ?m) = Inr (R_Break ?r)"
    using errno by (simp add: rcv_iter_def recv_packet_wire RTP_FIN_def)
  then have "sys_step x ?y1 (?y1\<lparr>y_rcv := ?r, y_done := True\<rparr>)"
    using run by (intro rcv_break_step [where ev = "Datagram (ep_addr ?ep) ?m"]) (simp_all add: from_peer_def can_run_def)
  with 1 have "(sys_step x)\<^sup>*\<^sup>* y (?y1\<lparr>y_rcv := ?r, y_done := True\<rparr>)"
    by (meson converse_rtranclp_into_rtranclp r_into_rtranclp)
  then show ?thesis by (intro exI [of _ "?y1\<lparr>y_rcv := ?r, y_done := True\<rparr>"]) simp
qed

lemma completes:
  assumes x: "xfer_ok x" "x_mode x = mode" and inv: "sys_inv x b y" and run: "can_run y"
    and nw: "no_wrap b (npacket x)"
  shows "\<exists>z. (sys_step x)\<^sup>*\<^sup>* y z \<and> y_done z \<and> y_pc z = At_Break
    \<and> write_file True True (r_buf (y_rcv z)) (r_fsize (y_rcv z)) = Inr (take (total x) (x_buf x))"
proof -
  from can_complete [OF assms] obtain z where
    z: "(sys_step x)\<^sup>*\<^sup>* y z" "can_run z" "npacket x \<le> s_shift (y_snd z)" by blast
  have inv': "sys_inv x b z" using run.steps_inv [of "(x, b)" y z] z(1) x inv by simp
  from can_finish [OF x inv' z(2,3)] finished_delivered [OF x(1) inv' z(3)] z(1) show ?thesis
    by (metis rtranclp_trans)
qed

end

section \<open>Go-Back-N and Selective Repeat\<close>

interpretation gbn_live: arq_live 0 gbn_mark gbn_got gbn_inv gbn_ack_ok "(<)"
proof unfold_locales
  fix x :: xfer and b s sn assume "x_mode x = 0"
  then show "unacked x s (s_shift s)" by (simp add: unacked_def)
next
  fix x b r k
  assume x: "xfer_ok x" and inv: "gbn_inv x b r" and p: "data_packet x b k (r_packet r)" "k < npacket x"
    and below: "{..<k} \<subseteq> gbn_got r" and rel: "reliable (r_ep r)"
  have k: "k \<le> r_shift r" using below by (auto simp: gbn_got_def dest!: subsetD [of _ _ "r_shift r"] intro: leI)
  from rcv_gbn_spec [OF x inv p] rcv_gbn_reliable [OF rel] obtain r' where
    r': "rcv_gbn r = Inr r'" "gbn_inv x b r'" "r_shift r' = (if k = r_shift r then Suc (r_shift r) else r_shift r)"
      "ep_out (r_ep r') = ep_out (r_ep r) @ [(ep_addr (r_ep r), ack_msg b (r_shift r'))]" "reliable (r_ep r')"
    by (cases "rcv_gbn r") auto
  have "k < r_shift r'" "r_shift r' \<le> npacket x"
    using k r'(2,3) by (auto simp: gbn_inv_def rcv_wf_def)
  with r' show "\<exists>r' a j. (if (0::int) \<noteq> 0 then rcv_sr (x_wsize x) r else rcv_gbn r) = Inr r' \<and> reliable (r_ep r')
      \<and> ep_out (r_ep r') = ep_out (r_ep r) @ [(a, ack_msg b j)] \<and> k < j \<and> j \<le> npacket x \<and> gbn_ack_ok (gbn_got r') j"
    by (auto simp: gbn_ack_ok_def gbn_got_def)
next
  fix x b s sn G k s'
  assume a: "xfer_ok x" "x_mode x = 0" "snd_wf x b s sn" "s_shift s < sn" and G: "G \<subseteq> {..<sn}" "gbn_ack_ok G k"
    and k: "k \<le> npacket x" "seq_num (rtp (s_packet s)) = seqnum_add b (int k)" "s_shift s < k" "snd_ack x s = Inr s'"
  have "k \<le> sn" using G by (auto simp: gbn_ack_ok_def dest!: subsetD [of _ _ "sn"] intro: leI)
  then show "s_shift s < s_shift s'" using snd_ack_gbn [OF a k(2,1)] k(3,4) by auto
qed

interpretation sr_live: arq_live 1 sr_mark rcovered sr_inv sr_ack_ok "(=)"
proof unfold_locales
  fix x b s sn assume "snd_wf x b s sn" "s_shift s < sn" "s_shift s \<notin> sr_mark s"
  then show "unacked x s (s_shift s)"
    by (auto simp: unacked_def sr_mark_def covered_def snd_wf_def)
next
  fix x b r k
  assume x: "xfer_ok x" and inv: "sr_inv x b r" and p: "data_packet x b k (r_packet r)" "k < npacket x"
    and below: "{..<k} \<subseteq> rcovered r" and above: "rcovered r \<subseteq> {..<k + x_wsize x}" and rel: "reliable (r_ep r)"
  have "r_shift r \<notin> rcovered r" using inv by (simp add: sr_inv_def)
  then have "k \<le> r_shift r" using below by (auto intro: leI)
  have low: "{..<r_shift r} \<subseteq> rcovered r" by (auto simp: rcovered_def covered_def)
  have w: "0 < x_wsize x" using x by (simp add: xfer_ok_def)
  have "r_shift r \<le> k + x_wsize x" using subset_trans [OF low above] by (simp add: lessThan_subset_iff)
  from rcv_sr_spec [OF x inv p] rcv_sr_reliable [OF rel, of "x_wsize x"] w \<open>k \<le> r_shift r\<close> this obtain r' where
    r': "rcv_sr (x_wsize x) r = Inr r'" "rcovered r \<subseteq> rcovered r'" "r_shift r \<le> k \<longrightarrow> k \<in> rcovered r'"
      "ep_out (r_ep r') = ep_out (r_ep r) @ [(ep_addr (r_ep r), ack_msg b k)]" "reliable (r_ep r')"
    by (cases "rcv_sr (x_wsize x) r") (auto split: if_splits)
  have "k \<in> rcovered r'" using r'(2,3) low by (cases "r_shift r \<le> k") (auto simp: not_le)
  with r' p(2) show "\<exists>r' a j. (if (1::int) \<noteq> 0 then rcv_sr (x_wsize x) r else rcv_gbn r) = Inr r' \<and> reliable (r_ep r')
      \<and> ep_out (r_ep r') = ep_out (r_ep r) @ [(a, ack_msg b j)] \<and> k = j \<and> j \<le> npacket x \<and> sr_ack_ok (rcovered r') j"
    by (auto simp: sr_ack_ok_def)
next
  fix x b s sn G k s'
  assume a: "xfer_ok x" "x_mode x = 1" "snd_wf x b s sn" "s_shift s < sn"
    and k: "k \<le> npacket x" "seq_num (rtp (s_packet s)) = seqnum_add b (int k)" "s_shift s = k" "snd_ack x s = Inr s'"
  have i: "0 < length (s_window s)" using a(1,3) by (simp add: snd_wf_def xfer_ok_def)
  from uw.upd_total [OF i] obtain mov w where
    u: "update_window (s_window s) (length (s_window s)) (int 0) = Inr (mov, w)" by blast
  have s': "s_shift s' = s_shift s + mov" using snd_ack_sr [OF a k(2,1)] k(3,4) a(4) u by auto
  have "1 \<le> 0 + mov" by (rule uw.upd_progress [OF i u]) auto
  with s' show "s_shift s < s_shift s'" by simp
qed

end
