(* ===== verification/Args.thy ===== *)
theory Args
  imports Prelude
begin

text \<open>
  \<open>atoi\<close>, through which all programs read the numbers of their command lines: optional white space and sign, then
  digits up to the first other character; out of the range of \<open>long\<close> the value saturates, and it is then
  converted to \<open>int\<close>, as in the C library of the platform. In the other direction, the decimal text of a number, which
  \<open>printf\<close>, \<open>std::to_string\<close> and the output streams produce.
\<close>

definition is_space :: "char \<Rightarrow> bool" where
  "is_space c \<longleftrightarrow> (let n = of_char c :: nat in n = 32 \<or> 9 \<le> n \<and> n \<le> 13)"

definition digit_val :: "char \<Rightarrow> nat option" where
  "digit_val c = (let n = of_char c :: nat in if 48 \<le> n \<and> n \<le> 57 then Some (n - 48) else None)"

fun digits_val :: "int \<Rightarrow> string \<Rightarrow> int" where
  "digits_val acc [] = acc"
| "digits_val acc (c # cs) =
     (case digit_val c of Some d \<Rightarrow> digits_val (10 * acc + int d) cs | None \<Rightarrow> acc)"

definition clamp_long :: "int \<Rightarrow> int" where
  "clamp_long x = max (- (2 ^ 63)) (min x (2 ^ 63 - 1))"

definition atoi :: "string \<Rightarrow> int" where
  "atoi s =
     (case dropWhile is_space s of
        [] \<Rightarrow> 0
      | c # cs \<Rightarrow>
          int_of_long (clamp_long
            (if c = CHR ''-'' then - digits_val 0 cs
             else if c = CHR ''+'' then digits_val 0 cs
             else digits_val 0 (c # cs))))"

fun show_nat :: "nat \<Rightarrow> string" where
  "show_nat n = (if n < 10 then [char_of (48 + n)] else show_nat (n div 10) @ [char_of (48 + n mod 10)])"

definition show_int :: "int \<Rightarrow> string" where
  "show_int i = (if i < 0 then ''-'' @ show_nat (nat (- i)) else show_nat (nat i))"

declare show_nat.simps [simp del]

end
