(* ===== verification/Programs.thy ===== *)
theory Programs
  imports Liveness Args
begin

text \<open>
  The \<open>main\<close> functions of \<open>lab2/src/sender.c\<close> and \<open>receiver.c\<close>, the state in which the handshake leaves the two programs, and the
  proof that the steps of the system are the iterations of the two loops.
\<close>

section \<open>The two programs\<close>

text \<open>
  What the programs get from their surroundings: whether \<open>LDEBUG\<close> was defined at build time,
  the address that \<open>inet_pton\<close> finds for a string, whether the system calls succeed, the file
  system, and the contents that the uninitialised locals happen to have.
\<close>

record env =
  e_ldebug :: bool
  e_pton :: "string \<Rightarrow> u32 option"
  e_socket :: bool
  e_bind :: bool
  e_close :: bool
  e_file :: "string \<Rightarrow> u8 list option"
  e_fopen :: bool
  e_fclose :: bool
  e_packet1 :: rtp_packet
  e_packet2 :: rtp_packet
  e_packet3 :: rtp_packet
  e_buf :: "u8 list"

definition sender_main :: "env \<Rightarrow> endpoint \<Rightarrow> string list \<Rightarrow> sock_event list \<Rightarrow> endpoint run" where
  "sender_main env ep argv evs =
     (if length argv \<noteq> 6 then Failed Log_Fatal
      else let ip = argv ! 1; port = atoi (argv ! 2); file_path = argv ! 3;
               wsize = atoi (argv ! 4); mode = atoi (argv ! 5)
      in if \<not> e_socket env then Failed Log_Fatal
      else let ep = ep\<lparr>ep_addr := (case e_pton env ip of Some a \<Rightarrow> a | None \<Rightarrow> 0, of_int port)\<rparr>
      in bind_run (snd_establish_connection (e_ldebug env) ep (e_packet1 env) evs)
      (\<lambda>ep evs. bind_run (snd_transfer_data (e_file env file_path) (e_fclose env) (e_buf env) wsize mode
                             ep (e_packet2 env) evs)
      (\<lambda>s evs. bind_run (snd_break_connection (e_ldebug env) (s_ep s) (e_packet3 env) evs)
      (\<lambda>ep evs. if \<not> e_close env then Failed Log_Fatal else Returned ep evs))))"

definition receiver_main ::
    "env \<Rightarrow> endpoint \<Rightarrow> string list \<Rightarrow> sock_event list \<Rightarrow> (endpoint \<times> u8 list) run" where
  "receiver_main env ep argv evs =
     (if length argv \<noteq> 5 then Failed Log_Fatal
      else let port = atoi (argv ! 1); wsize = atoi (argv ! 3); mode = atoi (argv ! 4)
      in if \<not> e_socket env then Failed Log_Fatal
      else let ep = ep\<lparr>ep_addr := (0, of_int port)\<rparr>
      in if \<not> e_bind env then Failed Log_Fatal
      else bind_run (rcv_establish_connection (e_ldebug env) ep (e_packet1 env) evs)
      (\<lambda>ep evs. bind_run (rcv_transfer_data (e_fopen env) (e_fclose env) (e_buf env) wsize mode
                             ep (e_packet2 env) evs)
      (\<lambda>(r, content) evs. bind_run (rcv_break_connection (r_ep r) (e_packet3 env) evs)
      (\<lambda>ep evs. if \<not> e_close env then Failed Log_Fatal else Returned (ep, content) evs))))"

section \<open>From the handshake to the transfer\<close>

definition sys_start :: "xfer \<Rightarrow> endpoint \<Rightarrow> rtp_packet \<Rightarrow> endpoint \<Rightarrow> rtp_packet \<Rightarrow> u8 list \<Rightarrow> sys" where
  "sys_start x ep packet ep2 packet2 buf =
     \<lparr>y_snd = snd_start x ep packet, y_pc = At_Head,
      y_rcv = rcv_start (x_wsize x) ep2 packet2 buf, y_done = False\<rparr>"

lemma sys_start_init:
  assumes "ep_sqn ep = b" "ep_sqn ep2 = b" "seq_ok b" "ep_errno ep \<noteq> EAGAIN" "ep_errno ep2 \<noteq> EAGAIN"
    "net_all (\<lambda>q f d. f = RTP_SYN \<and> seqnum_add q 1 = b \<or> f = RTP_ACK) (ep_out ep)" "net_all (\<lambda>q f d. f \<noteq> RTP_ACK) (ep_out ep2)"
    "length buf = MAXBUF"
  shows "sys_init x b (sys_start x ep packet ep2 packet2 buf)"
  using assms by (simp add: sys_init_def sys_start_def snd_start_def rcv_start_def)

lemma net_all_msgs: "net_all P out \<longleftrightarrow> (\<forall>m \<in> set (map snd out).
   case decode_packet (take RTP_PACKET_SIZE m) of None \<Rightarrow> True | Some (q, f, d) \<Rightarrow> P q f d)"
  by (simp add: net_all_def)

lemma handshake_starts:
  assumes s: "snd_establish_connection ldebug ep pkt evs = Returned ep' rest"
    and r: "rcv_establish_connection ldebug2 ep2 pkt2 evs2 = Returned ep2' rest2"
    and errno: "ep_errno ep \<noteq> EAGAIN" "ep_errno ep2 \<noteq> EAGAIN" and fresh: "ep_out ep = []" "ep_out ep2 = []"
    and net: "\<forall>ev \<in> set evs2. from_peer (ep_out ep') ev" and buf: "length buf = MAXBUF"
  shows "sys_init x 0 (sys_start x ep' packet ep2' packet2 buf)"
proof (rule sys_start_init)
  show "ep_sqn ep' = 0" "ep_errno ep' \<noteq> EAGAIN" using snd_establish_returns [OF s errno(1)] by simp_all
  show "ep_sqn ep2' = 0"
    using handshake_agrees_lemma [OF s r errno fresh(1) net] \<open>ep_sqn ep' = 0\<close> by simp
  show "seq_ok 0" by (simp add: seq_ok_def)
  obtain n2 where out2: "map snd (ep_out ep2') = replicate n2 (wire (ep_sqn ep2') (RTP_ACK OR RTP_SYN) [])"
    "ep_errno ep2' \<noteq> EAGAIN"
    using rcv_establish_returns [OF r errno(2)] unfolding fresh(2) list.map append_Nil by blast
  then show "ep_errno ep2' \<noteq> EAGAIN" by simp
  show "net_all (\<lambda>q f d. f \<noteq> RTP_ACK) (ep_out ep2')"
    unfolding net_all_msgs out2(1) by (auto simp: wire_fits decode_wire RTP_ACK_def RTP_SYN_def)
  obtain n k where out: "map snd (ep_out ep') = replicate n (wire 0x7FFFFFFF RTP_SYN []) @ replicate k (wire 0 RTP_ACK [])"
    using snd_establish_returns [OF s errno(1)] unfolding fresh(1) list.map append_Nil by blast
  show "net_all (\<lambda>q f d. f = RTP_SYN \<and> seqnum_add q 1 = 0 \<or> f = RTP_ACK) (ep_out ep')"
    unfolding net_all_msgs out by (auto simp: wire_fits decode_wire seqnum_add_isn)
qed (rule buf)

section \<open>What was sent stays sent\<close>

lemma from_peer_mono: "from_peer out ev \<Longrightarrow> set out \<subseteq> set out' \<Longrightarrow> from_peer out' ev"
  by (auto simp: from_peer_def split: sock_event.splits)

lemma send_packet_out: "send_packet ep q f n buf = Inr ep' \<Longrightarrow> set (ep_out ep) \<subseteq> set (ep_out ep')"
  by (auto simp: send_packet_def bind_res_Inr Let_def sendto_Inr)

lemma send_data_out: "send_data x ep q k = Inr ep' \<Longrightarrow> set (ep_out ep) \<subseteq> set (ep_out ep')"
  by (auto simp: send_data_def Let_def split: if_splits dest: send_packet_out)

lemma snd_burst_out: "snd_burst x s i = Inr s' \<Longrightarrow> set (ep_out (s_ep s)) \<subseteq> set (ep_out (s_ep s'))"
proof (induction x s i rule: snd_burst.induct)
  case (1 x s i)
  show ?case
  proof (cases "i < x_wsize x \<and> i + s_shift s < npacket x")
    case True
    with "1.prems" obtain ep where ep: "send_data x (s_ep s) (ep_sqn (s_ep s)) (s_shift s + i) = Inr ep"
      "snd_burst x (s\<lparr>s_ep := ep\<lparr>ep_sqn := seqnum_add (ep_sqn ep) 1\<rparr>\<rparr>) (Suc i) = Inr s'"
      by (subst (asm) snd_burst.simps) (auto simp: bind_res_Inr)
    from "1.IH" [OF True ep(2)] send_data_out [OF ep(1)] show ?thesis by simp
  next
    case False
    with "1.prems" show ?thesis by (subst (asm) snd_burst.simps) auto
  qed
qed

lemma snd_resend_out: "snd_resend x s i = Inr s' \<Longrightarrow> set (ep_out (s_ep s)) \<subseteq> set (ep_out (s_ep s'))"
proof (induction x s i rule: snd_resend.induct)
  case (1 x s i)
  from "1.prems" consider (stop) "s' = s"
    | (skip) "seqnum_add (s_wbase s) (int i) < ep_sqn (s_ep s)" "\<not> (x_mode x \<noteq> 0 \<and> length (s_window s) \<le> i)"
        "x_mode x \<noteq> 0 \<and> s_window s ! i \<noteq> 0" "snd_resend x s (Suc i) = Inr s'"
    | (send) ep where "seqnum_add (s_wbase s) (int i) < ep_sqn (s_ep s)" "\<not> (x_mode x \<noteq> 0 \<and> length (s_window s) \<le> i)"
        "\<not> (x_mode x \<noteq> 0 \<and> s_window s ! i \<noteq> 0)" "\<not> length (x_buf x) < (s_shift s + i) * PAYLOAD_MAX"
        "send_data x (s_ep s) (seqnum_add (s_wbase s) (int i)) (s_shift s + i) = Inr ep"
        "snd_resend x (s\<lparr>s_ep := ep\<rparr>) (Suc i) = Inr s'"
    by (subst (asm) snd_resend.simps) (auto simp: bind_res_Inr split: if_splits)
  then show ?case
  proof cases
    case skip
    from "1.IH"(1) [OF skip] show ?thesis .
  next
    case send
    from "1.IH"(2) [OF send(1-4,6)] send_data_out [OF send(5)] show ?thesis by simp
  qed simp
qed

lemma snd_head_out: "snd_head x s = Inr s' \<Longrightarrow> set (ep_out (s_ep s)) \<subseteq> set (ep_out (s_ep s'))"
  by (auto simp: snd_head_def split: if_splits dest: snd_burst_out)

lemma snd_iter_out:
  assumes "snd_iter x s ev = Inr s'"
  shows "set (ep_out (s_ep s)) \<subseteq> set (ep_out (s_ep s'))"
proof -
  obtain c ep p where r: "recv_packet (s_ep s) (s_packet s) ev = Inr (c, ep, p)"
    using assms by (auto simp: snd_iter_def bind_res_Inr)
  let ?t = "s\<lparr>s_ep := ep, s_packet := p\<rparr>"
  have ack: "s_ep s' = s_ep t" if "snd_ack x t = Inr s'" for t
    using that by (auto simp: snd_ack_def Let_def bind_res_Inr split: if_splits)
  have "snd_resend x ?t 0 = Inr s' \<or> s' = ?t \<or> snd_ack x ?t = Inr s'"
    using assms r by (auto simp: snd_iter_def Let_def split: if_splits)
  then have "set (ep_out (s_ep ?t)) \<subseteq> set (ep_out (s_ep s'))"
    using snd_resend_out [of x ?t 0 s'] ack [of ?t] by auto
  then show ?thesis using recv_packet_frame(2) [OF r] by simp
qed

lemma rcv_iter_out:
  assumes "rcv_iter w mode r ev = Inr res"
  shows "set (ep_out (r_ep r)) \<subseteq> set (ep_out (r_ep (case res of R_Continue r' \<Rightarrow> r' | R_Break r' \<Rightarrow> r')))"
proof -
  obtain c ep p where r: "recv_packet (r_ep r) (r_packet r) ev = Inr (c, ep, p)"
    using assms by (auto simp: rcv_iter_def bind_res_Inr)
  let ?t = "r\<lparr>r_ep := ep, r_packet := p\<rparr>" and ?r1 = "case res of R_Continue r' \<Rightarrow> r' | R_Break r' \<Rightarrow> r'"
  have "set (ep_out (r_ep t)) \<subseteq> set (ep_out (r_ep r1))" if "rcv_sr w t = Inr r1" for t r1
    using that by (auto simp: rcv_sr_def Let_def bind_res_Inr split: if_splits dest: send_packet_out [THEN subsetD])
  moreover have "set (ep_out (r_ep t)) \<subseteq> set (ep_out (r_ep r1))" if "rcv_gbn t = Inr r1" for t r1
    using that by (auto simp: rcv_gbn_def Let_def bind_res_Inr split: if_splits dest: send_packet_out [THEN subsetD])
  moreover have "?r1 = ?t \<or> rcv_sr w ?t = Inr ?r1 \<or> rcv_gbn ?t = Inr ?r1"
    using assms r by (auto simp: rcv_iter_def Let_def bind_res_Inr split: if_splits)
  ultimately have "set (ep_out (r_ep ?t)) \<subseteq> set (ep_out (r_ep ?r1))" by (metis order_refl)
  then show ?thesis using recv_packet_frame(2) [OF r] by simp
qed

lemma sys_step_out:
  assumes "sys_step x y z"
  shows "set (ep_out (s_ep (y_snd y))) \<subseteq> set (ep_out (s_ep (y_snd z)))"
    and "set (ep_out (r_ep (y_rcv y))) \<subseteq> set (ep_out (r_ep (y_rcv z)))"
  using assms
  by (cases; fastforce simp: bind_res_Inr set_sock_recv_time_Inr dest: snd_head_out snd_iter_out rcv_iter_out send_packet_out)+

section \<open>The system runs the two loops\<close>

text \<open>
  The steps of the system are the iterations of \<open>snd_loop\<close> and \<open>rcv_loop\<close>: the loop started in the
  first state, given the events that the steps consumed, all of them from the peer, goes on from the state reached.
\<close>

definition snd_follows :: "xfer \<Rightarrow> sender \<Rightarrow> sys \<Rightarrow> bool" where
  "snd_follows x s0 y \<longleftrightarrow> (\<exists>evs. (\<forall>ev \<in> set evs. from_peer (ep_out (r_ep (y_rcv y))) ev) \<and> (\<forall>more.
     if y_pc y = At_Break
     then \<exists>s. snd_loop x s0 (evs @ more) = Returned s more \<and> y_snd y = s\<lparr>s_ep := s_ep (y_snd y)\<rparr>
     else snd_loop x s0 (evs @ more) = snd_loop x (y_snd y) more))"

definition rcv_follows :: "xfer \<Rightarrow> receiver \<Rightarrow> sys \<Rightarrow> bool" where
  "rcv_follows x r0 y \<longleftrightarrow> (\<exists>evs. (\<forall>ev \<in> set evs. from_peer (ep_out (s_ep (y_snd y))) ev) \<and> (\<forall>more.
     rcv_loop (x_wsize x) (x_mode x) r0 (evs @ more) =
       (if y_done y then Returned (y_rcv y) more else rcv_loop (x_wsize x) (x_mode x) (y_rcv y) more)))"

lemma rcv_follows_step:
  assumes "sys_step x y z" and "rcv_follows x r0 y"
  shows "rcv_follows x r0 z"
proof -
  obtain evs where old: "\<And>ev. ev \<in> set evs \<Longrightarrow> from_peer (ep_out (s_ep (y_snd y))) ev"
    and f: "\<And>more. rcv_loop (x_wsize x) (x_mode x) r0 (evs @ more) =
       (if y_done y then Returned (y_rcv y) more else rcv_loop (x_wsize x) (x_mode x) (y_rcv y) more)"
    using assms(2) unfolding rcv_follows_def by blast
  have seen: "\<forall>ev \<in> set evs. from_peer (ep_out (s_ep (y_snd z))) ev"
    using old from_peer_mono [OF _ sys_step_out(1) [OF assms(1)]] by blast
  from assms(1) show ?thesis
  proof cases
    case (snd_burst_step s)
    with f seen show ?thesis unfolding rcv_follows_def by (intro exI [of _ evs]) simp
  next
    case (snd_recv_step ev s)
    with f seen show ?thesis unfolding rcv_follows_def by (intro exI [of _ evs]) simp
  next
    case (snd_fin_step ep)
    with f seen show ?thesis unfolding rcv_follows_def by (intro exI [of _ evs]) simp
  next
    case (rcv_step ev r)
    then have "rcv_loop (x_wsize x) (x_mode x) r0 ((evs @ [ev]) @ more) = rcv_loop (x_wsize x) (x_mode x) r more" for more
      using f [of "ev # more"] by simp
    with rcv_step(1-3) seen show ?thesis unfolding rcv_follows_def by (intro exI [of _ "evs @ [ev]"]) simp
  next
    case (rcv_break_step ev r)
    then have "rcv_loop (x_wsize x) (x_mode x) r0 ((evs @ [ev]) @ more) = Returned r more" for more
      using f [of "ev # more"] by simp
    with rcv_break_step(1,3) seen show ?thesis unfolding rcv_follows_def by (intro exI [of _ "evs @ [ev]"]) simp
  qed
qed

lemma snd_loop_after_head:
  assumes "s_shift s < npacket x" and "s_shift s1 = s_shift s" and "snd_head x s = Inr s1" and "snd_head x s1 = Inr s1"
  shows "snd_loop x s evs = snd_loop x s1 evs"
  using assms by (cases evs) simp_all

context arq
begin

lemma snd_follows_step:
  assumes x: "xfer_ok x" "x_mode x = mode" and inv: "sys_inv x b y"
    and step: "sys_step x y z" and fol: "snd_follows x s0 y"
  shows "snd_follows x s0 z"
proof -
  obtain sn where wf: "snd_wf x b (y_snd y) sn" and net: "data_net x b sn (ep_out (s_ep (y_snd y)))"
    and pc: "y_pc y = At_Recv \<longrightarrow> s_shift (y_snd y) < sn"
    using inv unfolding sys_inv_def by blast
  have more: "s_shift (y_snd y) < npacket x" if "y_pc y = At_Recv" using that wf pc by (simp add: snd_wf_def)
  have head: "snd_head x s = Inr s" if "snd_wf x b s n" "s_shift s < n" for s n
    using snd_wf_same [OF x(1) that(1)] that(2) by (simp add: snd_head_def)
  from fol obtain evs where old: "\<And>ev. ev \<in> set evs \<Longrightarrow> from_peer (ep_out (r_ep (y_rcv y))) ev"
    and f: "\<And>more. if y_pc y = At_Break
     then \<exists>s. snd_loop x s0 (evs @ more) = Returned s more \<and> y_snd y = s\<lparr>s_ep := s_ep (y_snd y)\<rparr>
     else snd_loop x s0 (evs @ more) = snd_loop x (y_snd y) more" unfolding snd_follows_def by blast
  have seen: "\<forall>ev \<in> set evs. from_peer (ep_out (r_ep (y_rcv z))) ev"
    using old from_peer_mono [OF _ sys_step_out(2) [OF step]] by blast
  from step show ?thesis
  proof cases
    case (snd_burst_step s)
    from snd_head_inv [OF x(1) wf snd_burst_step(3) net] snd_burst_step(4) obtain n where
      n: "snd_wf x b s n" "s_shift s < n" "s_shift s = s_shift (y_snd y)" by auto
    have "snd_loop x (y_snd y) more = snd_loop x s more" for more
      using snd_burst_step(3) n(3) snd_burst_step(4) head [OF n(1,2)] by (rule snd_loop_after_head)
    then show ?thesis using f seen snd_burst_step(1,2) unfolding snd_follows_def
      by (intro exI [of _ evs]) simp
  next
    case (snd_recv_step ev s)
    have "snd_loop x s0 ((evs @ [ev]) @ more) = snd_loop x s more" for more
      using f [of "ev # more"] snd_recv_step(2,4) more pc head [OF wf] by simp
    then show ?thesis using seen snd_recv_step(1,3) unfolding snd_follows_def
      by (intro exI [of _ "evs @ [ev]"]) simp
  next
    case (snd_fin_step ep)
    have "\<exists>s. snd_loop x s0 (evs @ more) = Returned s more \<and> y_snd y = s\<lparr>s_ep := s_ep (y_snd y)\<rparr>" for more
    proof (cases "y_pc y = At_Break")
      case True
      then show ?thesis using f [of more] by simp
    next
      case False
      then have "npacket x \<le> s_shift (y_snd y)" using snd_fin_step(2) by simp
      then have "snd_loop x (y_snd y) more = Returned (y_snd y) more" by (cases more) simp_all
      then show ?thesis using f [of more] False by simp
    qed
    then show ?thesis using seen snd_fin_step(1) unfolding snd_follows_def
      by (intro exI [of _ evs]) (simp, metis sender.surjective sender.update_convs(1))
  next
    case (rcv_step ev r)
    with f seen show ?thesis unfolding snd_follows_def by (intro exI [of _ evs]) simp
  next
    case (rcv_break_step ev r)
    with f seen show ?thesis unfolding snd_follows_def by (intro exI [of _ evs]) simp
  qed
qed

lemma run_follows:
  assumes x: "xfer_ok x" "x_mode x = mode" and init: "sys_init x b y0" and steps: "(sys_step x)\<^sup>*\<^sup>* y0 y"
  shows "snd_follows x (y_snd y0) y \<and> rcv_follows x (y_rcv y0) y"
  using steps
proof (induction rule: rtranclp_induct)
  case base
  have "y_pc y0 = At_Head" "\<not> y_done y0" using init by (simp_all add: sys_init_def Let_def)
  then show ?case unfolding snd_follows_def rcv_follows_def by (intro conjI exI [of _ "[]"]) simp_all
next
  case (step y z)
  have "sys_inv x b y" using run.steps_inv [of "(x, b)" y0 y] step.hyps(1) x sys_inv_init [OF x(1) init] by simp
  then show ?case using step snd_follows_step [OF x] rcv_follows_step by blast
qed

end

end
