(* ===== verification/Rtp.thy ===== *)
theory Rtp
  imports Programs
begin

text \<open>
  The protocol as a whole: what the two programs of \<open>lab2/src\<close> promise about the file when
  they run against each other over a network that loses, delays, duplicates, reorders and
  corrupts datagrams (\<open>from_peer\<close>), for both values of the \<open>mode\<close> argument.
\<close>

section \<open>A small concrete run\<close>

definition demo_sys :: "nat \<Rightarrow> int \<Rightarrow> sys" where
  "demo_sys n mode = sys_start (demo_xfer n mode) demo_ep demo_packet demo_ep demo_packet (replicate MAXBUF 0)"

lemma demo_total [simp]: "total (demo_xfer 3000 mode) = 3000" "min 3000 MAXBUF = 3000"
  by (simp_all add: total_eq MAXBUF_def PAYLOAD_MAX_def)

lemma demo_init: "sys_init (demo_xfer n mode) 0 (demo_sys n mode)"
  unfolding demo_sys_def by (rule sys_start_init) (simp_all add: demo_ep_def seq_ok_def EAGAIN_def)

lemma demo_reach: "reachable (sys_init (demo_xfer n mode) 0) (sys_step (demo_xfer n mode)) (demo_sys n mode)"
  by (rule reach_init) (rule demo_init)

lemma demo_can_run: "can_run (demo_sys n mode)"
  by (simp add: can_run_def demo_sys_def sys_start_def snd_start_def rcv_start_def demo_ep_def reliable_def)

lemma demo_no_wrap: "no_wrap 0 (npacket (demo_xfer 3000 mode))" "no_wrap 0 (npacket (demo_xfer 2922 mode))"
  by (simp_all add: no_wrap_def)

section \<open>Both modes\<close>

lemma sys_inv_cases:
  assumes "xfer_ok x" and "x_mode x = 0 \<or> x_mode x = 1" and "reachable (sys_init x b) (sys_step x) y"
  obtains (gbn) "x_mode x = 0" and "gbn.sys_inv x b y" | (sr) "x_mode x = 1" and "sr.sys_inv x b y"
  using assms gbn.reachable_sys_inv [of x b y] sr.reachable_sys_inv [of x b y] by blast

lemma reach_sent:
  assumes "xfer_ok x" and "x_mode x = 0 \<or> x_mode x = 1" and "reachable (sys_init x b) (sys_step x) y"
    and "can_run y" and "no_wrap b (npacket x)"
  shows "\<exists>z. reachable (sys_init x b) (sys_step x) z \<and> can_run z \<and> npacket x \<le> s_shift (y_snd z)"
  using assms(1-3)
proof (cases rule: sys_inv_cases)
  case gbn
  with gbn_live.can_complete [OF assms(1)] assms(4,5) reachable_steps [OF assms(3)] show ?thesis by blast
next
  case sr
  with sr_live.can_complete [OF assms(1)] assms(4,5) reachable_steps [OF assms(3)] show ?thesis by blast
qed

lemma finished_transfer:
  assumes "xfer_ok x" and "x_mode x = 0 \<or> x_mode x = 1"
    and "reachable (sys_init x b) (sys_step x) y" and "npacket x \<le> s_shift (y_snd y)"
  shows "write_file True True (r_buf (y_rcv y)) (r_fsize (y_rcv y)) = Inr (take (total x) (x_buf x))"
  using assms(1-3)
proof (cases rule: sys_inv_cases)
  case gbn
  with gbn.finished_delivered [OF assms(1)] assms(4) show ?thesis by blast
next
  case sr
  with sr.finished_delivered [OF assms(1)] assms(4) show ?thesis by blast
qed

text \<open>C6: whatever the network did, once the sender's \<open>transfer_data\<close> has seen every packet
  acknowledged, what the receiver holds, and what its \<open>write_file\<close> would write at that moment, is exactly
  the bytes the sender's packets carry: \<open>total x\<close> bytes, a prefix of the file.\<close>

theorem finished_transfer_delivers:
  assumes "xfer_ok x" and "x_mode x = 0 \<or> x_mode x = 1"
    and "reachable (sys_init x b) (sys_step x) y" and "npacket x \<le> s_shift (y_snd y)"
  shows "write_file True True (r_buf (y_rcv y)) (r_fsize (y_rcv y)) = Inr (take (total x) (x_buf x))"
  using assms by (rule finished_transfer)

theorem finished_transfer_delivers_witness:
  "\<exists>y. reachable (sys_init (demo_xfer 3000 1) 0) (sys_step (demo_xfer 3000 1)) y
    \<and> write_file True True (r_buf (y_rcv y)) (r_fsize (y_rcv y)) = Inr (replicate 3000 7)"
proof -
  obtain y where "reachable (sys_init (demo_xfer 3000 1) 0) (sys_step (demo_xfer 3000 1)) y"
    "npacket (demo_xfer 3000 1) \<le> s_shift (y_snd y)"
    using reach_sent [OF demo_xfer_ok(1) _ demo_reach demo_can_run demo_no_wrap(1), of 1] by auto
  with finished_transfer_delivers [OF demo_xfer_ok(1) _ this] demo_total show ?thesis by auto
qed

text \<open>A receiver that leaves its loop because a packet with a valid checksum and the FIN flag
  arrived, which only the sender's \<open>break_connection\<close> sends, writes all the bytes that the sender's packets carry.\<close>

theorem fin_ends_complete_transfer:
  assumes "xfer_ok x" and "x_mode x = 0 \<or> x_mode x = 1"
    and "reachable (sys_init x b) (sys_step x) y"
    and "from_peer (ep_out (s_ep (y_snd y))) (Datagram sa m)"
    and "decode_packet (take RTP_PACKET_SIZE m) = Some d"
    and "rcv_iter (x_wsize x) (x_mode x) (y_rcv y) (Datagram sa m) = Inr (R_Break r)"
  shows "write_file True True (r_buf r) (r_fsize r) = Inr (take (total x) (x_buf x))"
  using assms(1-3)
proof (cases rule: sys_inv_cases)
  case gbn
  with gbn.fin_delivered [OF assms(1)] assms(4-6) show ?thesis by blast
next
  case sr
  with sr.fin_delivered [OF assms(1)] assms(4-6) show ?thesis by blast
qed

lemma fin_message_breaks:
  assumes "ep_errno (r_ep r) \<noteq> EAGAIN"
  shows "\<exists>r'. rcv_iter w mode r (Datagram a (wire q RTP_FIN [])) = Inr (R_Break r')"
  using assms by (simp add: rcv_iter_def recv_packet_wire RTP_FIN_def)

lemma reach_fin:
  assumes "xfer_ok x" and "x_mode x = 0 \<or> x_mode x = 1" and "reachable (sys_init x b) (sys_step x) y"
    and "can_run y" and "npacket x \<le> s_shift (y_snd y)"
  shows "\<exists>z a q r. reachable (sys_init x b) (sys_step x) z
    \<and> from_peer (ep_out (s_ep (y_snd z))) (Datagram a (wire q RTP_FIN []))
    \<and> rcv_iter (x_wsize x) (x_mode x) (y_rcv z) (Datagram a (wire q RTP_FIN [])) = Inr (R_Break r)"
proof -
  let ?ep = "s_ep (y_snd y)"
  let ?fin = "?ep\<lparr>ep_timeo := (0, SEND_MS * 1000), ep_out := ep_out ?ep @ [(ep_addr ?ep, wire (ep_sqn ?ep) RTP_FIN [])]\<rparr>"
  let ?z = "y\<lparr>y_snd := (y_snd y)\<lparr>s_ep := ?fin\<rparr>, y_pc := At_Break\<rparr>"
  have head: "y_pc y = At_Head \<and> ep_errno (r_ep (y_rcv y)) \<noteq> EAGAIN"
    using assms(1-3)
  proof (cases rule: sys_inv_cases)
    case gbn
    then show ?thesis using assms(4,5) unfolding gbn.sys_inv_def
      by (cases "y_pc y") (auto simp: can_run_def snd_wf_def gbn_inv_def rcv_wf_def)
  next
    case sr
    then show ?thesis using assms(4,5) unfolding sr.sys_inv_def
      by (cases "y_pc y") (auto simp: can_run_def snd_wf_def sr_inv_def rcv_wf_def)
  qed
  then have "sys_step x y ?z" using assms(4,5)
    by (intro snd_fin_step) (auto simp: can_run_def reliable_def set_sock_recv_time_def send_packet_ctl sendto_def)
  then have "reachable (sys_init x b) (sys_step x) ?z" using assms(3) by (rule reach_step [rotated])
  moreover obtain r where "rcv_iter (x_wsize x) (x_mode x) (y_rcv ?z)
      (Datagram (ep_addr ?ep) (wire (ep_sqn ?ep) RTP_FIN [])) = Inr (R_Break r)"
    using fin_message_breaks [of "y_rcv y"] head by fastforce
  moreover have "from_peer (ep_out (s_ep (y_snd ?z))) (Datagram (ep_addr ?ep) (wire (ep_sqn ?ep) RTP_FIN []))"
    by (simp add: from_peer_def)
  ultimately show ?thesis by blast
qed

theorem fin_ends_complete_transfer_witness:
  "\<exists>z a q r. reachable (sys_init (demo_xfer 3000 0) 0) (sys_step (demo_xfer 3000 0)) z
    \<and> rcv_iter 2 0 (y_rcv z) (Datagram a (wire q RTP_FIN [])) = Inr (R_Break r)
    \<and> write_file True True (r_buf r) (r_fsize r) = Inr (replicate 3000 7)"
proof -
  obtain y where "reachable (sys_init (demo_xfer 3000 0) 0) (sys_step (demo_xfer 3000 0)) y" "can_run y"
    "npacket (demo_xfer 3000 0) \<le> s_shift (y_snd y)"
    using reach_sent [OF demo_xfer_ok(1) _ demo_reach demo_can_run demo_no_wrap(1), of 0] by auto
  from reach_fin [OF demo_xfer_ok(1) _ this] obtain z a q r where
    z: "reachable (sys_init (demo_xfer 3000 0) 0) (sys_step (demo_xfer 3000 0)) z"
      "from_peer (ep_out (s_ep (y_snd z))) (Datagram a (wire q RTP_FIN []))"
      "rcv_iter (x_wsize (demo_xfer 3000 0)) (x_mode (demo_xfer 3000 0)) (y_rcv z) (Datagram a (wire q RTP_FIN [])) = Inr (R_Break r)"
    by auto
  have "decode_packet (take RTP_PACKET_SIZE (wire q RTP_FIN [])) = Some (q, RTP_FIN, [])"
    by (simp add: wire_fits decode_wire)
  from fin_ends_complete_transfer [OF demo_xfer_ok(1) _ z(1,2) this z(3)]
  have "write_file True True (r_buf r) (r_fsize r) = Inr (replicate 3000 7)" by simp
  then show ?thesis using z(1,3) demo_xfer_simps(3,4) by metis
qed

text \<open>C9: as long as both programs are in their loops, nothing is lost for good. The first sequence number is 0, as the
  handshake leaves it, the window is positive and the mode is 0 or 1. From every reachable state in which the sender has not left
  its loop, the receiver has not left its loop and system calls succeed (\<open>can_run\<close>), some behaviour of the network (a
  timeout, then delivery) lets the transfer complete, the FIN arrive and the receiver leave its loop holding the bytes sent. A
  receiver that has left its loop, on a timeout or a corrupted FIN, does not come back: such states are excluded.\<close>

theorem transfer_can_complete:
  assumes "xfer_ok x" and "x_mode x = 0 \<or> x_mode x = 1"
    and "reachable (sys_init x 0) (sys_step x) y" and "can_run y"
  shows "\<exists>z. (sys_step x)\<^sup>*\<^sup>* y z \<and> y_done z \<and> y_pc z = At_Break
    \<and> write_file True True (r_buf (y_rcv z)) (r_fsize (y_rcv z)) = Inr (take (total x) (x_buf x))"
proof -
  have nw: "no_wrap 0 (npacket x)" using xfer_ok_small [OF assms(1)] by (simp add: no_wrap_def)
  from assms(1-3) show ?thesis
  proof (cases rule: sys_inv_cases)
    case gbn
    from gbn_live.completes [OF assms(1) gbn assms(4) nw] show ?thesis by blast
  next
    case sr
    from sr_live.completes [OF assms(1) sr assms(4) nw] show ?thesis by blast
  qed
qed

theorem transfer_can_complete_witness:
  "\<exists>z. (sys_step (demo_xfer 3000 1))\<^sup>*\<^sup>* (demo_sys 3000 1) z \<and> y_done z
    \<and> write_file True True (r_buf (y_rcv z)) (r_fsize (y_rcv z)) = Inr (replicate 3000 7)"
  using transfer_can_complete [OF demo_xfer_ok(1) _ demo_reach demo_can_run, of 1] by auto

text \<open>No reachable state of either program runs into undefined behaviour: not in the sender's burst, not when it
  handles any event (acknowledgements in any order, timeouts, corrupted datagrams), not in the receiver; every write to
  \<open>buf\<close> and \<open>window\<close> is in bounds and no counter overflows.\<close>

theorem transfer_no_undefined_behaviour:
  assumes "xfer_ok x" and "x_mode x = 0 \<or> x_mode x = 1" and "reachable (sys_init x b) (sys_step x) y"
    and "s_shift (y_snd y) < npacket x" and "from_peer (ep_out (r_ep (y_rcv y))) ev" and "y_pc y = At_Recv"
    and "from_peer (ep_out (s_ep (y_snd y))) ev2"
  shows "snd_head x (y_snd y) \<noteq> Inl Undef \<and> snd_iter x (y_snd y) ev \<noteq> Inl Undef
    \<and> rcv_iter (x_wsize x) (x_mode x) (y_rcv y) ev2 \<noteq> Inl Undef"
  using assms(1-3)
proof (cases rule: sys_inv_cases)
  case gbn
  with gbn.no_undef [OF assms(1)] assms(4-7) show ?thesis by blast
next
  case sr
  with sr.no_undef [OF assms(1)] assms(4-7) show ?thesis by blast
qed

lemma reach_recv:
  assumes "xfer_ok x" and "x_mode x = 0 \<or> x_mode x = 1" and "reachable (sys_init x b) (sys_step x) y"
    and "can_run y" and "s_shift (y_snd y) < npacket x"
  shows "\<exists>z. reachable (sys_init x b) (sys_step x) z \<and> y_pc z = At_Recv \<and> s_shift (y_snd z) < npacket x"
  using assms(1-3)
proof (cases rule: sys_inv_cases)
  case gbn
  from gbn_live.to_recv [OF assms(1) gbn assms(4,5)] obtain s where
    "(sys_step x)\<^sup>*\<^sup>* y (y\<lparr>y_snd := s, y_pc := At_Recv\<rparr>)" "s_shift s = s_shift (y_snd y)" by blast
  with assms(5) reachable_steps [OF assms(3)] show ?thesis
    by (intro exI [of _ "y\<lparr>y_snd := s, y_pc := At_Recv\<rparr>"]) simp
next
  case sr
  from sr_live.to_recv [OF assms(1) sr assms(4,5)] obtain s where
    "(sys_step x)\<^sup>*\<^sup>* y (y\<lparr>y_snd := s, y_pc := At_Recv\<rparr>)" "s_shift s = s_shift (y_snd y)" by blast
  with assms(5) reachable_steps [OF assms(3)] show ?thesis
    by (intro exI [of _ "y\<lparr>y_snd := s, y_pc := At_Recv\<rparr>"]) simp
qed

theorem transfer_no_undefined_behaviour_witness:
  "\<exists>y. reachable (sys_init (demo_xfer 3000 0) 0) (sys_step (demo_xfer 3000 0)) y \<and> y_pc y = At_Recv
    \<and> snd_iter (demo_xfer 3000 0) (y_snd y) (Recv_Error EAGAIN) \<noteq> Inl Undef"
proof -
  have "s_shift (y_snd (demo_sys 3000 0)) < npacket (demo_xfer 3000 0)"
    by (simp add: demo_sys_def sys_start_def snd_start_def)
  from reach_recv [OF demo_xfer_ok(1) _ demo_reach demo_can_run this] obtain y where
    y: "reachable (sys_init (demo_xfer 3000 0) 0) (sys_step (demo_xfer 3000 0)) y" "y_pc y = At_Recv"
      "s_shift (y_snd y) < npacket (demo_xfer 3000 0)" by auto
  with transfer_no_undefined_behaviour [OF demo_xfer_ok(1) _ y(1,3) _ y(2), of "Recv_Error EAGAIN" "Recv_Error EAGAIN"]
  show ?thesis by (auto simp: from_peer_def)
qed

section \<open>Reaching the transfer, and what it loses\<close>

text \<open>C11: when both \<open>establish_connection\<close> functions return and every packet the receiver took for valid came from this
  sender, the two ends agree on the sequence number and the transfer starts in an initial state of the system.\<close>

theorem handshake_starts_transfer:
  assumes "snd_establish_connection ldebug ep pkt evs = Returned ep' rest"
    and "rcv_establish_connection ldebug2 ep2 pkt2 evs2 = Returned ep2' rest2"
    and "ep_errno ep \<noteq> EAGAIN" and "ep_errno ep2 \<noteq> EAGAIN" and "ep_out ep = []" and "ep_out ep2 = []"
    and "\<forall>ev \<in> set evs2. from_peer (ep_out ep') ev" and "length buf = MAXBUF"
  shows "ep_sqn ep2' = ep_sqn ep' \<and> sys_init x 0 (sys_start x ep' packet ep2' packet2 buf)"
  using handshake_agrees_lemma [OF assms(1-5,7)] handshake_starts [OF assms] by blast

theorem handshake_starts_transfer_witness:
  "\<exists>(ep :: endpoint) (ep2 :: endpoint). snd_establish_connection False demo_ep demo_packet demo_snd_events = Returned ep []
    \<and> rcv_establish_connection False demo_ep demo_packet demo_rcv_events = Returned ep2 []
    \<and> sys_init (demo_xfer 3000 0) 0
        (sys_start (demo_xfer 3000 0) ep demo_packet ep2 demo_packet (replicate MAXBUF 0))"
proof -
  obtain ep where s: "snd_establish_connection False demo_ep demo_packet demo_snd_events = Returned ep []"
    "map snd (ep_out ep) = [wire 0x7FFFFFFF RTP_SYN [], wire 0 RTP_ACK []]"
    using demo_snd_establish by (elim exE conjE)
  obtain ep2 where r: "rcv_establish_connection False demo_ep demo_packet demo_rcv_events = Returned ep2 []"
    using demo_rcv_establish by (elim exE)
  have "snd ` set (ep_out ep) = {wire 0x7FFFFFFF RTP_SYN [], wire 0 RTP_ACK []}"
    using arg_cong [OF s(2), of set] by simp
  then have "\<forall>ev \<in> set demo_rcv_events. from_peer (ep_out ep) ev"
    by (simp add: demo_rcv_events_def from_peer_def)
  with handshake_starts_transfer [OF s(1) r] s(1) r show ?thesis
    by (auto simp: demo_ep_def EAGAIN_def)
qed

lemma total_read:
  assumes "0 < length content" and "length content \<le> MAXBUF" and "length buf = MAXBUF"
    and "read_file (Some content) True buf (int MAXBUF) = Inr (fsize, buf')"
    and "x_buf x = buf'" and "x_fsize x = nat fsize"
  shows "take (total x) (x_buf x) =
    (if length content mod 1461 = 0 then take (length content - 1461) content else content)"
proof -
  have "length content \<le> INT_MAX" using assms(2) by (simp add: MAXBUF_def INT_MAX_def)
  from read_file_carried [OF this assms(3), of True] assms(2,4) have r: "fsize = int (length content)"
    "buf' = content @ drop (length content) buf" by simp_all
  then have n: "0 < npacket x" using assms(1,6)
    by (simp add: npacket_def PAYLOAD_MAX_def div_greater_zero_iff Suc_le_eq)
  show ?thesis unfolding total_eq [OF n] using r assms(5,6) by (simp add: PAYLOAD_MAX_def)
qed

text \<open>What the whole path from \<open>read_file\<close> over the network to \<open>write_file\<close> delivers. A non-empty file
  whose size is not a multiple of 1461 bytes arrives whole; of any other non-empty file the last 1461 bytes are
  lost, because \<open>tsize\<close> is then 0 and the last packet is sent empty.\<close>

theorem full_last_packet_is_lost:
  assumes "read_file (Some content) True buf (int MAXBUF) = Inr (fsize, buf')"
    and "x = \<lparr>x_buf = buf', x_fsize = nat fsize, x_wsize = wsize, x_mode = mode\<rparr>"
    and "0 < length content" and "length content \<le> MAXBUF" and "length buf = MAXBUF"
    and "xfer_ok x" and "mode = 0 \<or> mode = 1"
    and "reachable (sys_init x b) (sys_step x) y" and "npacket x \<le> s_shift (y_snd y)"
  shows "write_file True True (r_buf (y_rcv y)) (r_fsize (y_rcv y)) =
    Inr (if length content mod 1461 = 0 then take (length content - 1461) content else content)"
proof -
  have "x_mode x = 0 \<or> x_mode x = 1" using assms(2,7) by auto
  from finished_transfer [OF assms(6) this assms(8,9)] total_read [OF assms(3-5,1), of x] assms(2)
  show ?thesis by simp
qed

theorem full_last_packet_is_lost_witness:
  "\<exists>y. reachable (sys_init (demo_xfer 2922 0) 0) (sys_step (demo_xfer 2922 0)) y
    \<and> write_file True True (r_buf (y_rcv y)) (r_fsize (y_rcv y)) = Inr (replicate 1461 7)"
proof -
  let ?c = "replicate 2922 7 :: u8 list" and ?b = "replicate MAXBUF 7 :: u8 list"
  obtain y where y: "reachable (sys_init (demo_xfer 2922 0) 0) (sys_step (demo_xfer 2922 0)) y"
    "npacket (demo_xfer 2922 0) \<le> s_shift (y_snd y)"
    using reach_sent [OF demo_xfer_ok(2) _ demo_reach demo_can_run demo_no_wrap(2), of 0] by auto
  have "replicate MAXBUF 7 = ?c @ replicate (MAXBUF - 2922) 7"
    by (simp add: MAXBUF_def flip: replicate_add)
  then have "read_file (Some ?c) True ?b (int MAXBUF) = Inr (2922, ?b)"
    by (subst read_file_ok) (simp_all add: MAXBUF_def INT_MAX_def min_def)
  moreover have "demo_xfer 2922 0 = \<lparr>x_buf = ?b, x_fsize = nat 2922, x_wsize = 2, x_mode = 0\<rparr>"
    by (simp add: demo_xfer_def)
  ultimately have "write_file True True (r_buf (y_rcv y)) (r_fsize (y_rcv y)) =
      Inr (if length ?c mod 1461 = 0 then take (length ?c - 1461) ?c else ?c)"
    by (rule full_last_packet_is_lost) (use y demo_xfer_ok(2) in \<open>simp_all add: MAXBUF_def\<close>)
  then have "write_file True True (r_buf (y_rcv y)) (r_fsize (y_rcv y)) = Inr (replicate 1461 7)" by simp
  with y(1) show ?thesis by blast
qed

end
