(* ===== verification/Rtp_Main.thy ===== *)
theory Rtp_Main
  imports Rtp
begin

text \<open>
  The two \<open>main\<close> functions against each other, from the first SYN to the file on disk. What one program received need not have
  been sent before: it is enough that every valid datagram it was handed is among those that its peer sends in its whole run. The sender's
  conduct does not depend on what arrives, the receiver's only on that conduct, and that closes the circle.
\<close>

section \<open>What a run satisfies\<close>

text \<open>\<open>run_sat W R m\<close>: the run fails only by \<open>LOG_FATAL\<close>, satisfies \<open>W\<close> where it waits and \<open>R\<close> where it returns.\<close>

definition run_sat :: "(endpoint \<Rightarrow> bool) \<Rightarrow> ('a \<Rightarrow> sock_event list \<Rightarrow> bool) \<Rightarrow> 'a run \<Rightarrow> bool" where
  "run_sat W R m = (case m of Returned x evs \<Rightarrow> R x evs | Waiting ep \<Rightarrow> W ep | Failed e \<Rightarrow> e = Log_Fatal)"

lemma run_sat_simps [simp]:
  "run_sat W R (Returned x evs) = R x evs" "run_sat W R (Waiting ep) = W ep" "run_sat W R (Failed e) = (e = Log_Fatal)"
  by (simp_all add: run_sat_def)

lemma run_sat_bind:
  "run_sat W R m \<Longrightarrow> (\<And>x evs. R x evs \<Longrightarrow> run_sat W Q (f x evs)) \<Longrightarrow> run_sat W Q (bind_run m f)"
  by (cases m) auto

lemma run_sat_call: "(\<And>e. m = Inl e \<Longrightarrow> e = Log_Fatal) \<Longrightarrow> (\<And>x. m = Inr x \<Longrightarrow> R x evs) \<Longrightarrow> run_sat W R (call m evs)"
  by (cases m) auto

lemma run_satI:
  assumes "\<And>e. m = Failed e \<Longrightarrow> e = Log_Fatal" and "\<And>ep. m = Waiting ep \<Longrightarrow> W ep" and "\<And>x evs. m = Returned x evs \<Longrightarrow> R x evs"
  shows "run_sat W R m"
  using assms by (cases m) auto

lemma run_sat_mono:
  "run_sat W R m \<Longrightarrow> (\<And>ep. W ep \<Longrightarrow> W' ep) \<Longrightarrow> (\<And>x evs. R x evs \<Longrightarrow> R' x evs) \<Longrightarrow> run_sat W' R' m"
  by (cases m) auto

lemma set_sock_recv_time_Inl: "set_sock_recv_time ep sec msec = Inl e \<Longrightarrow> e = Log_Fatal"
  by (auto simp: set_sock_recv_time_def Let_def split: if_splits)

section \<open>The sender, whatever arrives\<close>

context arq
begin

definition acked_by :: "xfer \<Rightarrow> u32 \<Rightarrow> sock_event list \<Rightarrow> nat set \<Rightarrow> bool" where
  "acked_by x b evs M \<longleftrightarrow> (\<forall>G out. ack_net (ack_ok G) x b out \<longrightarrow> (\<forall>ev \<in> set evs. from_peer out ev) \<longrightarrow> M \<subseteq> G \<longrightarrow> {..<npacket x} \<subseteq> G)"

lemma acked_by_mono: "acked_by x b evs M \<Longrightarrow> set evs \<subseteq> set evs' \<Longrightarrow> acked_by x b evs' M"
  by (auto simp: acked_by_def)

lemma snd_loop_sat:
  assumes x: "xfer_ok x" "x_mode x = mode" and marked: "snd_marked x b s sn (smark s)"
    and net: "data_net x b sn (ep_out (s_ep s))" "no_fin (ep_out (s_ep s))"
  shows "run_sat (\<lambda>ep. data_net x b (npacket x) (ep_out ep) \<and> no_fin (ep_out ep))
    (\<lambda>s' rest. ep_errno (s_ep s') \<noteq> EAGAIN \<and> data_net x b (npacket x) (ep_out (s_ep s')) \<and> acked_by x b evs (smark s))
    (snd_loop x s evs)"
  using marked net unfolding acked_by_def
proof (induction evs arbitrary: s sn)
  case (Nil s sn)
  have wf: "snd_wf x b s sn" using Nil.prems(1) by (simp add: snd_marked_def)
  have all: "data_net x b (npacket x) out" if "data_net x b n out" "n \<le> npacket x" for n out
    using data_net_append [OF that, of "[]"] by simp
  show ?case
  proof (cases "s_shift s < npacket x")
    case True
    from snd_head_inv [OF x(1) wf True Nil.prems(2)] True Nil.prems(3) all show ?thesis
      by (cases "snd_head x s") (auto simp: snd_wf_def)
  next
    case False
    with smark_below [of s] all [OF Nil.prems(2)] wf show ?thesis by (fastforce simp: snd_wf_def)
  qed
next
  case (Cons ev evs s sn)
  have wf: "snd_wf x b s sn" using Cons.prems(1) by (simp add: snd_marked_def)
  show ?case
  proof (cases "s_shift s < npacket x")
    case False
    then have "data_net x b (npacket x) (ep_out (s_ep s))"
      using data_net_append [OF Cons.prems(2), of "npacket x" "[]"] wf by (simp add: snd_wf_def)
    with False smark_below [of s] wf show ?thesis by (fastforce simp: snd_wf_def)
  next
    case True
    note head = snd_head_inv [OF x(1) wf True Cons.prems(2)]
    show ?thesis
    proof (cases "snd_head x s")
      case (Inl e)
      with head True show ?thesis by simp
    next
      case h: (Inr s1)
      with head obtain sn1 where s1: "snd_wf x b s1 sn1" "sn \<le> sn1" "s_shift s1 < sn1" "s_shift s1 = s_shift s" "smark s1 = smark s"
        "data_net x b sn1 (ep_out (s_ep s1))" "no_fin (ep_out (s_ep s1))" using Cons.prems(3) by auto
      then have m1: "snd_marked x b s1 sn1 (smark s1)" using Cons.prems(1) by (auto simp: snd_marked_def)
      note it = snd_iter_inv [OF x m1 s1(3,6), of ev]
      show ?thesis
      proof (cases "snd_iter x s1 ev")
        case (Inl e)
        with it h True show ?thesis by simp
      next
        case i: (Inr s2)
        with it s1(7) have s2: "snd_marked x b s2 sn1 (smark s2)" "data_net x b sn1 (ep_out (s_ep s2))" "no_fin (ep_out (s_ep s2))"
          "\<And>G out. ack_net (ack_ok G) x b out \<Longrightarrow> from_peer out ev \<Longrightarrow> smark s \<subseteq> G \<Longrightarrow> smark s2 \<subseteq> G"
          using s1(5) by auto
        have "snd_loop x s (ev # evs) = snd_loop x s2 evs" using True h i by simp
        with Cons.IH [OF s2(1-3)] show ?thesis by (simp only:, elim run_sat_mono) (use s2(4) in auto)
      qed
    qed
  qed
qed

lemma rcv_loop_sat:
  assumes x: "xfer_ok x" "x_mode x = mode" and net: "data_net x b (npacket x) out" and ev: "\<forall>ev \<in> set evs. from_peer out ev"
    and r: "rinv x b r" "got r \<subseteq> {..<npacket x}" "ack_net (ack_ok (got r)) x b (ep_out (r_ep r))"
  shows "run_sat (\<lambda>_. True) (\<lambda>r' rest. set rest \<subseteq> set evs \<and> rinv x b r' \<and> got r' \<subseteq> {..<npacket x}
      \<and> ack_net (ack_ok (got r')) x b (ep_out (r_ep r'))) (rcv_loop (x_wsize x) (x_mode x) r evs)"
  using ev r
proof (induction evs arbitrary: r)
  case (Cons ev evs r)
  note it = rcv_iter_inv [OF x Cons.prems(2) net order_refl Cons.prems(3,4), of ev]
  show ?case
  proof (cases "rcv_iter (x_wsize x) (x_mode x) r ev")
    case (Inl e)
    with it Cons.prems(1) show ?thesis by simp
  next
    case (Inr res)
    show ?thesis
    proof (cases res)
      case (R_Break r')
      with it Inr Cons.prems(1) have "rinv x b r'" "got r' = got r" "ep_out (r_ep r') = ep_out (r_ep r)" by simp_all
      with Inr R_Break Cons.prems(3,4) show ?thesis by (simp add: subset_insertI)
    next
      case (R_Continue r')
      with it Inr Cons.prems(1) have "rinv x b r'" "got r' \<subseteq> {..<npacket x}" "ack_net (ack_ok (got r')) x b (ep_out (r_ep r'))" by simp_all
      from Cons.IH [OF _ this] Cons.prems(1) have "run_sat (\<lambda>_. True) (\<lambda>r' rest. set rest \<subseteq> set evs \<and> rinv x b r' \<and> got r' \<subseteq> {..<npacket x}
        \<and> ack_net (ack_ok (got r')) x b (ep_out (r_ep r'))) (rcv_loop (x_wsize x) (x_mode x) r' evs)" by simp
      then show ?thesis using Inr R_Continue by (simp, elim run_sat_mono) auto
    qed
  qed
qed simp

end

section \<open>The phases of the sender\<close>

lemma bind_run_Failed:
  "bind_run r f = Failed e \<longleftrightarrow> r = Failed e \<or> (\<exists>x evs. r = Returned x evs \<and> f x evs = Failed e)"
  by (cases r) auto

lemma call_Failed: "call r evs = Failed e \<longleftrightarrow> r = Inl e"
  by (cases r) auto

lemma recv_run_Failed: "recv_run ep pkt evs = Failed e \<Longrightarrow> e = Log_Fatal"
  by (cases evs) (auto simp: call_Failed dest: recv_packet_fault)

lemmas fails = bind_run_Failed call_Failed bind_res_Inl send_packet_ctl

lemmas fault_dests = recv_run_Failed recv_packet_fault sendto_Inl set_sock_recv_time_Inl syn.fails fin.fails synack.fails

definition greets :: "u32 \<Rightarrow> u8 \<Rightarrow> u8 list \<Rightarrow> bool" where
  "greets q f d \<longleftrightarrow> f = RTP_SYN \<and> seqnum_add q 1 = 0 \<or> f = RTP_ACK"

lemma net_all_greets:
  "map snd out = replicate n (wire 0x7FFFFFFF RTP_SYN []) @ replicate k (wire 0 RTP_ACK []) \<Longrightarrow> net_all greets out"
  unfolding net_all_msgs by (auto simp: wire_fits decode_wire seqnum_add_isn greets_def)

lemma greets_net: "net_all greets out \<Longrightarrow> data_net x 0 n out \<and> no_fin out"
  unfolding data_net_def no_fin_def
  by (intro conjI; erule net_all_mono) (auto simp: greets_def RTP_SYN_def RTP_ACK_def RTP_FIN_def)

lemma snd_establish_sat:
  assumes errno: "ep_errno ep \<noteq> EAGAIN" and fresh: "ep_out ep = []"
  shows "run_sat (\<lambda>ep'. net_all greets (ep_out ep'))
    (\<lambda>ep' rest. set rest \<subseteq> set evs \<and> ep_sqn ep' = 0 \<and> ep_errno ep' \<noteq> EAGAIN \<and> net_all greets (ep_out ep'))
    (snd_establish_connection ldebug ep pkt evs)"
proof (rule run_satI)
  fix e assume "snd_establish_connection ldebug ep pkt evs = Failed e"
  then show "e = Log_Fatal"
    by (auto simp: snd_establish_connection_def Let_def fails split: prod.splits if_splits dest: fault_dests)
next
  fix ep' assume w: "snd_establish_connection ldebug ep pkt evs = Waiting ep'"
  let ?ep1 = "ep\<lparr>ep_sqn := get_random_seqnum, ep_timeo := (0, SEND_MS * 1000),
    ep_out := ep_out ep @ [(ep_addr ep, wire get_random_seqnum RTP_SYN [])]\<rparr>"
  from w consider (syn) "snd_establish_loop ldebug ?ep1 pkt (log_tries ldebug 0) evs = Waiting ep'"
    | (ack) ep2 pkt2 evs2 where "snd_establish_loop ldebug ?ep1 pkt (log_tries ldebug 0) evs = Returned (ep2, pkt2) evs2"
        "map snd (ep_out ep') = map snd (ep_out ep2) @ [wire (seqnum_add (ep_sqn ep2) 1) RTP_ACK []]"
    by (auto simp: snd_establish_connection_def Let_def run_simps split: prod.splits if_splits)
  then obtain n k where "map snd (ep_out ep') = replicate n (wire 0x7FFFFFFF RTP_SYN []) @ replicate k (wire 0 RTP_ACK [])"
  proof cases
    case syn
    from syn.waits [OF this] obtain n where
      "map snd (ep_out ep') = replicate (Suc n) (wire 0x7FFFFFFF RTP_SYN []) @ replicate 0 (wire 0 RTP_ACK [])"
      by (auto simp: fresh get_random_seqnum_def)
    then show thesis by (rule that)
  next
    case ack
    have "ep_errno ?ep1 \<noteq> EAGAIN" using errno by simp
    from syn.returns [OF ack(1) this] obtain pre :: "sock_event list" and ep3 pkt3 where "(ep2, pkt2) = (ep3, pkt3)" "ep_sqn ep3 = ep_sqn ?ep1"
      "map snd (ep_out ep3) = map snd (ep_out ?ep1) @ replicate (length pre) (wire (ep_sqn ?ep1) RTP_SYN [])"
      by blast
    then have "map snd (ep_out ep2) = replicate (Suc (length pre)) (wire 0x7FFFFFFF RTP_SYN [])" "ep_sqn ep2 = get_random_seqnum"
      by (simp_all add: fresh get_random_seqnum_def)
    with ack(2) have
      "map snd (ep_out ep') = replicate (Suc (length pre)) (wire 0x7FFFFFFF RTP_SYN []) @ replicate 1 (wire 0 RTP_ACK [])"
      by (simp add: get_random_seqnum_add)
    then show thesis by (rule that)
  qed
  then show "net_all greets (ep_out ep')" by (rule net_all_greets)
next
  fix ep' rest assume r: "snd_establish_connection ldebug ep pkt evs = Returned ep' rest"
  from snd_establish_returns [OF r errno] obtain n k pre where "evs = pre @ rest" "ep_sqn ep' = 0" "ep_errno ep' \<noteq> EAGAIN"
    "map snd (ep_out ep') = replicate n (wire 0x7FFFFFFF RTP_SYN []) @ replicate k (wire 0 RTP_ACK [])"
    unfolding fresh by (metis append.assoc append_Nil list.simps(8))
  then show "set rest \<subseteq> set evs \<and> ep_sqn ep' = 0 \<and> ep_errno ep' \<noteq> EAGAIN \<and> net_all greets (ep_out ep')"
    by (auto intro: net_all_greets)
qed

lemma snd_break_sat:
  assumes "data_net x b n (ep_out ep)" and "ep_errno ep \<noteq> EAGAIN"
  shows "run_sat (\<lambda>ep'. data_net x b n (ep_out ep')) (\<lambda>ep' rest. data_net x b n (ep_out ep')) (snd_break_connection ldebug ep pkt evs)"
proof -
  have net: "data_net x b n out" if "map snd out = map snd (ep_out ep) @ replicate k (wire q RTP_FIN [])" for out k q
    using assms(1) unfolding data_net_def net_all_msgs that by (auto simp: wire_fits decode_wire RTP_FIN_def RTP_SYN_def)
  show ?thesis
  proof (rule run_satI)
    fix e assume "snd_break_connection ldebug ep pkt evs = Failed e"
    then show "e = Log_Fatal"
      by (auto simp: snd_break_connection_def fails dest: fault_dests)
  next
    fix ep' assume "snd_break_connection ldebug ep pkt evs = Waiting ep'"
    then have "snd_break_loop ldebug (ep\<lparr>ep_timeo := (0, SEND_MS * 1000),
        ep_out := ep_out ep @ [(ep_addr ep, wire (ep_sqn ep) RTP_FIN [])]\<rparr>) pkt (log_tries ldebug 0) evs = Waiting ep'"
      by (auto simp: snd_break_connection_def run_simps)
    from fin.waits [OF this] obtain k where
      "map snd (ep_out ep') = map snd (ep_out ep) @ replicate (Suc k) (wire (ep_sqn ep) RTP_FIN [])" by auto
    then show "data_net x b n (ep_out ep')" by (rule net)
  next
    fix ep' rest assume "snd_break_connection ldebug ep pkt evs = Returned ep' rest"
    from snd_break_returns [OF this assms(2)] show "data_net x b n (ep_out ep')" using net by blast
  qed
qed

context arq
begin

lemma snd_transfer_sat:
  assumes content: "length content \<le> INT_MAX" "length buf = MAXBUF" "0 < wsize"
    and x: "x = \<lparr>x_buf = carried content @ drop (length (carried content)) buf, x_fsize = length (carried content),
      x_wsize = nat wsize, x_mode = mode\<rparr>"
      "xfer_ok x"
    and ep: "ep_sqn ep = 0" "ep_errno ep \<noteq> EAGAIN" "net_all greets (ep_out ep)"
  shows "run_sat (\<lambda>ep'. data_net x 0 (npacket x) (ep_out ep') \<and> no_fin (ep_out ep'))
    (\<lambda>s' rest. ep_errno (s_ep s') \<noteq> EAGAIN \<and> data_net x 0 (npacket x) (ep_out (s_ep s')) \<and> acked_by x 0 evs {})
    (snd_transfer_data (Some content) fclose_ok buf wsize mode ep pkt evs)"
proof -
  let ?ep = "ep\<lparr>ep_timeo := (0, SEND_MS * 1000)\<rparr>"
  let ?s = "snd_start x ?ep pkt"
  note read = read_file_carried [OF content(1,2), of fclose_ok]
  have "smark ?s = {}" by (rule smark_init [of _ "x_wsize x"]) (simp_all add: snd_start_def)
  moreover have "snd_wf x 0 ?s 0"
    using ep x by (simp add: snd_wf_def snd_start_def sq.add_0 seq_ok_def)
  ultimately have "snd_marked x 0 ?s 0 (smark ?s)" "smark ?s = {}" by (simp_all add: snd_marked_def)
  moreover have "data_net x 0 0 (ep_out (s_ep ?s))" "no_fin (ep_out (s_ep ?s))"
    using greets_net [OF ep(3)] by (simp_all add: snd_start_def)
  ultimately have "run_sat (\<lambda>ep'. data_net x 0 (npacket x) (ep_out ep') \<and> no_fin (ep_out ep'))
    (\<lambda>s' rest. ep_errno (s_ep s') \<noteq> EAGAIN \<and> data_net x 0 (npacket x) (ep_out (s_ep s')) \<and> acked_by x 0 evs {})
    (snd_loop x ?s evs)"
    using snd_loop_sat [OF x(2), of 0 ?s 0 evs] x(1) by simp
  then have "run_sat (\<lambda>ep'. data_net x 0 (npacket x) (ep_out ep') \<and> no_fin (ep_out ep'))
    (\<lambda>s' rest. ep_errno (s_ep s') \<noteq> EAGAIN \<and> data_net x 0 (npacket x) (ep_out (s_ep s')) \<and> acked_by x 0 evs {})
    (bind_run (call (set_sock_recv_time ep 0 SEND_MS) evs) (\<lambda>ep evs. snd_loop x (snd_start x ep pkt) evs))"
    by (intro run_sat_bind [where R = "\<lambda>ep' rest. ep' = ?ep \<and> rest = evs"] run_sat_call)
       (auto simp: set_sock_recv_time_Inr dest: set_sock_recv_time_Inl)
  then show ?thesis using content(3) x(1) by (simp add: snd_transfer_data_def read snd_start_def)
qed

lemma sender_main_sat:
  assumes disk: "e_file env (argv ! 3) = Some content" "length content \<le> INT_MAX" "length (e_buf env) = MAXBUF"
    and args: "atoi (argv ! 4) = wsize" "0 < wsize" "atoi (argv ! 5) = mode"
    and x: "x = \<lparr>x_buf = carried content @ drop (length (carried content)) (e_buf env), x_fsize = length (carried content),
      x_wsize = nat wsize, x_mode = mode\<rparr>"
      "xfer_ok x"
    and ep: "ep_errno ep \<noteq> EAGAIN" "ep_out ep = []"
  shows "run_sat (\<lambda>ep'. data_net x 0 (npacket x) (ep_out ep') \<and> (no_fin (ep_out ep') \<or> acked_by x 0 evs {}))
    (\<lambda>ep' rest. data_net x 0 (npacket x) (ep_out ep') \<and> acked_by x 0 evs {})
    (sender_main env ep argv evs)"
proof -
  let ?W = "\<lambda>ep'. data_net x 0 (npacket x) (ep_out ep') \<and> (no_fin (ep_out ep') \<or> acked_by x 0 evs {})"
  let ?ep = "ep\<lparr>ep_addr := (case e_pton env (argv ! 1) of Some a \<Rightarrow> a | None \<Rightarrow> 0, of_int (atoi (argv ! 2)))\<rparr>"
  have "run_sat ?W (\<lambda>ep' rest. data_net x 0 (npacket x) (ep_out ep') \<and> acked_by x 0 evs {})
      (bind_run (snd_establish_connection (e_ldebug env) ?ep (e_packet1 env) evs)
      (\<lambda>ep evs. bind_run (snd_transfer_data (Some content) (e_fclose env) (e_buf env) wsize mode ep (e_packet2 env) evs)
      (\<lambda>s evs. bind_run (snd_break_connection (e_ldebug env) (s_ep s) (e_packet3 env) evs)
      (\<lambda>ep evs. if \<not> e_close env then Failed Log_Fatal else Returned ep evs))))"
  proof (rule run_sat_bind)
    show "run_sat ?W (\<lambda>ep' rest. set rest \<subseteq> set evs \<and> ep_sqn ep' = 0 \<and> ep_errno ep' \<noteq> EAGAIN \<and> net_all greets (ep_out ep'))
        (snd_establish_connection (e_ldebug env) ?ep (e_packet1 env) evs)"
      by (rule run_sat_mono [OF snd_establish_sat]) (use ep greets_net in auto)
  next
    fix ep' :: endpoint and rest assume ep': "set rest \<subseteq> set evs \<and> ep_sqn ep' = 0 \<and> ep_errno ep' \<noteq> EAGAIN \<and> net_all greets (ep_out ep')"
    show "run_sat ?W (\<lambda>ep' rest. data_net x 0 (npacket x) (ep_out ep') \<and> acked_by x 0 evs {})
      (bind_run (snd_transfer_data (Some content) (e_fclose env) (e_buf env) wsize mode ep' (e_packet2 env) rest)
      (\<lambda>s evs. bind_run (snd_break_connection (e_ldebug env) (s_ep s) (e_packet3 env) evs)
      (\<lambda>ep evs. if \<not> e_close env then Failed Log_Fatal else Returned ep evs)))"
    proof (rule run_sat_bind)
      show "run_sat ?W (\<lambda>s' rest. ep_errno (s_ep s') \<noteq> EAGAIN \<and> data_net x 0 (npacket x) (ep_out (s_ep s')) \<and> acked_by x 0 evs {})
         (snd_transfer_data (Some content) (e_fclose env) (e_buf env) wsize mode ep' (e_packet2 env) rest)"
        by (rule run_sat_mono [OF snd_transfer_sat [OF disk(2,3) args(2) x]]) (use ep' in \<open>auto intro: acked_by_mono\<close>)
    next
      fix s' :: sender and rest' assume s': "ep_errno (s_ep s') \<noteq> EAGAIN \<and> data_net x 0 (npacket x) (ep_out (s_ep s')) \<and> acked_by x 0 evs {}"
      show "run_sat ?W (\<lambda>ep' rest. data_net x 0 (npacket x) (ep_out ep') \<and> acked_by x 0 evs {})
        (bind_run (snd_break_connection (e_ldebug env) (s_ep s') (e_packet3 env) rest')
        (\<lambda>ep evs. if \<not> e_close env then Failed Log_Fatal else Returned ep evs))"
        by (rule run_sat_bind, rule run_sat_mono [OF snd_break_sat [of x 0 "npacket x"]]) (use s' in auto)
    qed
  qed
  then show ?thesis using disk(1) args by (simp add: sender_main_def Let_def)
qed

end

section \<open>The phases of the receiver\<close>

lemma rcv_syn_loop_fails: "rcv_syn_loop ep pkt evs = Failed e \<Longrightarrow> e = Log_Fatal"
  by (induction ep pkt evs rule: rcv_syn_loop.induct)
     (auto split: sum.splits prod.splits if_splits dest: recv_packet_fault)

lemma rcv_fin_loop_fails: "rcv_fin_loop ep pkt evs = Failed e \<Longrightarrow> e = Log_Fatal"
  by (induction ep pkt evs rule: rcv_fin_loop.induct)
     (auto simp: Let_def split: sum.splits prod.splits if_splits dest: recv_packet_fault)

lemma valid_reply_sent:
  assumes "valid_reply e q f" and "from_peer out e" and "net_all P out"
  shows "\<exists>d. P q f d"
  using assms by (auto simp: valid_reply_def split: sock_event.splits option.splits dest: net_all_decode)

lemma rcv_establish_sat:
  assumes net: "data_net x b n out" and ev: "\<forall>ev \<in> set evs. from_peer out ev"
    and ep: "ep_errno ep \<noteq> EAGAIN" "ep_out ep = []"
  shows "run_sat (\<lambda>_. True)
    (\<lambda>ep' rest. set rest \<subseteq> set evs \<and> ep_sqn ep' = b \<and> ep_errno ep' \<noteq> EAGAIN \<and> net_all (\<lambda>q f d. f \<noteq> RTP_ACK) (ep_out ep'))
    (rcv_establish_connection ldebug ep pkt evs)"
proof (rule run_satI)
  fix e assume "rcv_establish_connection ldebug ep pkt evs = Failed e"
  then show "e = Log_Fatal"
    by (auto simp: rcv_establish_connection_def Let_def fails dest: fault_dests rcv_syn_loop_fails)
next
  fix ep' rest assume r: "rcv_establish_connection ldebug ep pkt evs = Returned ep' rest"
  from rcv_establish_returns [OF r ep(1)] obtain pre e mid e' s where
    e: "evs = pre @ e # mid @ e' # rest" "valid_reply e s RTP_SYN" "ep_sqn ep' = seqnum_add s 1" "ep_errno ep' \<noteq> EAGAIN"
      "map snd (ep_out ep') = replicate (Suc (length mid)) (wire (ep_sqn ep') (RTP_ACK OR RTP_SYN) [])"
    unfolding ep(2) by auto
  have "seqnum_add s 1 = b"
    using valid_reply_sent [OF e(2) _ net [unfolded data_net_def]] ev e(1) by simp
  moreover have "net_all (\<lambda>q f d. f \<noteq> RTP_ACK) (ep_out ep')"
    unfolding net_all_msgs e(5) by (auto simp: wire_fits decode_wire RTP_ACK_def RTP_SYN_def)
  ultimately show "set rest \<subseteq> set evs \<and> ep_sqn ep' = b \<and> ep_errno ep' \<noteq> EAGAIN
      \<and> net_all (\<lambda>q f d. f \<noteq> RTP_ACK) (ep_out ep')" using e by auto
qed simp

lemma rcv_break_sat:
  assumes ev: "\<forall>ev \<in> set evs. from_peer out ev" and ep: "ep_errno ep \<noteq> EAGAIN" and acks: "ack_net ok x b (ep_out ep)"
  shows "run_sat (\<lambda>_. True) (\<lambda>ep' rest. ack_net ok x b (ep_out ep') \<and> \<not> no_fin out) (rcv_break_connection ep pkt evs)"
proof (rule run_satI)
  fix e assume "rcv_break_connection ep pkt evs = Failed e"
  then show "e = Log_Fatal"
    by (auto simp: rcv_break_connection_def Let_def fails split: if_splits dest: fault_dests rcv_fin_loop_fails)
next
  fix ep' rest assume r: "rcv_break_connection ep pkt evs = Returned ep' rest"
  from rcv_break_returns [OF r ep] obtain pre e e' s s' where e: "evs = pre @ [e, e'] @ rest" "valid_reply e s RTP_FIN"
    and out': "map snd (ep_out ep') = map snd (ep_out ep) @ wire s (RTP_ACK OR RTP_FIN) []
        # (if \<exists>x. valid_reply e' x RTP_FIN then [wire s' (RTP_ACK OR RTP_FIN) []] else [])"
    by blast
  have out: "m \<in> set (map snd (ep_out ep)) \<or> (\<exists>q. m = wire q (RTP_ACK OR RTP_FIN) [])"
    if "m \<in> set (map snd (ep_out ep'))" for m
    using that unfolding out' by (auto split: if_splits)
  have "\<not> no_fin out"
    using valid_reply_sent [OF e(2), of out] ev e(1) unfolding no_fin_def by (fastforce simp: RTP_FIN_def)
  moreover have "ack_net ok x b (ep_out ep')"
    unfolding ack_net_def net_all_msgs
  proof
    fix m assume "m \<in> set (map snd (ep_out ep'))"
    from out [OF this] acks show "case decode_packet (take RTP_PACKET_SIZE m) of None \<Rightarrow> True
      | Some (q, f, d) \<Rightarrow> f = RTP_ACK \<longrightarrow> (\<exists>k\<le>npacket x. q = seqnum_add b (int k) \<and> ok k)"
      unfolding ack_net_def net_all_msgs by (auto simp: wire_fits decode_wire RTP_ACK_def RTP_FIN_def)
  qed
  ultimately show "ack_net ok x b (ep_out ep') \<and> \<not> no_fin out" by simp
qed simp

context arq
begin

lemma rcv_transfer_sat:
  assumes x: "xfer_ok x" "x_mode x = mode" "x_wsize x = nat wsize" and net: "data_net x 0 (npacket x) out"
    and ev: "\<forall>ev \<in> set evs. from_peer out ev" and buf: "length buf = MAXBUF" "0 < wsize"
    and ep: "ep_sqn ep = 0" "ep_errno ep \<noteq> EAGAIN" "net_all (\<lambda>q f d. f \<noteq> RTP_ACK) (ep_out ep)"
  shows "run_sat (\<lambda>_. True)
    (\<lambda>(r, content) rest. set rest \<subseteq> set evs \<and> rinv x 0 r \<and> got r \<subseteq> {..<npacket x}
       \<and> ack_net (ack_ok (got r)) x 0 (ep_out (r_ep r)) \<and> write_file True True (r_buf r) (r_fsize r) = Inr content)
    (rcv_transfer_data fopen_ok fclose_ok buf wsize mode ep pkt evs)"
proof -
  let ?ep = "ep\<lparr>ep_timeo := (WAIT_S, 0)\<rparr>"
  let ?r = "rcv_start (x_wsize x) ?ep pkt buf"
  have "sys_init x 0 (sys_start x (ep\<lparr>ep_out := []\<rparr>) pkt ?ep pkt buf)"
    by (rule sys_start_init) (use ep buf in \<open>simp_all add: seq_ok_def\<close>)
  from rinv_init [OF x(1) this] have r: "rinv x 0 ?r" "got ?r = {}" by (simp_all add: sys_start_def)
  moreover have "ack_net (ack_ok (got ?r)) x 0 (ep_out ep)"
    unfolding ack_net_def by (rule net_all_mono [OF ep(3)]) simp
  then have "ack_net (ack_ok (got ?r)) x 0 (ep_out (r_ep ?r))" by (simp add: rcv_start_def)
  ultimately have loop: "run_sat (\<lambda>_. True) (\<lambda>r' rest. set rest \<subseteq> set evs \<and> rinv x 0 r' \<and> got r' \<subseteq> {..<npacket x}
      \<and> ack_net (ack_ok (got r')) x 0 (ep_out (r_ep r'))) (rcv_loop (x_wsize x) (x_mode x) ?r evs)"
    by (intro rcv_loop_sat [OF x(1,2) net ev]) simp_all
  have "run_sat (\<lambda>_. True)
    (\<lambda>(r, content) rest. set rest \<subseteq> set evs \<and> rinv x 0 r \<and> got r \<subseteq> {..<npacket x}
       \<and> ack_net (ack_ok (got r)) x 0 (ep_out (r_ep r)) \<and> write_file True True (r_buf r) (r_fsize r) = Inr content)
    (bind_run (rcv_loop (x_wsize x) (x_mode x) ?r evs)
      (\<lambda>r evs. call (bind_res (write_file fopen_ok fclose_ok (r_buf r) (r_fsize r)) (\<lambda>content. Inr (r, content))) evs))"
  proof (rule run_sat_bind)
    show "run_sat (\<lambda>_. True) (\<lambda>r' rest. set rest \<subseteq> set evs \<and> rinv x 0 r' \<and> got r' \<subseteq> {..<npacket x}
      \<and> ack_net (ack_ok (got r')) x 0 (ep_out (r_ep r'))) (rcv_loop (x_wsize x) (x_mode x) ?r evs)" by (rule loop)
  next
    fix r' rest assume r': "set rest \<subseteq> set evs \<and> rinv x 0 r' \<and> got r' \<subseteq> {..<npacket x}
      \<and> ack_net (ack_ok (got r')) x 0 (ep_out (r_ep r'))"
    then have "r_fsize r' \<le> length (r_buf r')"
      using rinv_fsize [OF x(1), of 0 r'] rinv_stored [of x 0 r'] total_le_MAXBUF [OF x(1)] by (simp add: stored_def)
    then show "run_sat (\<lambda>_. True)
      (\<lambda>(r, content) rest. set rest \<subseteq> set evs \<and> rinv x 0 r \<and> got r \<subseteq> {..<npacket x}
         \<and> ack_net (ack_ok (got r)) x 0 (ep_out (r_ep r)) \<and> write_file True True (r_buf r) (r_fsize r) = Inr content)
      (call (bind_res (write_file fopen_ok fclose_ok (r_buf r') (r_fsize r')) (\<lambda>content. Inr (r', content))) rest)"
      using r' by (simp add: write_file_def mem_read_def)
  qed
  then have "run_sat (\<lambda>_. True)
    (\<lambda>(r, content) rest. set rest \<subseteq> set evs \<and> rinv x 0 r \<and> got r \<subseteq> {..<npacket x}
       \<and> ack_net (ack_ok (got r)) x 0 (ep_out (r_ep r)) \<and> write_file True True (r_buf r) (r_fsize r) = Inr content)
    (bind_run (call (set_sock_recv_time ep WAIT_S 0) evs) (\<lambda>ep evs. bind_run (rcv_loop (x_wsize x) (x_mode x)
        (rcv_start (x_wsize x) ep pkt buf) evs)
      (\<lambda>r evs. call (bind_res (write_file fopen_ok fclose_ok (r_buf r) (r_fsize r)) (\<lambda>content. Inr (r, content))) evs)))"
    by (intro run_sat_bind [where R = "\<lambda>ep' rest. ep' = ?ep \<and> rest = evs" and m = "call r e" for r e] run_sat_call)
       (auto simp: set_sock_recv_time_Inr dest: set_sock_recv_time_Inl)
  then show ?thesis using buf(2) x(2,3) by (simp add: rcv_transfer_data_def rcv_start_def)
qed

lemma receiver_main_sat:
  assumes x: "xfer_ok x" "x_mode x = mode" "x_wsize x = nat wsize" and net: "data_net x 0 (npacket x) out"
    and ev: "\<forall>ev \<in> set evs. from_peer out ev" and buf: "length (e_buf env) = MAXBUF"
    and args: "atoi (argv ! 3) = wsize" "0 < wsize" "atoi (argv ! 4) = mode"
    and ep: "ep_errno ep \<noteq> EAGAIN" "ep_out ep = []"
  shows "run_sat (\<lambda>_. True)
    (\<lambda>(ep', content) rest. \<not> no_fin out \<and> (\<exists>r. rinv x 0 r \<and> got r \<subseteq> {..<npacket x}
       \<and> ack_net (ack_ok (got r)) x 0 (ep_out ep') \<and> write_file True True (r_buf r) (r_fsize r) = Inr content))
    (receiver_main env ep argv evs)"
proof -
  let ?R = "\<lambda>(ep' :: endpoint, content) (rest :: sock_event list). \<not> no_fin out \<and> (\<exists>r. rinv x 0 r \<and> got r \<subseteq> {..<npacket x}
       \<and> ack_net (ack_ok (got r)) x 0 (ep_out ep') \<and> write_file True True (r_buf r) (r_fsize r) = Inr content)"
  let ?ep = "ep\<lparr>ep_addr := (0, of_int (atoi (argv ! 1)))\<rparr>"
  have "run_sat (\<lambda>_. True) ?R
      (bind_run (rcv_establish_connection (e_ldebug env) ?ep (e_packet1 env) evs)
      (\<lambda>ep evs. bind_run (rcv_transfer_data (e_fopen env) (e_fclose env) (e_buf env) wsize mode ep (e_packet2 env) evs)
      (\<lambda>(r, content) evs. bind_run (rcv_break_connection (r_ep r) (e_packet3 env) evs)
      (\<lambda>ep evs. if \<not> e_close env then Failed Log_Fatal else Returned (ep, content) evs))))"
  proof (rule run_sat_bind [OF rcv_establish_sat [OF net ev]])
    fix ep' :: endpoint and rest
    assume ep': "set rest \<subseteq> set evs \<and> ep_sqn ep' = 0 \<and> ep_errno ep' \<noteq> EAGAIN \<and> net_all (\<lambda>q f d. f \<noteq> RTP_ACK) (ep_out ep')"
    then have ev': "\<forall>ev \<in> set rest. from_peer out ev" using ev by blast
    show "run_sat (\<lambda>_. True) ?R
      (bind_run (rcv_transfer_data (e_fopen env) (e_fclose env) (e_buf env) wsize mode ep' (e_packet2 env) rest)
      (\<lambda>(r, content) evs. bind_run (rcv_break_connection (r_ep r) (e_packet3 env) evs)
      (\<lambda>ep evs. if \<not> e_close env then Failed Log_Fatal else Returned (ep, content) evs)))"
    proof (rule run_sat_bind [OF rcv_transfer_sat [OF x net ev' buf args(2)]])
      fix y :: "receiver \<times> u8 list" and rest'
      assume y: "(case y of (r, content) \<Rightarrow> \<lambda>rest'. set rest' \<subseteq> set rest \<and> rinv x 0 r \<and> got r \<subseteq> {..<npacket x}
         \<and> ack_net (ack_ok (got r)) x 0 (ep_out (r_ep r)) \<and> write_file True True (r_buf r) (r_fsize r) = Inr content) rest'"
      obtain r content where rc: "y = (r, content)" by (cases y) auto
      have "ep_errno (r_ep r) \<noteq> EAGAIN" "\<forall>ev \<in> set rest'. from_peer out ev"
        using y rc rinv_wf [of x 0 r] ev' by (auto simp: rcv_wf_def)
      then have "run_sat (\<lambda>_. True) (\<lambda>ep' rest. ack_net (ack_ok (got r)) x 0 (ep_out ep') \<and> \<not> no_fin out)
          (rcv_break_connection (r_ep r) (e_packet3 env) rest')"
        using y rc by (intro rcv_break_sat) auto
      then show "run_sat (\<lambda>_. True) ?R
        ((case y of (r, content) \<Rightarrow> \<lambda>evs. bind_run (rcv_break_connection (r_ep r) (e_packet3 env) evs)
          (\<lambda>ep evs. if \<not> e_close env then Failed Log_Fatal else Returned (ep, content) evs)) rest')"
        unfolding rc prod.case by (rule run_sat_bind) (use y rc in auto)
    qed (use ep' in auto)
  qed (use ep in auto)
  then show ?thesis using args by (simp add: receiver_main_def Let_def)
qed

end

section \<open>Both programs\<close>

text \<open>
  \<open>set_up\<close>: the two programs are started for the same transfer as their usage says, which neither of them checks: with the same
  window size, which is positive, the same mode, 0 or 1, and on fresh sockets; and the size of the file is an \<open>int\<close>, that is, below
  2 GiB. \<open>outcome\<close> is the socket of a run that has returned or waits, with all it has sent.
\<close>

definition set_up :: "env \<Rightarrow> endpoint \<Rightarrow> string list \<Rightarrow> env \<Rightarrow> endpoint \<Rightarrow> string list \<Rightarrow> u8 list \<Rightarrow> bool" where
  "set_up env ep argv env2 ep2 argv2 content \<longleftrightarrow>
     e_file env (argv ! 3) = Some content \<and> length content \<le> INT_MAX
     \<and> length (e_buf env) = MAXBUF \<and> length (e_buf env2) = MAXBUF
     \<and> 0 < atoi (argv ! 4) \<and> atoi (argv ! 4) + int MAXBUF \<le> int INT_MAX \<and> atoi (argv2 ! 3) = atoi (argv ! 4)
     \<and> (atoi (argv ! 5) = 0 \<or> atoi (argv ! 5) = 1) \<and> atoi (argv2 ! 4) = atoi (argv ! 5)
     \<and> ep_errno ep \<noteq> EAGAIN \<and> ep_out ep = [] \<and> ep_errno ep2 \<noteq> EAGAIN \<and> ep_out ep2 = []"

fun outcome :: "endpoint run \<Rightarrow> endpoint option" where
  "outcome (Returned ep evs) = Some ep"
| "outcome (Waiting ep) = Some ep"
| "outcome (Failed e) = None"

definition main_xfer :: "env \<Rightarrow> string list \<Rightarrow> u8 list \<Rightarrow> xfer" where
  "main_xfer env argv content = \<lparr>x_buf = carried content @ drop (length (carried content)) (e_buf env),
     x_fsize = length (carried content), x_wsize = nat (atoi (argv ! 4)), x_mode = atoi (argv ! 5)\<rparr>"

lemma main_xfer_ok:
  assumes "set_up env ep argv env2 ep2 argv2 content"
  shows "xfer_ok (main_xfer env argv content)"
  using assms length_carried [of content] by (auto simp: set_up_def main_xfer_def xfer_ok_def)

text \<open>The bytes of the file that arrive: no more than the buffer holds, and when their number is a positive multiple of 1461,
  the last packet is sent empty.\<close>

definition arriving :: "u8 list \<Rightarrow> u8 list" where
  "arriving content = (let sent = take MAXBUF content
     in if length sent mod 1461 = 0 then take (length sent - 1461) sent else sent)"

lemma main_reads:
  assumes "set_up env ep argv env2 ep2 argv2 content"
  shows "read_file (e_file env (argv ! 3)) True (e_buf env) (int MAXBUF) =
    Inr (int (length (carried content)), carried content @ drop (length (carried content)) (e_buf env))"
proof -
  from assms have disk: "e_file env (argv ! 3) = Some content" "length content \<le> INT_MAX" "length (e_buf env) = MAXBUF"
    by (simp_all add: set_up_def)
  from read_file_carried [OF disk(2,3), of True] disk(1) show ?thesis by simp
qed

lemma main_xfer_total:
  assumes "set_up env ep argv env2 ep2 argv2 content"
  shows "take (total (main_xfer env argv content)) (x_buf (main_xfer env argv content)) = arriving content"
proof (cases "carried content = []")
  case True
  then show ?thesis
    by (simp add: main_xfer_def total_def npacket_def tsize_def arriving_def PAYLOAD_MAX_def flip: carried_def)
next
  case False
  let ?c = "carried content"
  have buf: "length (e_buf env) = MAXBUF" using assms by (simp add: set_up_def)
  have c: "0 < length ?c" "length ?c \<le> MAXBUF" "length ?c \<le> INT_MAX"
    using False length_carried [of content] by (simp_all add: MAXBUF_def INT_MAX_def)
  have "read_file (Some ?c) True (e_buf env) (int MAXBUF) = Inr (int (length ?c), ?c @ drop (length ?c) (e_buf env))"
    using read_file_carried [OF c(3) buf, of True] c(2) by simp
  from total_read [OF c(1,2) buf this]
  show ?thesis by (simp add: main_xfer_def arriving_def Let_def flip: carried_def)
qed

context arq
begin

lemma sender_set_up:
  assumes up: "set_up env ep argv env2 ep2 argv2 content" and mode: "atoi (argv ! 5) = mode"
  defines "x \<equiv> main_xfer env argv content"
  shows "run_sat (\<lambda>ep'. data_net x 0 (npacket x) (ep_out ep') \<and> (no_fin (ep_out ep') \<or> acked_by x 0 evs {}))
      (\<lambda>ep' rest. data_net x 0 (npacket x) (ep_out ep') \<and> acked_by x 0 evs {}) (sender_main env ep argv evs)"
proof -
  have "x = \<lparr>x_buf = carried content @ drop (length (carried content)) (e_buf env), x_fsize = length (carried content),
      x_wsize = nat (atoi (argv ! 4)), x_mode = mode\<rparr>" using mode by (simp add: x_def main_xfer_def)
  then show ?thesis using up main_xfer_ok [OF up]
    by (intro sender_main_sat [OF _ _ _ refl _ mode]) (simp_all add: set_up_def x_def)
qed

lemma receiver_set_up:
  assumes up: "set_up env ep argv env2 ep2 argv2 content" and mode: "atoi (argv ! 5) = mode"
    and s: "outcome (sender_main env ep argv evs) = Some epn" and evs2: "\<forall>ev \<in> set evs2. from_peer (ep_out epn) ev"
  defines "x \<equiv> main_xfer env argv content"
  shows "run_sat (\<lambda>_. True) (\<lambda>(ep', content) rest. \<not> no_fin (ep_out epn) \<and> (\<exists>r. rinv x 0 r \<and> got r \<subseteq> {..<npacket x}
       \<and> ack_net (ack_ok (got r)) x 0 (ep_out ep') \<and> write_file True True (r_buf r) (r_fsize r) = Inr content))
      (receiver_main env2 ep2 argv2 evs2)"
proof -
  have x: "x_mode x = mode" "x_wsize x = nat (atoi (argv ! 4))" using mode by (simp_all add: x_def main_xfer_def)
  have ok: "xfer_ok x" unfolding x_def by (rule main_xfer_ok [OF up])
  from sender_set_up [OF up mode, of evs] s have "data_net x 0 (npacket x) (ep_out epn)"
    unfolding x_def by (cases "sender_main env ep argv evs") auto
  then show ?thesis by (rule receiver_main_sat [OF ok x _ evs2]) (use up mode in \<open>auto simp: set_up_def\<close>)
qed

lemma mains_deliver:
  assumes up: "set_up env ep argv env2 ep2 argv2 content" and mode: "atoi (argv ! 5) = mode"
    and s: "outcome (sender_main env ep argv evs) = Some epn"
    and r: "receiver_main env2 ep2 argv2 evs2 = Returned (epr, written) rest"
    and evs: "\<forall>ev \<in> set evs. from_peer (ep_out epr) ev" and evs2: "\<forall>ev \<in> set evs2. from_peer (ep_out epn) ev"
  shows "written = arriving content"
proof -
  let ?x = "main_xfer env argv content"
  from receiver_set_up [OF up mode s evs2] r obtain r' where
    r': "\<not> no_fin (ep_out epn)" "rinv ?x 0 r'" "got r' \<subseteq> {..<npacket ?x}"
      "ack_net (ack_ok (got r')) ?x 0 (ep_out epr)" "write_file True True (r_buf r') (r_fsize r') = Inr written" by auto
  from sender_set_up [OF up mode, of evs] s r'(1) have "acked_by ?x 0 evs {}"
    by (cases "sender_main env ep argv evs") auto
  with r'(4) evs have "{..<npacket ?x} \<subseteq> got r'" unfolding acked_by_def by blast
  with r'(3) got_all_written [OF main_xfer_ok [OF up] r'(2)] r'(5) main_xfer_total [OF up] show ?thesis by simp
qed

lemma mains_safe:
  assumes up: "set_up env ep argv env2 ep2 argv2 content" and mode: "atoi (argv ! 5) = mode"
    and s: "outcome (sender_main env ep argv evs) = Some epn" and evs2: "\<forall>ev \<in> set evs2. from_peer (ep_out epn) ev"
  shows "sender_main env ep argv evs' \<noteq> Failed Undef \<and> receiver_main env2 ep2 argv2 evs2 \<noteq> Failed Undef"
  using sender_set_up [OF up mode, of evs'] receiver_set_up [OF up mode s evs2] by (auto simp: run_sat_def)

end

section \<open>A network that lets both programs return\<close>

text \<open>The calls that can make the programs exit succeed, and the command lines have the right number of words.\<close>

definition calls_succeed :: "env \<Rightarrow> endpoint \<Rightarrow> bool" where
  "calls_succeed env ep \<longleftrightarrow> e_socket env \<and> e_bind env \<and> e_close env \<and> e_fopen env \<and> e_fclose env \<and> reliable ep"

lemma snd_establish_runs:
  assumes "reliable ep" and "ep_errno ep \<noteq> EAGAIN" and "ep_out ep = []"
  shows "\<exists>ep'. (\<forall>es. snd_establish_connection ldebug ep pkt
      (Datagram a (wire 0 (RTP_ACK OR RTP_SYN) []) # Recv_Error EAGAIN # es) = Returned ep' es)
    \<and> map snd (ep_out ep') = [wire 0x7FFFFFFF RTP_SYN [], wire 0 RTP_ACK []] \<and> reliable ep' \<and> ep_sqn ep' = 0 \<and> ep_errno ep' \<noteq> EAGAIN"
  using assms
  by (simp add: snd_establish_connection_def reliable_def set_sock_recv_time_def send_packet_ctl sendto_def recv_packet_wire
      recv_packet_timeout log_tries_def SEND_TR_def Let_def get_random_seqnum_add)
     (simp add: get_random_seqnum_def)

lemma rcv_establish_runs:
  assumes "reliable ep" and "ep_errno ep \<noteq> EAGAIN" and "ep_out ep = []"
  shows "\<exists>ep'. (\<forall>es. rcv_establish_connection ldebug ep pkt
      (Datagram a (wire 0x7FFFFFFF RTP_SYN []) # Datagram a (wire 0 RTP_ACK []) # es) = Returned ep' es)
    \<and> map snd (ep_out ep') = [wire 0 (RTP_ACK OR RTP_SYN) []] \<and> reliable ep' \<and> ep_sqn ep' = 0 \<and> ep_errno ep' \<noteq> EAGAIN"
  using assms
  by (simp add: rcv_establish_connection_def reliable_def set_sock_recv_time_def send_packet_ctl sendto_def recv_packet_wire
      log_tries_def SEND_TR_def Let_def seqnum_add_isn)

lemma snd_break_runs:
  assumes "reliable ep" and "ep_errno ep \<noteq> EAGAIN"
  shows "\<exists>ep'. snd_break_connection ldebug ep pkt [Datagram a (wire (ep_sqn ep) (RTP_ACK OR RTP_FIN) [])] = Returned ep' []
    \<and> map snd (ep_out ep') = map snd (ep_out ep) @ [wire (ep_sqn ep) RTP_FIN []]"
  using assms
  by (simp add: snd_break_connection_def reliable_def set_sock_recv_time_def send_packet_ctl sendto_def recv_packet_wire
      log_tries_def SEND_TR_def)

lemma rcv_break_runs:
  assumes "reliable ep" and "ep_errno ep \<noteq> EAGAIN"
  shows "\<exists>ep'. rcv_break_connection ep pkt [Datagram a (wire q RTP_FIN []), Recv_Error EAGAIN] = Returned ep' []
    \<and> map snd (ep_out ep') = map snd (ep_out ep) @ [wire q (RTP_ACK OR RTP_FIN) []]"
  using assms
  by (simp add: rcv_break_connection_def reliable_def set_sock_recv_time_def send_packet_ctl sendto_def recv_packet_wire
      recv_packet_timeout Let_def)

lemma sys_steps_out:
  assumes "(sys_step x)\<^sup>*\<^sup>* y z"
  shows "set (ep_out (s_ep (y_snd y))) \<subseteq> set (ep_out (s_ep (y_snd z))) \<and> set (ep_out (r_ep (y_rcv y))) \<subseteq> set (ep_out (r_ep (y_rcv z)))"
  using assms
proof (induction rule: rtranclp_induct)
  case (step y' z)
  with sys_step_out [OF step.hyps(2)] show ?case by blast
qed simp

lemma transfer_runs:
  assumes x: "xfer_ok x" "x_mode x = 0 \<or> x_mode x = 1" and rel: "reliable ep" "reliable ep2"
    and init: "sys_init x 0 (sys_start x ep p ep2 p2 buf)"
  obtains s r evs evs2 where
    "\<And>es. snd_loop x (snd_start x ep p) (evs @ es) = Returned s es"
    "\<And>es. rcv_loop (x_wsize x) (x_mode x) (rcv_start (x_wsize x) ep2 p2 buf) (evs2 @ es) = rcv_loop (x_wsize x) (x_mode x) r es"
    "\<forall>ev \<in> set evs. from_peer (ep_out (r_ep r)) ev" "\<forall>ev \<in> set evs2. from_peer (ep_out (s_ep s)) ev"
    "set (ep_out ep) \<subseteq> set (ep_out (s_ep s))" "set (ep_out ep2) \<subseteq> set (ep_out (r_ep r))"
    "reliable (s_ep s)" "reliable (r_ep r)" "ep_errno (s_ep s) \<noteq> EAGAIN" "ep_errno (r_ep r) \<noteq> EAGAIN"
    "write_file True True (r_buf r) (r_fsize r) = Inr (take (total x) (x_buf x))"
proof -
  let ?y0 = "sys_start x ep p ep2 p2 buf"
  have start: "y_snd ?y0 = snd_start x ep p" "y_rcv ?y0 = rcv_start (x_wsize x) ep2 p2 buf"
    "s_ep (snd_start x ep p) = ep" "r_ep (rcv_start (x_wsize x) ep2 p2 buf) = ep2"
    by (simp_all add: sys_start_def snd_start_def rcv_start_def)
  have run: "can_run ?y0" using rel by (simp add: can_run_def start) (simp add: sys_start_def)
  have nw: "no_wrap 0 (npacket x)" using xfer_ok_small [OF x(1)] by (simp add: no_wrap_def)
  have reach: "reachable (sys_init x 0) (sys_step x) ?y0" using init by (rule reach_init)
  obtain z where z: "(sys_step x)\<^sup>*\<^sup>* ?y0 z" "can_run z" "npacket x \<le> s_shift (y_snd z)"
    "ep_errno (s_ep (y_snd z)) \<noteq> EAGAIN" "ep_errno (r_ep (y_rcv z)) \<noteq> EAGAIN"
    "snd_follows x (y_snd ?y0) z \<and> rcv_follows x (y_rcv ?y0) z"
    using x reach
  proof (cases rule: sys_inv_cases)
    case gbn
    from gbn_live.can_complete [OF x(1) gbn run nw] obtain z where
      z: "(sys_step x)\<^sup>*\<^sup>* ?y0 z" "can_run z" "npacket x \<le> s_shift (y_snd z)" by blast
    from gbn.reachable_sys_inv [OF x(1) gbn(1) reachable_steps [OF reach z(1)]]
    have "ep_errno (s_ep (y_snd z)) \<noteq> EAGAIN" "ep_errno (r_ep (y_rcv z)) \<noteq> EAGAIN"
      unfolding gbn.sys_inv_def by (auto simp: snd_wf_def gbn_inv_def rcv_wf_def)
    with z gbn.run_follows [OF x(1) gbn(1) init z(1)] show thesis by (intro that)
  next
    case sr
    from sr_live.can_complete [OF x(1) sr run nw] obtain z where
      z: "(sys_step x)\<^sup>*\<^sup>* ?y0 z" "can_run z" "npacket x \<le> s_shift (y_snd z)" by blast
    from sr.reachable_sys_inv [OF x(1) sr(1) reachable_steps [OF reach z(1)]]
    have "ep_errno (s_ep (y_snd z)) \<noteq> EAGAIN" "ep_errno (r_ep (y_rcv z)) \<noteq> EAGAIN"
      unfolding sr.sys_inv_def by (auto simp: snd_wf_def sr_inv_def rcv_wf_def)
    with z sr.run_follows [OF x(1) sr(1) init z(1)] show thesis by (intro that)
  qed
  have pc: "y_pc z \<noteq> At_Break" "\<not> y_done z" "reliable (s_ep (y_snd z))" "reliable (r_ep (y_rcv z))"
    using z(2) by (simp_all add: can_run_def)
  obtain evs where evs: "\<forall>ev \<in> set evs. from_peer (ep_out (r_ep (y_rcv z))) ev"
    "\<And>es. snd_loop x (y_snd ?y0) (evs @ es) = snd_loop x (y_snd z) es"
    using z(6) pc(1) unfolding snd_follows_def by auto
  obtain evs2 where evs2: "\<forall>ev \<in> set evs2. from_peer (ep_out (s_ep (y_snd z))) ev"
    "\<And>es. rcv_loop (x_wsize x) (x_mode x) (y_rcv ?y0) (evs2 @ es) = rcv_loop (x_wsize x) (x_mode x) (y_rcv z) es"
    using z(6) pc(2) unfolding rcv_follows_def by auto
  have "snd_loop x (y_snd z) es = Returned (y_snd z) es" for es
    using z(3) by (cases es) simp_all
  with evs [unfolded start] evs2 [unfolded start] pc(3,4) z(4,5) sys_steps_out [OF z(1), unfolded start]
    finished_transfer [OF x reachable_steps [OF reach z(1)] z(3)] show thesis
    by (intro that [of evs "y_snd z" evs2 "y_rcv z"]) simp_all
qed

lemma from_peer_sent: "m \<in> set (map snd out) \<Longrightarrow> from_peer out (Datagram a m)"
  by (simp add: from_peer_def)

lemma from_peer_msgs: "from_peer out ev \<Longrightarrow> set (map snd out) \<subseteq> set (map snd out') \<Longrightarrow> from_peer out' ev"
  by (auto simp: from_peer_def split: sock_event.splits)

lemma snd_transfer_runs:
  assumes up: "set_up env ep argv env2 ep2 argv2 content" and "e_fclose env" and "reliable ep1"
    and "snd_loop (main_xfer env argv content) (snd_start (main_xfer env argv content) (ep1\<lparr>ep_timeo := (0, SEND_MS * 1000)\<rparr>) pkt) evs
      = Returned s es"
  shows "snd_transfer_data (e_file env (argv ! 3)) (e_fclose env) (e_buf env) (atoi (argv ! 4)) (atoi (argv ! 5)) ep1 pkt evs = Returned s es"
proof -
  have "0 < atoi (argv ! 4)" using up by (simp add: set_up_def)
  moreover have "set_sock_recv_time ep1 0 SEND_MS = Inr (ep1\<lparr>ep_timeo := (0, SEND_MS * 1000)\<rparr>)"
    using assms(3) by (simp add: reliable_def set_sock_recv_time_def)
  ultimately show ?thesis using assms(2,4) main_reads [OF up]
    by (simp add: snd_transfer_data_def main_xfer_def snd_start_def)
qed

lemma rcv_transfer_runs:
  assumes up: "set_up env ep argv env2 ep2 argv2 content" and "e_fopen env2" and "e_fclose env2" and "reliable ep1"
    and "rcv_loop (x_wsize (main_xfer env argv content)) (x_mode (main_xfer env argv content))
        (rcv_start (x_wsize (main_xfer env argv content)) (ep1\<lparr>ep_timeo := (WAIT_S, 0)\<rparr>) pkt (e_buf env2)) evs = Returned r es"
    and "write_file True True (r_buf r) (r_fsize r) = Inr written"
  shows "rcv_transfer_data (e_fopen env2) (e_fclose env2) (e_buf env2) (atoi (argv2 ! 3)) (atoi (argv2 ! 4)) ep1 pkt evs
    = Returned (r, written) es"
proof -
  have "0 < atoi (argv ! 4)" "atoi (argv2 ! 3) = atoi (argv ! 4)" "atoi (argv2 ! 4) = atoi (argv ! 5)"
    using up by (simp_all add: set_up_def)
  moreover have "set_sock_recv_time ep1 WAIT_S 0 = Inr (ep1\<lparr>ep_timeo := (WAIT_S, 0)\<rparr>)"
    using assms(4) by (simp add: reliable_def set_sock_recv_time_def)
  ultimately show ?thesis using assms(2,3,5,6)
    by (simp add: rcv_transfer_data_def main_xfer_def rcv_start_def)
qed

lemma handshake_runs:
  assumes up: "set_up env ep argv env2 ep2 argv2 content" and calls: "calls_succeed env ep" "calls_succeed env2 ep2"
  obtains es es2 ep1 ep1' where
    "\<And>rest. snd_establish_connection (e_ldebug env) (ep\<lparr>ep_addr := a\<rparr>) (e_packet1 env) (es @ rest) = Returned ep1 rest"
    "\<And>rest. rcv_establish_connection (e_ldebug env2) (ep2\<lparr>ep_addr := a2\<rparr>) (e_packet1 env2) (es2 @ rest) = Returned ep1' rest"
    "reliable ep1" "reliable ep1'" "sys_init (main_xfer env argv content) 0 (sys_start (main_xfer env argv content)
       (ep1\<lparr>ep_timeo := (0, SEND_MS * 1000)\<rparr>) p (ep1'\<lparr>ep_timeo := (WAIT_S, 0)\<rparr>) p2 (e_buf env2))"
    "\<forall>ev \<in> set es. from_peer (ep_out ep1') ev" "\<forall>ev \<in> set es2. from_peer (ep_out ep1) ev"
proof -
  let ?ep = "ep\<lparr>ep_addr := a\<rparr>" and ?ep2 = "ep2\<lparr>ep_addr := a2\<rparr>"
  note up' = up [unfolded set_up_def]
  have rel: "reliable ?ep" "reliable ?ep2" using calls by (simp_all add: calls_succeed_def reliable_def)
  have fresh: "ep_errno ?ep \<noteq> EAGAIN" "ep_out ?ep = []" "ep_errno ?ep2 \<noteq> EAGAIN" "ep_out ?ep2 = []" using up' by simp_all
  let ?es = "[Datagram (ep_addr ep) (wire 0 (RTP_ACK OR RTP_SYN) []), Recv_Error EAGAIN]"
    and ?es2 = "[Datagram (ep_addr ep) (wire 0x7FFFFFFF RTP_SYN []), Datagram (ep_addr ep) (wire 0 RTP_ACK [])]"
  obtain ep1 where hs: "\<And>rest. snd_establish_connection (e_ldebug env) ?ep (e_packet1 env) (?es @ rest) = Returned ep1 rest"
      "map snd (ep_out ep1) = [wire 0x7FFFFFFF RTP_SYN [], wire 0 RTP_ACK []]" "reliable ep1" "ep_sqn ep1 = 0" "ep_errno ep1 \<noteq> EAGAIN"
    using snd_establish_runs [OF rel(1) fresh(1,2)] unfolding append_Cons append_Nil by metis
  obtain ep1' where hr: "\<And>rest. rcv_establish_connection (e_ldebug env2) ?ep2 (e_packet1 env2) (?es2 @ rest) = Returned ep1' rest"
      "map snd (ep_out ep1') = [wire 0 (RTP_ACK OR RTP_SYN) []]" "reliable ep1'" "ep_sqn ep1' = 0" "ep_errno ep1' \<noteq> EAGAIN"
    using rcv_establish_runs [OF rel(2) fresh(3,4)] unfolding append_Cons append_Nil by metis
  have net: "net_all (\<lambda>q f d. f = RTP_SYN \<and> seqnum_add q 1 = 0 \<or> f = RTP_ACK) (ep_out ep1)"
    unfolding net_all_msgs hs(2) by (simp add: wire_fits decode_wire seqnum_add_isn)
  have net': "net_all (\<lambda>q f d. f \<noteq> RTP_ACK) (ep_out ep1')"
    unfolding net_all_msgs hr(2) by (simp add: wire_fits decode_wire RTP_ACK_def RTP_SYN_def)
  have init: "sys_init (main_xfer env argv content) 0 (sys_start (main_xfer env argv content)
       (ep1\<lparr>ep_timeo := (0, SEND_MS * 1000)\<rparr>) p (ep1'\<lparr>ep_timeo := (WAIT_S, 0)\<rparr>) p2 (e_buf env2))"
    by (rule sys_start_init) (use hs(4,5) hr(4,5) net net' up' in \<open>simp_all add: seq_ok_def\<close>)
  have "\<forall>ev \<in> set ?es. from_peer (ep_out ep1') ev" "\<forall>ev \<in> set ?es2. from_peer (ep_out ep1) ev"
    by (auto simp: hr(2) hs(2) from_peer_def [of _ "Recv_Error _"] intro!: from_peer_sent)
  from that [OF hs(1) hr(1) hs(3) hr(3) init this] show thesis .
qed

lemma farewell_runs:
  assumes wf: "reliable (s_ep s)" "reliable (r_ep r)" "ep_errno (s_ep s) \<noteq> EAGAIN" "ep_errno (r_ep r) \<noteq> EAGAIN"
  obtains e es es2 r' epn epr where
    "snd_break_connection ldebug (s_ep s) p es = Returned epn []"
    "rcv_iter w mode r e = Inr (R_Break r')" "r_buf r' = r_buf r" "r_fsize r' = r_fsize r"
    "rcv_break_connection (r_ep r') p2 es2 = Returned epr []"
    "set (map snd (ep_out (s_ep s))) \<subseteq> set (map snd (ep_out epn))" "set (map snd (ep_out (r_ep r))) \<subseteq> set (map snd (ep_out epr))"
    "\<forall>ev \<in> set es. from_peer (ep_out epr) ev" "\<forall>ev \<in> set (e # es2). from_peer (ep_out epn) ev"
proof -
  let ?q = "ep_sqn (s_ep s)" and ?a = "ep_addr (s_ep s)"
  let ?es = "[Datagram ?a (wire ?q (RTP_ACK OR RTP_FIN) [])]" and ?e = "Datagram ?a (wire ?q RTP_FIN [])"
  let ?r = "r\<lparr>r_ep := (r_ep r)\<lparr>ep_addr := ?a\<rparr>, r_packet := received (r_packet r) ?q RTP_FIN []\<rparr>"
  obtain epn where epn: "snd_break_connection ldebug (s_ep s) p ?es = Returned epn []"
    "map snd (ep_out epn) = map snd (ep_out (s_ep s)) @ [wire ?q RTP_FIN []]"
    using snd_break_runs [OF wf(1,3)] by blast
  have brk: "rcv_iter w mode r ?e = Inr (R_Break ?r)"
    using wf(4) by (simp add: rcv_iter_def recv_packet_wire RTP_FIN_def)
  have "reliable (r_ep ?r)" "ep_errno (r_ep ?r) \<noteq> EAGAIN" using wf(2,4) by (simp_all add: reliable_def)
  from rcv_break_runs [OF this] obtain epr where
    epr: "rcv_break_connection (r_ep ?r) p2 [?e, Recv_Error EAGAIN] = Returned epr []"
      "map snd (ep_out epr) = map snd (ep_out (r_ep ?r)) @ [wire ?q (RTP_ACK OR RTP_FIN) []]" by blast
  have "\<forall>ev \<in> set ?es. from_peer (ep_out epr) ev" "\<forall>ev \<in> set (?e # [?e, Recv_Error EAGAIN]). from_peer (ep_out epn) ev"
    by (auto simp: epn(2) epr(2) from_peer_def [of _ "Recv_Error _"] intro!: from_peer_sent)
  moreover have "set (map snd (ep_out (s_ep s))) \<subseteq> set (map snd (ep_out epn))" "set (map snd (ep_out (r_ep r))) \<subseteq> set (map snd (ep_out epr))"
    unfolding epn(2) epr(2) by auto
  ultimately show thesis using that [OF epn(1) brk _ _ epr(1)] by simp
qed

lemma mains_complete:
  assumes up: "set_up env ep argv env2 ep2 argv2 content" and calls: "calls_succeed env ep" "calls_succeed env2 ep2"
    and args: "length argv = 6" "length argv2 = 5"
  shows "\<exists>evs evs2 epn epr. sender_main env ep argv evs = Returned epn []
    \<and> receiver_main env2 ep2 argv2 evs2 = Returned (epr, arriving content) []
    \<and> (\<forall>ev \<in> set evs. from_peer (ep_out epr) ev) \<and> (\<forall>ev \<in> set evs2. from_peer (ep_out epn) ev)"
proof -
  let ?x = "main_xfer env argv content"
  note calls' = calls [unfolded calls_succeed_def]
  have mode: "x_mode ?x = 0 \<or> x_mode ?x = 1" using up by (simp add: main_xfer_def set_up_def)
  obtain es es2 ep1 ep1' where
    hs: "\<And>rest. snd_establish_connection (e_ldebug env) (ep\<lparr>ep_addr := (case e_pton env (argv ! 1) of Some a \<Rightarrow> a | None \<Rightarrow> 0,
          of_int (atoi (argv ! 2)))\<rparr>) (e_packet1 env) (es @ rest) = Returned ep1 rest"
    and hr: "\<And>rest. rcv_establish_connection (e_ldebug env2) (ep2\<lparr>ep_addr := (0, of_int (atoi (argv2 ! 1)))\<rparr>) (e_packet1 env2)
          (es2 @ rest) = Returned ep1' rest"
    and rel: "reliable ep1" "reliable ep1'" and init: "sys_init ?x 0 (sys_start ?x (ep1\<lparr>ep_timeo := (0, SEND_MS * 1000)\<rparr>) (e_packet2 env)
          (ep1'\<lparr>ep_timeo := (WAIT_S, 0)\<rparr>) (e_packet2 env2) (e_buf env2))"
    and hello: "\<forall>ev \<in> set es. from_peer (ep_out ep1') ev" "\<forall>ev \<in> set es2. from_peer (ep_out ep1) ev"
    by (rule handshake_runs [OF up calls]) (rule that)
  have rel': "reliable (ep1\<lparr>ep_timeo := (0, SEND_MS * 1000)\<rparr>)" "reliable (ep1'\<lparr>ep_timeo := (WAIT_S, 0)\<rparr>)"
    using rel by (simp_all add: reliable_def)
  obtain s r evs evs2 where
    snd: "\<And>es. snd_loop ?x (snd_start ?x (ep1\<lparr>ep_timeo := (0, SEND_MS * 1000)\<rparr>) (e_packet2 env)) (evs @ es) = Returned s es"
    and rcv: "\<And>es. rcv_loop (x_wsize ?x) (x_mode ?x) (rcv_start (x_wsize ?x) (ep1'\<lparr>ep_timeo := (WAIT_S, 0)\<rparr>) (e_packet2 env2) (e_buf env2))
        (evs2 @ es) = rcv_loop (x_wsize ?x) (x_mode ?x) r es"
    and peers: "\<forall>ev \<in> set evs. from_peer (ep_out (r_ep r)) ev" "\<forall>ev \<in> set evs2. from_peer (ep_out (s_ep s)) ev"
    and out: "set (ep_out ep1) \<subseteq> set (ep_out (s_ep s))" "set (ep_out ep1') \<subseteq> set (ep_out (r_ep r))"
    and wf: "reliable (s_ep s)" "reliable (r_ep r)" "ep_errno (s_ep s) \<noteq> EAGAIN" "ep_errno (r_ep r) \<noteq> EAGAIN"
    and written: "write_file True True (r_buf r) (r_fsize r) = Inr (arriving content)"
    by (rule transfer_runs [OF main_xfer_ok [OF up] mode rel' init], rule that) (simp_all add: main_xfer_total [OF up])
  obtain e fs fs2 r' epn epr where
    bye: "snd_break_connection (e_ldebug env) (s_ep s) (e_packet3 env) fs = Returned epn []"
      "rcv_iter (x_wsize ?x) (x_mode ?x) r e = Inr (R_Break r')" "r_buf r' = r_buf r" "r_fsize r' = r_fsize r"
      "rcv_break_connection (r_ep r') (e_packet3 env2) fs2 = Returned epr []"
    and grow: "set (map snd (ep_out (s_ep s))) \<subseteq> set (map snd (ep_out epn))" "set (map snd (ep_out (r_ep r))) \<subseteq> set (map snd (ep_out epr))"
    and last: "\<forall>ev \<in> set fs. from_peer (ep_out epr) ev" "\<forall>ev \<in> set (e # fs2). from_peer (ep_out epn) ev"
    by (rule farewell_runs [OF wf]) (rule that)
  have "sender_main env ep argv (es @ evs @ fs) = Returned epn []"
    using args calls' hs bye(1) snd_transfer_runs [OF up _ rel(1) snd] by (simp add: sender_main_def Let_def)
  moreover have "rcv_loop (x_wsize ?x) (x_mode ?x) (rcv_start (x_wsize ?x) (ep1'\<lparr>ep_timeo := (WAIT_S, 0)\<rparr>) (e_packet2 env2) (e_buf env2))
      (evs2 @ e # fs2) = Returned r' fs2" using rcv bye(2) by simp
  from rcv_transfer_runs [OF up _ _ rel(2) this] written bye(3,4) calls' args hr bye(5)
  have "receiver_main env2 ep2 argv2 (es2 @ evs2 @ e # fs2) = Returned (epr, arriving content) []"
    by (simp add: receiver_main_def Let_def)
  moreover have "\<forall>ev \<in> set (es @ evs @ fs). from_peer (ep_out epr) ev"
    using hello(1) peers(1) last(1) from_peer_mono [OF _ out(2)] from_peer_msgs [OF _ grow(2)] by (simp, blast)
  moreover have "\<forall>ev \<in> set (es2 @ evs2 @ e # fs2). from_peer (ep_out epn) ev"
    using hello(2) peers(2) last(2) from_peer_mono [OF _ out(1)] from_peer_msgs [OF _ grow(1)] by (simp, blast)
  ultimately show ?thesis by blast
qed

section \<open>What the two programs promise\<close>

definition demo_env :: "nat \<Rightarrow> env" where
  "demo_env n = \<lparr>e_ldebug = False, e_pton = (\<lambda>s. Some 0), e_socket = True, e_bind = True, e_close = True,
     e_file = (\<lambda>s. if s = ''in'' then Some (replicate n 7) else None), e_fopen = True, e_fclose = True,
     e_packet1 = demo_packet, e_packet2 = demo_packet, e_packet3 = demo_packet, e_buf = replicate MAXBUF 0\<rparr>"

definition demo_argv :: "string \<Rightarrow> string list" where
  "demo_argv mode = [''sender'', ''127.0.0.1'', ''9000'', ''in'', ''2'', mode]"

definition demo_argv2 :: "string \<Rightarrow> string list" where
  "demo_argv2 mode = [''receiver'', ''9000'', ''out'', ''2'', mode]"

lemma demo_atoi: "atoi ''0'' = 0" "atoi ''1'' = 1" "atoi ''2'' = 2"
  by code_simp+

lemma demo_set_up:
  assumes "n \<le> INT_MAX" and "mode = ''0'' \<or> mode = ''1''"
  shows "set_up (demo_env n) demo_ep (demo_argv mode) (demo_env n) demo_ep (demo_argv2 mode) (replicate n 7)"
  using assms by (auto simp: set_up_def demo_env_def demo_argv_def demo_argv2_def demo_atoi demo_ep_def MAXBUF_def INT_MAX_def)

lemma demo_calls: "calls_succeed (demo_env n) demo_ep"
  by (simp add: calls_succeed_def demo_env_def reliable_def demo_ep_def)

lemma demo_words: "length (demo_argv mode) = 6" "length (demo_argv2 mode) = 5"
  by (simp_all add: demo_argv_def demo_argv2_def)

lemma demo_complete:
  assumes "n \<le> INT_MAX" and "mode = ''0'' \<or> mode = ''1''"
  obtains evs evs2 epn epr where "sender_main (demo_env n) demo_ep (demo_argv mode) evs = Returned epn []"
    "receiver_main (demo_env n) demo_ep (demo_argv2 mode) evs2 = Returned (epr, arriving (replicate n 7)) []"
    "\<forall>ev \<in> set evs. from_peer (ep_out epr) ev" "\<forall>ev \<in> set evs2. from_peer (ep_out epn) ev"
  using mains_complete [OF demo_set_up [OF assms] demo_calls demo_calls demo_words] by blast

text \<open>C1: the end-to-end promise of lab2. Both programs are started on fresh sockets with the same window size, positive and at
  most \<open>INT_MAX - MAXBUF\<close>, and the same mode, 0 or 1, and the size of the file is below 2 GiB. The network may lose, repeat, reorder
  and corrupt datagrams, but a corrupted one fails the checksum, and no third party forges one. Then whenever \<open>receiver\<close>
  returns, it has written the first 2 MiB (\<open>MAXBUF\<close>) of the file that \<open>sender\<close> was given, and nothing else: the rest of
  a longer file is silently missing, and when the number of bytes sent is a positive multiple of 1461 the last 1461 of them are.
  (A receiver that left its loop too early, on a timeout or a corrupted FIN, never returns: it waits for a FIN that the sender
  does not send.)\<close>

theorem programs_deliver_the_file:
  assumes "set_up env ep argv env2 ep2 argv2 content"
    and "outcome (sender_main env ep argv evs) = Some epn"
    and "receiver_main env2 ep2 argv2 evs2 = Returned (epr, written) rest"
    and "\<forall>ev \<in> set evs. from_peer (ep_out epr) ev" and "\<forall>ev \<in> set evs2. from_peer (ep_out epn) ev"
  shows "written = (let sent = take MAXBUF content
    in if length sent mod 1461 = 0 then take (length sent - 1461) sent else sent)"
proof -
  have "atoi (argv ! 5) = 0 \<or> atoi (argv ! 5) = 1" using assms(1) by (simp add: set_up_def)
  then show ?thesis
    using gbn.mains_deliver [OF assms(1) _ assms(2-5)] sr.mains_deliver [OF assms(1) _ assms(2-5)]
    unfolding arriving_def by blast
qed

theorem programs_deliver_the_file_witness:
  "\<exists>evs evs2 epn epr written rest. sender_main (demo_env 3000) demo_ep (demo_argv ''1'') evs = Returned epn rest
    \<and> receiver_main (demo_env 3000) demo_ep (demo_argv2 ''1'') evs2 = Returned (epr, written) rest \<and> written = replicate 3000 7"
proof -
  have n: "3000 \<le> INT_MAX" by (simp add: INT_MAX_def)
  obtain evs evs2 epn epr where c: "sender_main (demo_env 3000) demo_ep (demo_argv ''1'') evs = Returned epn []"
    "receiver_main (demo_env 3000) demo_ep (demo_argv2 ''1'') evs2 = Returned (epr, arriving (replicate 3000 7)) []"
    "\<forall>ev \<in> set evs. from_peer (ep_out epr) ev" "\<forall>ev \<in> set evs2. from_peer (ep_out epn) ev"
    by (rule demo_complete [OF n disjI2 [OF refl]]) (rule that)
  from programs_deliver_the_file [OF demo_set_up [OF n] _ c(2-4)] c(1)
  have "arriving (replicate 3000 7) = replicate 3000 7" by (simp add: MAXBUF_def Let_def)
  with c(1,2) show ?thesis by metis
qed

text \<open>C2: and the promise is not an empty one: for every file of less than 2 GiB, every positive window size up to
  \<open>INT_MAX - MAXBUF\<close>, the same in both programs, and both modes, with or without \<open>LDEBUG\<close>, when no system call fails
  there are events, each a timeout or something that the other program sends, with which both programs return and the
  file is written, as far as C1 says.\<close>

theorem programs_can_complete:
  assumes "set_up env ep argv env2 ep2 argv2 content" and "calls_succeed env ep" and "calls_succeed env2 ep2"
    and "length argv = 6" and "length argv2 = 5"
  shows "\<exists>evs evs2 epn epr written. sender_main env ep argv evs = Returned epn []
    \<and> receiver_main env2 ep2 argv2 evs2 = Returned (epr, written) []
    \<and> (\<forall>ev \<in> set evs. from_peer (ep_out epr) ev) \<and> (\<forall>ev \<in> set evs2. from_peer (ep_out epn) ev)
    \<and> written = (let sent = take MAXBUF content
        in if length sent mod 1461 = 0 then take (length sent - 1461) sent else sent)"
  using mains_complete [OF assms] unfolding arriving_def by blast

theorem programs_can_complete_witness:
  "\<exists>evs evs2 epn epr. sender_main (demo_env 2922) demo_ep (demo_argv ''0'') evs = Returned epn []
    \<and> receiver_main (demo_env 2922) demo_ep (demo_argv2 ''0'') evs2 = Returned (epr, replicate 1461 7) []"
proof -
  have n: "2922 \<le> INT_MAX" by (simp add: INT_MAX_def)
  from programs_can_complete [OF demo_set_up [OF n] demo_calls demo_calls demo_words, of "''0''"]
  obtain evs evs2 epn epr where "sender_main (demo_env 2922) demo_ep (demo_argv ''0'') evs = Returned epn []"
    "receiver_main (demo_env 2922) demo_ep (demo_argv2 ''0'') evs2 = Returned (epr, replicate 1461 7) []"
    by (auto simp: MAXBUF_def Let_def)
  then show ?thesis by blast
qed

text \<open>C3: started with the same positive window size, of at most \<open>INT_MAX - MAXBUF\<close>, the same mode, 0 or 1, and a file of
  less than 2 GiB, neither program runs into undefined behaviour, from the first call to the last: the sender not whatever
  datagrams it is handed, forged ones included, the receiver not when its valid datagrams come from the sender. Every access
  to \<open>buf\<close>, \<open>window\<close> and the packets is in bounds and no \<open>int\<close> overflows. (Neither program checks its arguments: the
  array of a window size that is not positive is undefined behaviour.)\<close>

theorem programs_have_no_undefined_behaviour:
  assumes "set_up env ep argv env2 ep2 argv2 content"
    and "outcome (sender_main env ep argv evs) = Some epn" and "\<forall>ev \<in> set evs2. from_peer (ep_out epn) ev"
  shows "sender_main env ep argv evs' \<noteq> Failed Undef \<and> receiver_main env2 ep2 argv2 evs2 \<noteq> Failed Undef"
proof -
  have "atoi (argv ! 5) = 0 \<or> atoi (argv ! 5) = 1" using assms(1) by (simp add: set_up_def)
  then show ?thesis
    using gbn.mains_safe [OF assms(1) _ assms(2,3)] sr.mains_safe [OF assms(1) _ assms(2,3)] by blast
qed

theorem programs_have_no_undefined_behaviour_witness:
  "\<forall>evs. sender_main (demo_env 3000) demo_ep (demo_argv ''1'') evs \<noteq> Failed Undef"
proof -
  have n: "3000 \<le> INT_MAX" by (simp add: INT_MAX_def)
  obtain evs evs2 epn epr where c: "sender_main (demo_env 3000) demo_ep (demo_argv ''1'') evs = Returned epn []"
    "receiver_main (demo_env 3000) demo_ep (demo_argv2 ''1'') evs2 = Returned (epr, arriving (replicate 3000 7)) []"
    "\<forall>ev \<in> set evs. from_peer (ep_out epr) ev" "\<forall>ev \<in> set evs2. from_peer (ep_out epn) ev"
    by (rule demo_complete [OF n disjI2 [OF refl]]) (rule that)
  have "outcome (sender_main (demo_env 3000) demo_ep (demo_argv ''1'') evs) = Some epn" using c(1) by simp
  from programs_have_no_undefined_behaviour [OF demo_set_up [OF n disjI2 [OF refl]] this c(4)] show ?thesis by blast
qed

end
