(* ===== verification/Ftp_Stream.thy ===== *)
theory Ftp_Stream
  imports Packet
begin

text \<open>
  \<open>lab1/ftp_utils.hpp\<close>, \<open>ssend\<close> and \<open>srecv\<close>: the loops that make up for the short reads and writes of a TCP socket.
  What the peer sent arrives in segments that the network chose, and the stream ends, fails or falls silent while it stays
  open; how much of a buffer each \<open>send\<close> takes, and which call fails, does not return or raises a signal, is an oracle of the socket. Text that a function prints to the standard output is part of its result.
\<close>

section \<open>Messages\<close>

definition bytes_of :: "string \<Rightarrow> u8 list" where
  "bytes_of s = map (\<lambda>c. of_nat (of_char c)) s"

definition string_of :: "u8 list \<Rightarrow> string" where
  "string_of bs = map (\<lambda>b. char_of (unat b)) bs"

text \<open>What \<open>serror\<close> prints; it returns -1, which is where its callers mention it.\<close>

definition serror :: "string \<Rightarrow> u8 list" where
  "serror msg = bytes_of ''<== error ==>: '' @ bytes_of msg @ [10]"

section \<open>Sockets\<close>

datatype arrival = Seg "u8 list" | Recv_Fail | Silence

record sock =
  k_in :: "arrival list"
  k_out :: "u8 list"
  k_accept :: "nat \<Rightarrow> int res"
  k_calls :: nat

text \<open>
  One call of \<open>recv\<close> and one of \<open>send\<close>, which block: \<open>recv\<close> when nothing arrives on an open connection, \<open>send\<close> when the
  peer does not read. When the peer has closed the connection, \<open>send\<close> raises \<open>SIGPIPE\<close>, which ends the process.
\<close>

fun recv_seg :: "arrival list \<Rightarrow> nat \<Rightarrow> (int \<times> u8 list \<times> arrival list) res" where
  "recv_seg [] n = Inr (0, [], [])"
| "recv_seg (Recv_Fail # rest) n = Inr (-1, [], rest)"
| "recv_seg (Silence # rest) n = Inl Blocked"
| "recv_seg (Seg bs # rest) n =
     (if bs = [] then recv_seg rest n
      else Inr (int (length (take n bs)), take n bs,
                if length bs \<le> n then rest else Seg (drop n bs) # rest))"

definition send_call :: "sock \<Rightarrow> (int \<times> sock) res" where
  "send_call k = bind_res (k_accept k (k_calls k)) (\<lambda>b. Inr (b, k\<lparr>k_calls := Suc (k_calls k)\<rparr>))"

lemma recv_seg_pos:
  "recv_seg st n = Inr (b, d, st') \<Longrightarrow> 0 < b \<Longrightarrow> b = int (length d) \<and> length d \<le> n"
  by (induction st n rule: recv_seg.induct) (auto split: if_splits)

text \<open>A C \<open>int\<close> that is compared with a \<open>size_t\<close> is converted to 64 unsigned bits.\<close>

definition size_t_of_int :: "int \<Rightarrow> nat" where
  "size_t_of_int x = nat (x mod 2 ^ 64)"

lemma size_t_of_int_nat [simp]: "n < 2 ^ 64 \<Longrightarrow> size_t_of_int (int n) = n"
  by (simp add: size_t_of_int_def flip: of_nat_mod)

declare bind_res_cong [fundef_cong]

function ssend_loop :: "sock \<Rightarrow> u8 list \<Rightarrow> nat \<Rightarrow> nat \<Rightarrow> (int \<times> u8 list \<times> sock) res" where
  "ssend_loop k buf n ret =
     (if ret < n
      then bind_res (send_call k) (\<lambda>(b, k).
             if b = 0 then Inr (-1, serror ''socket closed'', k)
             else if b < 0 then Inr (-1, serror ''ssend error'', k)
             else let m = min (nat b) (n - ret)
                  in bind_res (mem_read buf ret m)
                       (\<lambda>d. ssend_loop (k\<lparr>k_out := k_out k @ d\<rparr>) buf n (ret + m)))
      else Inr (int_of_long (int ret), [], k))"
  by pat_completeness auto
termination
  by (relation "measure (\<lambda>(k, buf, n, ret). n - ret)") auto

definition ssend :: "sock \<Rightarrow> u8 list \<Rightarrow> int \<Rightarrow> (int \<times> u8 list \<times> sock) res" where
  "ssend k buf len = ssend_loop k buf (size_t_of_int len) 0"

function srecv_loop :: "sock \<Rightarrow> u8 list \<Rightarrow> nat \<Rightarrow> nat \<Rightarrow> (int \<times> u8 list \<times> u8 list \<times> sock) res" where
  "srecv_loop k buf n ret =
     (if ret < n
      then bind_res (recv_seg (k_in k) (n - ret)) (\<lambda>(b, d, st).
             if b = 0 then Inr (-1, serror ''socket closed'', buf, k\<lparr>k_in := st\<rparr>)
             else if b < 0 then Inr (-1, serror ''srecv error'', buf, k\<lparr>k_in := st\<rparr>)
             else bind_res (mem_write buf ret d)
                    (\<lambda>buf. srecv_loop (k\<lparr>k_in := st\<rparr>) buf n (ret + nat b)))
      else Inr (int_of_long (int ret), [], buf, k))"
  by pat_completeness auto
termination
  by (relation "measure (\<lambda>(k, buf, n, ret). n - ret)") (auto dest: recv_seg_pos)

definition srecv :: "sock \<Rightarrow> u8 list \<Rightarrow> int \<Rightarrow> (int \<times> u8 list \<times> u8 list \<times> sock) res" where
  "srecv k buf len = srecv_loop k buf (size_t_of_int len) 0"

declare ssend_loop.simps [simp del] srecv_loop.simps [simp del]

section \<open>All or nothing\<close>

text \<open>The bytes that arrive before the stream ends, fails or falls silent, and whether it is the last.\<close>

fun avail :: "arrival list \<Rightarrow> u8 list" where
  "avail [] = []"
| "avail (Recv_Fail # rest) = []"
| "avail (Silence # rest) = []"
| "avail (Seg bs # rest) = bs @ avail rest"

fun stalls :: "arrival list \<Rightarrow> bool" where
  "stalls [] = False"
| "stalls (Recv_Fail # rest) = False"
| "stalls (Silence # rest) = True"
| "stalls (Seg bs # rest) = stalls rest"

lemma recv_seg_avail:
  "avail st \<noteq> [] \<Longrightarrow> 0 < n \<Longrightarrow> \<exists>d st'. recv_seg st n = Inr (int (length d), d, st') \<and> d \<noteq> [] \<and> length d \<le> n
    \<and> avail st = d @ avail st' \<and> stalls st' = stalls st"
  by (induction st n rule: recv_seg.induct) auto

lemma recv_seg_none:
  "avail st = [] \<Longrightarrow> if stalls st then recv_seg st n = Inl Blocked else \<exists>b st'. recv_seg st n = Inr (b, [], st') \<and> b \<le> 0"
  by (induction st n rule: recv_seg.induct) auto

text \<open>One round of the loop of \<open>srecv\<close> when bytes are there.\<close>

lemma srecv_loop_round:
  assumes "ret < n" and "avail (k_in k) \<noteq> []"
  obtains d st where "d \<noteq> []" "length d \<le> n - ret" "avail (k_in k) = d @ avail st" "stalls st = stalls (k_in k)"
    "recv_seg (k_in k) (n - ret) = Inr (int (length d), d, st)"
    "ret + length d \<le> length buf \<Longrightarrow>
       srecv_loop k buf n ret
       = srecv_loop (k\<lparr>k_in := st\<rparr>) (take ret buf @ d @ drop (ret + length d) buf) n (ret + length d)"
    "length buf < ret + length d \<Longrightarrow> srecv_loop k buf n ret = Inl Undef"
proof -
  from assms recv_seg_avail [of "k_in k" "n - ret"] obtain d st where
    d: "recv_seg (k_in k) (n - ret) = Inr (int (length d), d, st)" "d \<noteq> []" "length d \<le> n - ret"
      "avail (k_in k) = d @ avail st" "stalls st = stalls (k_in k)" by auto
  then have "int (length d) \<noteq> 0" "\<not> int (length d) < 0" by simp_all
  with d that show ?thesis using assms(1) by (subst (asm) (1 2) srecv_loop.simps) (auto simp: mem_write_def)
qed

lemma srecv_loop_enough:
  assumes "ret \<le> n" and "n - ret \<le> length (avail (k_in k))" and "n \<le> length buf"
  shows "\<exists>st. srecv_loop k buf n ret = Inr (int_of_long (int n), [],
      take ret buf @ take (n - ret) (avail (k_in k)) @ drop n buf, k\<lparr>k_in := st\<rparr>)
    \<and> avail st = drop (n - ret) (avail (k_in k)) \<and> stalls st = stalls (k_in k)"
  using assms
proof (induction "n - ret" arbitrary: k buf ret rule: less_induct)
  case less
  show ?case
  proof (cases "ret < n")
    case False
    then have "srecv_loop k buf n ret = Inr (int_of_long (int n), [], buf, k)"
      using less.prems(1) by (subst srecv_loop.simps) simp
    with False less.prems show ?thesis by (intro exI [of _ "k_in k"]) simp
  next
    case True
    moreover have "avail (k_in k) \<noteq> []" using True less.prems(2) by auto
    ultimately obtain d st where
      d: "d \<noteq> []" "length d \<le> n - ret" "avail (k_in k) = d @ avail st" "stalls st = stalls (k_in k)"
      and step: "ret + length d \<le> length buf \<Longrightarrow> srecv_loop k buf n ret
        = srecv_loop (k\<lparr>k_in := st\<rparr>) (take ret buf @ d @ drop (ret + length d) buf) n (ret + length d)"
      by (rule srecv_loop_round [where buf = buf]) blast
    let ?buf = "take ret buf @ d @ drop (ret + length d) buf"
    have eq: "srecv_loop k buf n ret = srecv_loop (k\<lparr>k_in := st\<rparr>) ?buf n (ret + length d)"
      using True d(2) less.prems(3) by (intro step) simp
    have "n - (ret + length d) < n - ret" "ret + length d \<le> n" "n \<le> length ?buf"
      "n - (ret + length d) \<le> length (avail (k_in (k\<lparr>k_in := st\<rparr>)))"
      using d True less.prems by (auto simp flip: length_greater_0_conv)
    from less.hyps [OF this(1,2,4,3)] obtain st' where
      "srecv_loop (k\<lparr>k_in := st\<rparr>) ?buf n (ret + length d) = Inr (int_of_long (int n), [],
        take (ret + length d) ?buf @ take (n - (ret + length d)) (avail st) @ drop n ?buf, k\<lparr>k_in := st'\<rparr>)"
      "avail st' = drop (n - (ret + length d)) (avail st)" "stalls st' = stalls (k_in k)" using d(4) by auto
    moreover have "take (ret + length d) ?buf = take ret buf @ d" "drop n ?buf = drop n buf"
      using True d(2) less.prems(3) by simp_all
    ultimately show ?thesis using d(2,3) eq by (intro exI [of _ st']) simp
  qed
qed

lemma srecv_loop_short:
  assumes "length (avail (k_in k)) < n - ret" and "ret + length (avail (k_in k)) \<le> length buf"
  shows "if stalls (k_in k) then srecv_loop k buf n ret = Inl Blocked
    else \<exists>msg buf' st. srecv_loop k buf n ret = Inr (-1, msg, buf', k\<lparr>k_in := st\<rparr>)"
  using assms
proof (induction "n - ret" arbitrary: k buf ret rule: less_induct)
  case less
  have True: "ret < n" using less.prems(1) by simp
  show ?case
  proof (cases "avail (k_in k) = []")
    case none: True
    show ?thesis
      using recv_seg_none [OF none, of "n - ret"] True by (subst (1 2) srecv_loop.simps) (auto split: if_splits)
  next
    case False
    from True False obtain d st where
      d: "d \<noteq> []" "avail (k_in k) = d @ avail st" "stalls st = stalls (k_in k)"
      and step: "ret + length d \<le> length buf \<Longrightarrow> srecv_loop k buf n ret
        = srecv_loop (k\<lparr>k_in := st\<rparr>) (take ret buf @ d @ drop (ret + length d) buf) n (ret + length d)"
      by (rule srecv_loop_round [where buf = buf]) blast
    let ?buf = "take ret buf @ d @ drop (ret + length d) buf"
    have eq: "srecv_loop k buf n ret = srecv_loop (k\<lparr>k_in := st\<rparr>) ?buf n (ret + length d)"
      using d(2) less.prems(2) by (intro step) simp
    have "n - (ret + length d) < n - ret" "length (avail (k_in (k\<lparr>k_in := st\<rparr>))) < n - (ret + length d)"
      "ret + length d + length (avail (k_in (k\<lparr>k_in := st\<rparr>))) \<le> length ?buf"
      using d True less.prems by (auto simp flip: length_greater_0_conv)
    from less.hyps [OF this] d(3) eq show ?thesis by (auto split: if_splits)
  qed
qed

definition all_sent :: "sock \<Rightarrow> bool" where
  "all_sent k \<longleftrightarrow> (\<forall>i. \<exists>b > 0. k_accept k i = Inr b)"

lemma ssend_loop_all:
  assumes "all_sent k" and "ret \<le> n" and "n \<le> length buf"
  shows "\<exists>k'. ssend_loop k buf n ret = Inr (int_of_long (int n), [], k') \<and> k_in k' = k_in k \<and> k_accept k' = k_accept k
    \<and> k_out k' = k_out k @ take (n - ret) (drop ret buf)"
  using assms
proof (induction "n - ret" arbitrary: k ret rule: less_induct)
  case less
  show ?case
  proof (cases "ret < n")
    case False
    then show ?thesis using less.prems(2) by (subst ssend_loop.simps) simp
  next
    case True
    obtain b where b: "0 < b" "k_accept k (k_calls k) = Inr b" using less.prems(1) by (auto simp: all_sent_def)
    let ?m = "min (nat b) (n - ret)"
    let ?d = "take ?m (drop ret buf)"
    let ?k = "k\<lparr>k_calls := Suc (k_calls k), k_out := k_out k @ ?d\<rparr>"
    have "mem_read buf ret ?m = Inr ?d" using True less.prems(3) by (simp add: mem_read_def)
    then have eq: "ssend_loop k buf n ret = ssend_loop ?k buf n (ret + ?m)"
      using True b by (subst ssend_loop.simps) (simp add: send_call_def Let_def)
    have "n - (ret + ?m) < n - ret" "all_sent ?k" "ret + ?m \<le> n" using True b(1) less.prems(1) by (auto simp: all_sent_def)
    from less.hyps [OF this less.prems(3)] obtain k' where
      "ssend_loop ?k buf n (ret + ?m) = Inr (int_of_long (int n), [], k')" "k_in k' = k_in k" "k_accept k' = k_accept k"
      "k_out k' = k_out k @ ?d @ take (n - (ret + ?m)) (drop (ret + ?m) buf)" by auto
    moreover have "?d @ take (n - (ret + ?m)) (drop (ret + ?m) buf) = take (?m + (n - (ret + ?m))) (drop ret buf)"
      by (simp only: take_add drop_drop add.commute [of ?m ret])
    moreover have "?m + (n - (ret + ?m)) = n - ret" by simp
    ultimately show ?thesis using eq by simp
  qed
qed

lemma srecv_loop_overflow:
  assumes "ret \<le> length buf" and "length buf < n" and "length buf - ret < length (avail (k_in k))"
  shows "srecv_loop k buf n ret = Inl Undef"
  using assms
proof (induction "n - ret" arbitrary: k buf ret rule: less_induct)
  case less
  have "ret < n" "avail (k_in k) \<noteq> []" using less.prems by auto
  then obtain d st where d: "d \<noteq> []" "avail (k_in k) = d @ avail st"
    and fits: "ret + length d \<le> length buf \<Longrightarrow> srecv_loop k buf n ret
        = srecv_loop (k\<lparr>k_in := st\<rparr>) (take ret buf @ d @ drop (ret + length d) buf) n (ret + length d)"
    and over: "length buf < ret + length d \<Longrightarrow> srecv_loop k buf n ret = Inl Undef"
    by (rule srecv_loop_round [where buf = buf]) blast
  show ?case
  proof (cases "ret + length d \<le> length buf")
    case False
    with over show ?thesis by simp
  next
    case True
    let ?buf = "take ret buf @ d @ drop (ret + length d) buf"
    have len: "length ?buf = length buf" using True by simp
    have "n - (ret + length d) < n - ret" "ret + length d \<le> length ?buf" "length ?buf < n"
      "length ?buf - (ret + length d) < length (avail (k_in (k\<lparr>k_in := st\<rparr>)))"
      using True less.prems d \<open>ret < n\<close> unfolding len by (auto simp flip: length_greater_0_conv)
    from less.hyps [OF this] fits [OF True] show ?thesis by simp
  qed
qed

end
