(* ===== verification/Ftp_Post.thy ===== *)
theory Ftp_Post
  imports Ftp_Stream Files
begin

text \<open>
  \<open>lab1/ftp_utils.hpp\<close> and \<open>lab1/defs.h\<close>: the packed 12 byte header with its length in network order, \<open>send_post\<close>
  and \<open>recv_post\<close>, and the two file functions. The locale \<open>framing\<close> is what client and server rely on: a stream
  of posts can be taken apart again.
\<close>

definition OPEN_REQUEST :: u8 where "OPEN_REQUEST = 0xA1"
definition OPEN_REPLY :: u8 where "OPEN_REPLY = 0xA2"
definition LIST_REQUEST :: u8 where "LIST_REQUEST = 0xA3"
definition LIST_REPLY :: u8 where "LIST_REPLY = 0xA4"
definition CD_REQUEST :: u8 where "CD_REQUEST = 0xA5"
definition CD_REPLY :: u8 where "CD_REPLY = 0xA6"
definition GET_REQUEST :: u8 where "GET_REQUEST = 0xA7"
definition GET_REPLY :: u8 where "GET_REPLY = 0xA8"
definition PUT_REQUEST :: u8 where "PUT_REQUEST = 0xA9"
definition PUT_REPLY :: u8 where "PUT_REPLY = 0xAA"
definition SHA_REQUEST :: u8 where "SHA_REQUEST = 0xAB"
definition SHA_REPLY :: u8 where "SHA_REPLY = 0xAC"
definition QUIT_REQUEST :: u8 where "QUIT_REQUEST = 0xAD"
definition QUIT_REPLY :: u8 where "QUIT_REPLY = 0xAE"
definition FILE_DATA :: u8 where "FILE_DATA = 0xFF"

section \<open>The header\<close>

record ftp_header =
  m_protocol :: "u8 list"
  m_type :: u8
  m_status :: u8
  m_length :: u32

definition MAGIC_NUMBER :: "u8 list" where
  "MAGIC_NUMBER = [0xC1, 0xA1, 0x10, 0x66, 0x74, 0x70]"

definition HEADER_SIZE :: nat where "HEADER_SIZE = 12"

text \<open>\<open>htonl\<close> and \<open>ntohl\<close> swap the bytes of a word on the little-endian machine.\<close>

definition htonl :: "u32 \<Rightarrow> u32" where
  "htonl w = of_le32 (rev (le32 w))"

definition ntohl :: "u32 \<Rightarrow> u32" where
  "ntohl w = of_le32 (rev (le32 w))"

definition new_ftp_header :: "u8 \<Rightarrow> u32 \<Rightarrow> u8 \<Rightarrow> ftp_header" where
  "new_ftp_header type' length' status' =
     \<lparr>m_protocol = MAGIC_NUMBER, m_type = type', m_status = status', m_length = htonl length'\<rparr>"

definition ftp_image :: "ftp_header \<Rightarrow> u8 list" where
  "ftp_image h = m_protocol h @ [m_type h, m_status h] @ le32 (m_length h)"

definition image_ftp :: "u8 list \<Rightarrow> ftp_header" where
  "image_ftp m = \<lparr>m_protocol = take 6 m, m_type = m ! 6, m_status = m ! 7, m_length = of_le32 (take 4 (drop 8 m))\<rparr>"

lemma ntohl_htonl [simp]: "ntohl (htonl w) = w"
  by (simp add: ntohl_def htonl_def)

lemma length_magic [simp]: "length MAGIC_NUMBER = 6"
  by (simp add: MAGIC_NUMBER_def)

lemma length_ftp_image [simp]: "length (m_protocol h) = 6 \<Longrightarrow> length (ftp_image h) = 12"
  by (simp add: ftp_image_def)

lemma image_ftp_image: "length (m_protocol h) = 6 \<Longrightarrow> image_ftp (ftp_image h @ rest) = h"
  by (simp add: image_ftp_def ftp_image_def nth_append)

section \<open>Posts\<close>

definition send_post :: "sock \<Rightarrow> u8 \<Rightarrow> u8 list \<Rightarrow> int \<Rightarrow> u8 \<Rightarrow> (int \<times> u8 list \<times> sock) res" where
  "send_post k type' buf len status' =
     (let header = new_ftp_header type' (of_int (int HEADER_SIZE + len)) status'
      in bind_res (ssend k (ftp_image header) (int HEADER_SIZE))
           (\<lambda>(scode, msg, k).
              if scode \<le> 0 then Inr (scode, msg, k)
              else bind_res (ssend k buf len) (\<lambda>(scode, msg', k). Inr (scode, msg @ msg', k))))"

text \<open>
  \<open>recv_post\<close> assigns the caller's variables through its pointers only when the header arrived, so their old values are
  arguments. The length is a \<open>size_t\<close> difference that is converted to \<open>int\<close>.
\<close>

record post_result =
  p_size :: int
  p_buf :: "u8 list"
  p_type :: u8
  p_status :: u8
  p_said :: "u8 list"
  p_sock :: sock

definition post_length :: "ftp_header \<Rightarrow> int" where
  "post_length h = int_of_long (uint (ntohl (m_length h)) - int HEADER_SIZE)"

definition recv_post :: "sock \<Rightarrow> u8 list \<Rightarrow> u8 \<Rightarrow> u8 \<Rightarrow> post_result res" where
  "recv_post k buf type' status' =
     bind_res (srecv k (replicate HEADER_SIZE 0) (int HEADER_SIZE))
     (\<lambda>(scode, msg, hbuf, k).
        if scode \<le> 0
        then Inr \<lparr>p_size = scode, p_buf = buf, p_type = type', p_status = status', p_said = msg, p_sock = k\<rparr>
        else let header = image_ftp hbuf
             in bind_res (srecv k buf (post_length header))
                  (\<lambda>(len, msg', buf, k). Inr \<lparr>p_size = len, p_buf = buf, p_type = m_type header,
                                             p_status = m_status header, p_said = msg @ msg', p_sock = k\<rparr>))"

section \<open>What a post looks like on the wire\<close>

definition post_wire :: "u8 \<Rightarrow> u8 \<Rightarrow> u8 list \<Rightarrow> u8 list" where
  "post_wire t s d = ftp_image (new_ftp_header t (of_nat (12 + length d)) s) @ d"

lemma length_post_wire [simp]: "length (post_wire t s d) = 12 + length d"
  by (simp add: post_wire_def new_ftp_header_def)

lemma ssend_all:
  assumes "all_sent k" and "n \<le> length buf" and "n \<le> INT_MAX"
  shows "\<exists>k'. ssend k buf (int n) = Inr (int n, [], k') \<and> k_out k' = k_out k @ take n buf \<and> k_in k' = k_in k \<and> all_sent k'"
proof -
  have "int_of_long (int n) = int n" using assms(3) by (intro int_of_long_id) (simp_all add: INT_MAX_def)
  moreover have "size_t_of_int (int n) = n" using assms(3) by (intro size_t_of_int_nat) (simp add: INT_MAX_def)
  ultimately show ?thesis
    using ssend_loop_all [of k 0 n buf] assms by (auto simp: ssend_def all_sent_def)
qed

lemma send_post_all:
  assumes "all_sent k" and "length d \<le> MAXBUF"
  shows "\<exists>k'. send_post k t (d @ rest) (int (length d)) s = Inr (int (length d), [], k')
    \<and> k_out k' = k_out k @ post_wire t s d \<and> k_in k' = k_in k \<and> all_sent k'"
proof -
  let ?h = "ftp_image (new_ftp_header t (of_nat (12 + length d)) s)"
  have h: "length ?h = 12" by (simp add: new_ftp_header_def)
  obtain k1 where k1: "ssend k ?h (int 12) = Inr (int 12, [], k1)" "k_out k1 = k_out k @ ?h"
    "k_in k1 = k_in k" "all_sent k1"
    using ssend_all [OF assms(1), of 12 ?h] h by (auto simp: INT_MAX_def)
  obtain k2 where "ssend k1 (d @ rest) (int (length d)) = Inr (int (length d), [], k2)" "k_out k2 = k_out k1 @ d"
    "k_in k2 = k_in k1" "all_sent k2"
    using ssend_all [OF k1(4), of "length d" "d @ rest"] assms(2) by (auto simp: INT_MAX_def MAXBUF_def)
  with k1 show ?thesis
    by (auto simp: send_post_def Let_def HEADER_SIZE_def post_wire_def)
qed

definition decode_post :: "u8 list \<Rightarrow> ((u8 \<times> u8 \<times> u8 list) \<times> u8 list) option" where
  "decode_post m =
     (if length m < 12 then None
      else let h = image_ftp m; n = post_length h
      in if n < 0 \<or> int (length m - 12) < n then None
      else Some ((m_type h, m_status h, take (nat n) (drop 12 m)), drop (12 + nat n) m))"

lemma post_length_new: "n \<le> MAXBUF \<Longrightarrow> post_length (new_ftp_header t (of_nat (12 + n)) s) = int n"
  by (simp add: post_length_def new_ftp_header_def HEADER_SIZE_def MAXBUF_def uint_nat unat_of_nat
      take_bit_nat_eq_self int_of_long_id del: of_nat_add)

lemma decode_post_wire: "length d \<le> MAXBUF \<Longrightarrow> decode_post (post_wire t s d @ rest) = Some ((t, s, d), rest)"
proof -
  assume l: "length d \<le> MAXBUF"
  let ?h = "new_ftp_header t (of_nat (12 + length d)) s"
  have "length (m_protocol ?h) = 6" by (simp add: new_ftp_header_def)
  then have "image_ftp (post_wire t s d @ rest) = ?h" "length (ftp_image ?h) = 12"
    by (simp_all add: post_wire_def image_ftp_image)
  with post_length_new [OF l, of t s] show ?thesis
    by (simp add: decode_post_def Let_def post_wire_def) (simp add: new_ftp_header_def)
qed

section \<open>What \<open>recv_post\<close> receives\<close>

lemma srecv_enough:
  assumes "n \<le> length (avail (k_in k))" and "n \<le> length buf" and "n \<le> INT_MAX"
  shows "\<exists>st. srecv k buf (int n) = Inr (int n, [], take n (avail (k_in k)) @ drop n buf, k\<lparr>k_in := st\<rparr>)
    \<and> avail st = drop n (avail (k_in k)) \<and> stalls st = stalls (k_in k)"
proof -
  have "int_of_long (int n) = int n" using assms(3) by (intro int_of_long_id) (simp_all add: INT_MAX_def)
  moreover have "size_t_of_int (int n) = n" using assms(3) by (intro size_t_of_int_nat) (simp add: INT_MAX_def)
  ultimately show ?thesis using srecv_loop_enough [of 0 n k buf] assms by (simp add: srecv_def)
qed

lemma length_12 [simp]: "drop HEADER_SIZE (replicate HEADER_SIZE x) = []"
  by simp

lemma image_ftp_take: "12 \<le> length m \<Longrightarrow> image_ftp (take 12 m) = image_ftp m"
  by (simp add: image_ftp_def take_drop)

lemma recv_post_header:
  assumes "12 \<le> length (avail (k_in k))"
  shows "\<exists>st. recv_post k buf t0 s0 =
      (let h = image_ftp (avail (k_in k))
       in bind_res (srecv (k\<lparr>k_in := st\<rparr>) buf (post_length h))
            (\<lambda>(len, msg, buf, k). Inr \<lparr>p_size = len, p_buf = buf, p_type = m_type h, p_status = m_status h,
              p_said = msg, p_sock = k\<rparr>))
    \<and> avail st = drop 12 (avail (k_in k)) \<and> stalls st = stalls (k_in k)"
proof -
  obtain st where "srecv k (replicate HEADER_SIZE 0) (int HEADER_SIZE)
      = Inr (int HEADER_SIZE, [], take 12 (avail (k_in k)), k\<lparr>k_in := st\<rparr>)" "avail st = drop 12 (avail (k_in k))"
      "stalls st = stalls (k_in k)"
    using srecv_enough [of HEADER_SIZE k "replicate HEADER_SIZE 0"] assms
    by (auto simp: HEADER_SIZE_def INT_MAX_def)
  then show ?thesis using image_ftp_take [OF assms]
    by (intro exI [of _ st]) (simp add: recv_post_def Let_def HEADER_SIZE_def)
qed

lemma recv_post_decode_stalls:
  assumes "decode_post (avail (k_in k)) = Some ((t, s, d), rest)" and "length d \<le> length buf"
  shows "\<exists>st. recv_post k buf t0 s0 = Inr \<lparr>p_size = int (length d), p_buf = d @ drop (length d) buf,
      p_type = t, p_status = s, p_said = [], p_sock = k\<lparr>k_in := st\<rparr>\<rparr> \<and> avail st = rest
    \<and> stalls st = stalls (k_in k)"
proof -
  let ?m = "avail (k_in k)"
  let ?h = "image_ftp ?m"
  have dec: "12 \<le> length ?m" "0 \<le> post_length ?h" "post_length ?h \<le> int (length ?m - 12)" "t = m_type ?h" "s = m_status ?h"
    "d = take (nat (post_length ?h)) (drop 12 ?m)" "rest = drop (12 + nat (post_length ?h)) ?m"
    using assms(1) by (auto simp: decode_post_def Let_def split: if_splits)
  then have d: "length d = nat (post_length ?h)" "post_length ?h = int (length d)" by auto
  have "post_length ?h < 2 ^ 31" unfolding post_length_def int_of_long_def
    using signed_take_bit_int_less_exp [of 31] by simp
  then have small: "length d \<le> INT_MAX" using d(2) by (simp add: INT_MAX_def)
  from recv_post_header [OF dec(1)] obtain st where
    st: "recv_post k buf t0 s0 = (let h = ?h
       in bind_res (srecv (k\<lparr>k_in := st\<rparr>) buf (post_length h))
            (\<lambda>(len, msg, buf, k). Inr \<lparr>p_size = len, p_buf = buf, p_type = m_type h, p_status = m_status h,
              p_said = msg, p_sock = k\<rparr>))"
      "avail st = drop 12 ?m" "stalls st = stalls (k_in k)" by blast
  have "length d \<le> length (avail (k_in (k\<lparr>k_in := st\<rparr>)))" using st(2) dec(1,3) d(2) by simp
  from srecv_enough [OF this assms(2) small] obtain st' where
    "srecv (k\<lparr>k_in := st\<rparr>) buf (int (length d)) = Inr (int (length d), [], take (length d) (avail st) @ drop (length d) buf, k\<lparr>k_in := st'\<rparr>)"
    "avail st' = drop (length d) (avail st)" "stalls st' = stalls st" by auto
  moreover have "take (length d) (avail st) = d" "drop (length d) (avail st) = rest"
    using st(2) dec(6,7) d(1) by (simp_all add: add.commute)
  ultimately show ?thesis using st(1,3) d(2) dec(4,5) by (intro exI [of _ st']) (simp add: Let_def)
qed

lemma recv_post_decode:
  assumes "decode_post (avail (k_in k)) = Some ((t, s, d), rest)" and "length d \<le> length buf"
  shows "\<exists>st. recv_post k buf t0 s0 = Inr \<lparr>p_size = int (length d), p_buf = d @ drop (length d) buf,
      p_type = t, p_status = s, p_said = [], p_sock = k\<lparr>k_in := st\<rparr>\<rparr> \<and> avail st = rest"
  using recv_post_decode_stalls [OF assms, of t0 s0] by blast

lemma recv_post_incomplete:
  assumes none: "decode_post (avail (k_in k)) = None" and len: "length (avail (k_in k)) \<le> 12 + length buf"
    and buf: "length buf \<le> MAXBUF"
  shows "if stalls (k_in k) then recv_post k buf t0 s0 = Inl Blocked
    else \<exists>r. recv_post k buf t0 s0 = Inr r \<and> p_size r = -1"
proof (cases "length (avail (k_in k)) < 12")
  case True
  then show ?thesis
    using srecv_loop_short [of k HEADER_SIZE 0 "replicate HEADER_SIZE 0"]
    by (auto simp: recv_post_def srecv_def HEADER_SIZE_def size_t_of_int_def split: if_splits)
next
  case False
  let ?m = "avail (k_in k)"
  let ?n = "post_length (image_ftp ?m)"
  have more: "12 \<le> length ?m" using False by simp
  have n: "- (2 ^ 31) \<le> ?n" "?n < 2 ^ 31" unfolding post_length_def int_of_long_def
    using signed_take_bit_int_greater_eq_minus_exp [of 31] signed_take_bit_int_less_exp [of 31] by simp_all
  have "?n < 0 \<or> int (length ?m - 12) < ?n"
    using none more by (auto simp: decode_post_def Let_def split: if_splits)
  moreover have "?n < 0 \<Longrightarrow> ?n mod 2 ^ 64 = ?n + 2 ^ 64" using n(1) mod_diff_cases [of 0 "2 ^ 64" "- ?n"] by simp
  ultimately have "length ?m - 12 < size_t_of_int ?n"
    using n len buf more by (auto simp: size_t_of_int_def MAXBUF_def)
  note short = this
  from recv_post_header [OF more, of buf t0 s0] obtain st where
    st: "recv_post k buf t0 s0 = (let h = image_ftp ?m
       in bind_res (srecv (k\<lparr>k_in := st\<rparr>) buf (post_length h))
            (\<lambda>(len, msg, buf, k). Inr \<lparr>p_size = len, p_buf = buf, p_type = m_type h, p_status = m_status h,
              p_said = msg, p_sock = k\<rparr>))"
      "avail st = drop 12 ?m" "stalls st = stalls (k_in k)" by blast
  moreover have "length ?m - 12 \<le> length buf" using len by simp
  ultimately show ?thesis
    using short srecv_loop_short [of "k\<lparr>k_in := st\<rparr>" "size_t_of_int ?n" 0 buf]
    by (auto simp: Let_def srecv_def split: if_splits)
qed

lemma recv_post_overflow:
  assumes "12 \<le> length (avail (k_in k))"
    and "length buf < size_t_of_int (post_length (image_ftp (avail (k_in k))))"
    and "length buf < length (avail (k_in k)) - 12"
  shows "recv_post k buf t0 s0 = Inl Undef"
proof -
  let ?h = "image_ftp (avail (k_in k))"
  from recv_post_header [OF assms(1)] obtain st where
    st: "recv_post k buf t0 s0 = (let h = ?h
       in bind_res (srecv (k\<lparr>k_in := st\<rparr>) buf (post_length h))
            (\<lambda>(len, msg, buf, k). Inr \<lparr>p_size = len, p_buf = buf, p_type = m_type h, p_status = m_status h,
              p_said = msg, p_sock = k\<rparr>))"
      "avail st = drop 12 (avail (k_in k))" by blast
  have "srecv (k\<lparr>k_in := st\<rparr>) buf (post_length ?h) = Inl Undef"
    unfolding srecv_def using st(2) assms(2,3) by (intro srecv_loop_overflow) simp_all
  then show ?thesis using st(1) by (simp add: Let_def)
qed

locale framing =
  fixes enc :: "'m \<Rightarrow> u8 list" and dec :: "u8 list \<Rightarrow> ('m \<times> u8 list) option" and fits :: "'m \<Rightarrow> bool"
  assumes dec_enc: "fits m \<Longrightarrow> dec (enc m @ rest) = Some (m, rest)"
begin

lemma unique_parse: "fits m \<Longrightarrow> fits m' \<Longrightarrow> enc m @ rest = enc m' @ rest' \<Longrightarrow> m = m' \<and> rest = rest'"
  by (metis dec_enc option.inject prod.inject)

lemma unique_parse_all:
  "\<forall>m \<in> set ms. fits m \<Longrightarrow> \<forall>m \<in> set ms'. fits m \<Longrightarrow> length ms = length ms' \<Longrightarrow>
   concat (map enc ms) @ rest = concat (map enc ms') @ rest' \<Longrightarrow> ms = ms' \<and> rest = rest'"
proof (induction ms ms' rule: list_induct2')
  case (4 m ms m' ms')
  have "m = m' \<and> concat (map enc ms) @ rest = concat (map enc ms') @ rest'"
    using 4(2-5) by (intro unique_parse) simp_all
  with 4 show ?case by simp
qed simp_all

end

interpretation post: framing "\<lambda>(t, s, d). post_wire t s d" decode_post "\<lambda>(t, s, d). length d \<le> MAXBUF"
  by unfold_locales (auto simp: decode_post_wire)

section \<open>Files\<close>

text \<open>
  What a file function prints comes with its result: \<open>serror\<close> when the file cannot be opened. The size of a file of
  \<open>2 ^ 31\<close> bytes or more does not fit into the \<open>int\<close>.
\<close>

definition ftp_write_file :: "bool \<Rightarrow> u8 list \<Rightarrow> int \<Rightarrow> (int \<times> u8 list \<times> u8 list option) res" where
  "ftp_write_file open_ok buf len =
     (if \<not> open_ok then Inr (-1, serror ''open file error (w)'', None)
      else bind_res (mem_read buf 0 (nat len)) (\<lambda>content. Inr (0, [], Some content)))"

definition ftp_read_file :: "u8 list option \<Rightarrow> u8 list \<Rightarrow> int \<Rightarrow> (int \<times> u8 list \<times> u8 list) res" where
  "ftp_read_file file buf len =
     (case file of
        None \<Rightarrow> Inr (-1, serror ''open file error (r)'', buf)
      | Some content \<Rightarrow>
          let fsize = min len (int_of_long (int (length content)))
          in bind_res (mem_write buf 0 (take (nat fsize) content)) (\<lambda>buf. Inr (fsize, [], buf)))"

lemma ftp_read_file_carried:
  assumes "length content \<le> INT_MAX" and "length buf = MAXBUF"
  shows "ftp_read_file (Some content) buf (int MAXBUF) =
    Inr (int (length (carried content)), [], carried content @ drop (length (carried content)) buf)"
proof -
  have "int_of_long (int (length content)) = int (length content)"
    using assms(1) by (intro int_of_long_id) (simp_all add: INT_MAX_def)
  then show ?thesis using assms by (simp add: ftp_read_file_def mem_write_def carried_def min_def)
qed

end
