(* ===== verification/Ftp_Server.thy ===== *)
theory Ftp_Server
  imports Ftp_Post Args
begin

text \<open>
  \<open>lab1/ftp_server.cpp\<close>: the handlers, the table they are called through, and the event loop. A path is its bytes. The
  record \<open>os\<close> holds what the operating system answers (how a name resolves to a canonical path, what a shell command
  prints and what it makes of the files, where a file may be created, which paths cannot be looked up); the file system itself is part of the server's state, as is what it has printed.
\<close>

type_synonym path = "u8 list"
type_synonym file_map = "path \<Rightarrow> u8 list option"

record os =
  os_resolve :: "path \<Rightarrow> path \<Rightarrow> path"
  os_shell :: "file_map \<Rightarrow> path \<Rightarrow> u8 list \<Rightarrow> (u8 list \<times> file_map) option"
  os_writable :: "path \<Rightarrow> bool"
  os_junk :: "u8 list"
  os_stat_error :: "path \<Rightarrow> bool"

record server =
  v_files :: file_map
  v_dirs :: "path list"
  v_cwd :: path
  v_dft :: path
  v_cwds :: "path list"
  v_socks :: "int \<Rightarrow> sock option"
  v_watch :: "int list"
  v_type :: u8
  v_log :: "u8 list"

definition MAXCONN :: nat where "MAXCONN = 64"

definition null_path :: path where "null_path = [78, 85, 76, 76]"
definition cmd_ls :: "u8 list" where "cmd_ls = [108, 115]"
definition cmd_sha256sum :: "u8 list" where
  "cmd_sha256sum = [115, 104, 97, 50, 53, 54, 115, 117, 109, 32]"

definition type2ind :: "u8 \<Rightarrow> int" where
  "type2ind m = (let d = uint m - uint OPEN_REQUEST in if d < 0 then - (- d div 2) else d div 2)"

definition fd2ind :: "int \<Rightarrow> int" where
  "fd2ind fd = fd - 2"

section \<open>Strings, files and connections\<close>

definition tell :: "server \<Rightarrow> u8 list \<Rightarrow> server" where
  "tell v msg = v\<lparr>v_log := v_log v @ msg\<rparr>"

lemma tell_simps [simp]:
  "tell v [] = v" "v_files (tell v m) = v_files v" "v_dirs (tell v m) = v_dirs v" "v_cwd (tell v m) = v_cwd v"
  "v_dft (tell v m) = v_dft v" "v_cwds (tell v m) = v_cwds v" "v_socks (tell v m) = v_socks v"
  "v_watch (tell v m) = v_watch v" "v_type (tell v m) = v_type v" "v_log (tell v m) = v_log v @ m"
  by (simp_all add: tell_def)

text \<open>\<open>return serror(msg)\<close>\<close>

definition srv_error :: "server \<Rightarrow> string \<Rightarrow> (int \<times> server) res" where
  "srv_error v msg = Inr (-1, tell v (serror msg))"

text \<open>A C string: the bytes before the first zero, which must be in the buffer.\<close>

definition c_string :: "u8 list \<Rightarrow> u8 list res" where
  "c_string buf = (if 0 \<in> set buf then Inr (takeWhile (\<lambda>c. c \<noteq> 0) buf) else Inl Undef)"

definition fs_exists :: "os \<Rightarrow> server \<Rightarrow> path \<Rightarrow> bool" where
  "fs_exists os v p \<longleftrightarrow> p \<noteq> [] \<and>
     (let q = os_resolve os (v_cwd v) p in v_files v q \<noteq> None \<or> q \<in> set (v_dirs v))"

text \<open>\<open>fs::exists\<close> throws when the path cannot be looked up: a name that is too long, a directory without permission.\<close>

definition fs_lookup :: "os \<Rightarrow> server \<Rightarrow> path \<Rightarrow> bool res" where
  "fs_lookup os v p =
     (if p \<noteq> [] \<and> os_stat_error os (os_resolve os (v_cwd v) p) then Inl Uncaught else Inr (fs_exists os v p))"

definition chdir :: "os \<Rightarrow> server \<Rightarrow> path \<Rightarrow> server option" where
  "chdir os v p =
     (let q = os_resolve os (v_cwd v) p in if q \<in> set (v_dirs v) then Some (v\<lparr>v_cwd := q\<rparr>) else None)"

definition cwd_get :: "server \<Rightarrow> int \<Rightarrow> path res" where
  "cwd_get v fd = (if fd2ind fd < 0 \<or> int (length (v_cwds v)) \<le> fd2ind fd then Inl Undef
     else Inr (v_cwds v ! nat (fd2ind fd)))"

definition cwd_set :: "server \<Rightarrow> int \<Rightarrow> path \<Rightarrow> server res" where
  "cwd_set v fd p = (if fd2ind fd < 0 \<or> int (length (v_cwds v)) \<le> fd2ind fd then Inl Undef
     else Inr (v\<lparr>v_cwds := (v_cwds v)[nat (fd2ind fd) := p]\<rparr>))"

definition reply :: "server \<Rightarrow> int \<Rightarrow> u8 \<Rightarrow> u8 list \<Rightarrow> int \<Rightarrow> u8 \<Rightarrow> (int \<times> server) res" where
  "reply v fd t buf len s =
     (case v_socks v fd of
        None \<Rightarrow> srv_error v ''ssend error''
      | Some k \<Rightarrow> bind_res (send_post k t buf len s)
          (\<lambda>(scode, msg, k). Inr (scode, tell (v\<lparr>v_socks := (v_socks v)(fd \<mapsto> k)\<rparr>) msg)))"

definition receive :: "server \<Rightarrow> int \<Rightarrow> u8 list \<Rightarrow> (int \<times> u8 list \<times> u8 \<times> server) res" where
  "receive v fd buf =
     (case v_socks v fd of
        None \<Rightarrow> Inr (-1, buf, v_type v, tell v (serror ''srecv error''))
      | Some k \<Rightarrow> bind_res (recv_post k buf (v_type v) 0)
          (\<lambda>r. Inr (p_size r, p_buf r, p_type r, tell (v\<lparr>v_socks := (v_socks v)(fd \<mapsto> p_sock r)\<rparr>) (p_said r))))"

text \<open>\<open>popen\<close> and the reading of all that the command prints. The command is run by a shell in the process directory and may
  change the files; that it creates or removes directories is not modelled.\<close>

definition popen :: "os \<Rightarrow> server \<Rightarrow> u8 list \<Rightarrow> u8 list option \<times> server" where
  "popen os v cmd =
     (case os_shell os (v_files v) (v_cwd v) cmd of
        None \<Rightarrow> (None, v)
      | Some (out, files) \<Rightarrow> (Some out, v\<lparr>v_files := files\<rparr>))"

definition status_of :: "bool \<Rightarrow> u8" where
  "status_of b = (if b then 1 else 0)"

section \<open>The handlers\<close>

type_synonym handler = "os \<Rightarrow> server \<Rightarrow> int \<Rightarrow> u8 list \<Rightarrow> (int \<times> server) res"

definition srv_open :: handler where
  "srv_open os v fd args =
     bind_res (reply v fd OPEN_REPLY [] 0 1) (\<lambda>(scode, v).
       if scode < 0 then srv_error v ''send open reply error''
       else bind_res (cwd_set v fd (v_dft v)) (\<lambda>v. Inr (0, v)))"

definition srv_quit :: handler where
  "srv_quit os v fd args =
     bind_res (reply v fd QUIT_REPLY [] 0 0) (\<lambda>(scode, v).
       if scode < 0 then srv_error v ''send quit reply error''
       else let v = (if fd \<in> set (v_watch v) then v\<lparr>v_watch := removeAll fd (v_watch v)\<rparr>
                     else tell v (serror ''delete epoll control error''))
            in if v_socks v fd = None then srv_error v ''close socket error''
               else bind_res (cwd_set (v\<lparr>v_socks := (v_socks v)(fd := None)\<rparr>) fd null_path) (\<lambda>v. Inr (0, v)))"

text \<open>What \<open>do_ls\<close> and \<open>do_sha\<close> have in common: the output of a command is read and sent.\<close>

definition send_output :: "server \<Rightarrow> int \<Rightarrow> u8 \<Rightarrow> u8 list option \<Rightarrow> string \<Rightarrow> string \<Rightarrow> (int \<times> server) res" where
  "send_output v fd t output popen_msg send_msg =
     (case output of
        None \<Rightarrow> srv_error v popen_msg
      | Some out \<Rightarrow>
          let nread = min MAXBUF (length out)
          in if MAXBUF \<le> nread then Inl Undef
             else bind_res (reply v fd t (take nread out @ [0]) (int (nread + 1)) 0) (\<lambda>(scode, v).
                    if scode < 0 then srv_error v send_msg else Inr (0, v)))"

definition srv_ls :: handler where
  "srv_ls os v fd args =
     (case popen os v cmd_ls of (output, v) \<Rightarrow>
        send_output v fd LIST_REPLY output ''popen ls error'' ''send ls reply error'')"

definition srv_cd :: handler where
  "srv_cd os v fd args =
     bind_res (c_string args) (\<lambda>name.
     bind_res (fs_lookup os v name) (\<lambda>s.
     bind_res (reply v fd CD_REPLY [] 0 (status_of s)) (\<lambda>(scode, v).
       if scode < 0 then srv_error v ''send cd reply error''
       else if s then bind_res (cwd_set v fd (os_resolve os (v_cwd v) name)) (\<lambda>v. Inr (0, v))
       else Inr (0, v))))"

definition srv_get :: handler where
  "srv_get os v fd args =
     bind_res (c_string args) (\<lambda>name.
     bind_res (fs_lookup os v name) (\<lambda>s.
     bind_res (reply v fd GET_REPLY [] 0 (status_of s)) (\<lambda>(scode, v).
       if scode < 0 then srv_error v ''send get reply error''
       else if \<not> s then Inr (0, v)
       else bind_res (ftp_read_file (v_files v (os_resolve os (v_cwd v) name)) (os_junk os) (int MAXBUF))
         (\<lambda>(len, msg, buf). if len < 0 then Inr (-1, tell v msg)
            else bind_res (reply v fd FILE_DATA buf len 0) (\<lambda>(scode, v).
                   if scode < 0 then srv_error v ''send file data error'' else Inr (0, v))))))"

definition srv_put :: handler where
  "srv_put os v fd args =
     bind_res (reply v fd PUT_REPLY [] 0 0) (\<lambda>(scode, v).
       if scode < 0 then srv_error v ''send put reply error''
       else bind_res (receive v fd (os_junk os)) (\<lambda>(len, buf, t, v).
         if len < 0 then srv_error v ''recv file data error''
         else if t \<noteq> FILE_DATA then srv_error v ''bad file data''
         else bind_res (c_string args) (\<lambda>name.
           let q = os_resolve os (v_cwd v) name
           in bind_res (ftp_write_file (os_writable os q \<and> q \<notin> set (v_dirs v)) buf len)
             (\<lambda>(scode, msg, content). if scode < 0 then Inr (-1, tell v msg)
                else Inr (0, v\<lparr>v_files := (v_files v)(q := content)\<rparr>)))))"

definition srv_sha :: handler where
  "srv_sha os v fd args =
     bind_res (c_string args) (\<lambda>name.
     bind_res (fs_lookup os v name) (\<lambda>s.
     bind_res (reply v fd SHA_REPLY [] 0 (status_of s)) (\<lambda>(scode, v).
       if scode < 0 then srv_error v ''send sha256 reply error''
       else if \<not> s then Inr (0, v)
       else (case popen os v (cmd_sha256sum @ os_resolve os (v_cwd v) name) of (output, v) \<Rightarrow>
               send_output v fd FILE_DATA output ''popen sha256sum error'' ''send file data error''))))"

definition funcs :: "handler list" where
  "funcs = [srv_open, srv_ls, srv_cd, srv_get, srv_put, srv_sha, srv_quit]"

section \<open>The event loop\<close>

definition dispatch :: "os \<Rightarrow> server \<Rightarrow> int \<Rightarrow> u8 list \<Rightarrow> u8 \<Rightarrow> (int \<times> server) res" where
  "dispatch os v fd buf t =
     (if type2ind t < 0 \<or> int (length funcs) \<le> type2ind t then Inl Undef
      else (funcs ! nat (type2ind t)) os v fd buf)"

text \<open>What the loop does after a handler: it changes back to the start directory, or says that it cannot.\<close>

definition back_home :: "os \<Rightarrow> server \<Rightarrow> server" where
  "back_home os v =
     (case chdir os v (v_dft v) of
        None \<Rightarrow> tell v (serror ''change to default directory error'')
      | Some v \<Rightarrow> v)"

lemma back_home_simps [simp]:
  "v_files (back_home os v) = v_files v" "v_socks (back_home os v) = v_socks v" "v_cwds (back_home os v) = v_cwds v"
  "v_watch (back_home os v) = v_watch v" "v_dirs (back_home os v) = v_dirs v" "v_dft (back_home os v) = v_dft v"
  "v_type (back_home os v) = v_type v"
  by (auto simp: back_home_def chdir_def Let_def)

definition serve_request :: "os \<Rightarrow> server \<Rightarrow> int \<Rightarrow> server res" where
  "serve_request os v fd =
     bind_res (receive v fd (replicate MAXBUF 0)) (\<lambda>(len, buf, t, v).
       let v = v\<lparr>v_type := t\<rparr>
       in if len < 0 then Inr (tell v (serror ''recv request error''))
          else bind_res (cwd_get v fd) (\<lambda>p. bind_res (fs_lookup os v p) (\<lambda>s.
            case (if s then chdir os v p else Some v) of
              None \<Rightarrow> Inr (tell v (serror ''change to client directory error''))
            | Some v \<Rightarrow>
                bind_res (dispatch os v fd buf (v_type v)) (\<lambda>(scode, v).
                  Inr (back_home os v)))))"

text \<open>A new connection comes with the descriptor, the socket, and whether \<open>epoll_ctl\<close> adds it to what is watched.\<close>

datatype epoll_event = Accepted int sock bool | Accept_Failed | Readable int

fun serve_event :: "os \<Rightarrow> server \<Rightarrow> epoll_event \<Rightarrow> server res" where
  "serve_event os v Accept_Failed = Inr (tell v (serror ''accept error''))"
| "serve_event os v (Accepted fd k added) =
     (let v = v\<lparr>v_socks := (v_socks v)(fd \<mapsto> k)\<rparr>
      in Inr (if added then v\<lparr>v_watch := v_watch v @ [fd]\<rparr> else tell v (serror ''add connfd epoll control error'')))"
| "serve_event os v (Readable fd) = serve_request os v fd"

fun serve_events :: "os \<Rightarrow> server \<Rightarrow> epoll_event list \<Rightarrow> server res" where
  "serve_events os v [] = Inr v"
| "serve_events os v (ev # evs) = bind_res (serve_event os v ev) (\<lambda>v. serve_events os v evs)"

definition server_init :: "file_map \<Rightarrow> path list \<Rightarrow> path \<Rightarrow> server" where
  "server_init files dirs cwd =
     \<lparr>v_files = files, v_dirs = dirs, v_cwd = cwd, v_dft = cwd, v_cwds = replicate MAXCONN null_path,
      v_socks = (\<lambda>fd. None), v_watch = [], v_type = 0, v_log = []\<rparr>"

text \<open>\<open>main\<close>: the exit status and what it has printed where it returns, and the server when it serves the events.\<close>

definition server_main ::
    "os \<Rightarrow> (string \<Rightarrow> u32 option) \<Rightarrow> (u32 \<Rightarrow> u16 \<Rightarrow> bool) \<Rightarrow> bool \<Rightarrow> bool \<Rightarrow> file_map \<Rightarrow> path list \<Rightarrow> path \<Rightarrow>
     string list \<Rightarrow> epoll_event list \<Rightarrow> (int \<times> u8 list + server) res" where
  "server_main os pton bind_ok listen_ok epoll_ok files dirs cwd argv evs =
     (if length argv \<noteq> 3 then Inr (Inl (0, bytes_of ''usage: ftp_server <IPaddr> <Port>'' @ [10]))
      else case pton (argv ! 1) of
          None \<Rightarrow> Inr (Inl (-1, serror ''inet_pton error''))
        | Some ip \<Rightarrow>
            if \<not> bind_ok ip (of_int (atoi (argv ! 2))) then Inr (Inl (-1, serror ''bind error''))
            else if \<not> listen_ok then Inr (Inl (-1, serror ''listen error''))
            else
              let v = server_init files dirs cwd;
                  v = (if epoll_ok then v else tell v (serror ''add listenfd epoll control error''))
              in bind_res (serve_events os v evs) (\<lambda>v. Inr (Inr v)))"

end
