(* ===== verification/Ftp_Client.thy ===== *)
theory Ftp_Client
  imports Ftp_Server
begin

text \<open>
  \<open>lab1/ftp_client.cpp\<close>: the commands, \<open>parseline\<close> with its table, and the prompt loop. The connections that \<open>connect\<close>
  opens are handed out from a list; what the client prints is
  collected.
\<close>

record client =
  c_connected :: bool
  c_running :: bool
  c_prompt :: "u8 list"
  c_sock :: "sock option"
  c_type :: u8
  c_status :: u8
  c_files :: file_map
  c_cwd :: path
  c_net :: "sock option list"
  c_printed :: "u8 list"

definition default_prompt :: "u8 list" where
  "default_prompt = bytes_of ''Client(None)>''"

text \<open>The globals at the start of the program, in a directory, with the connections that \<open>connect\<close> will open.\<close>

definition client_init :: "file_map \<Rightarrow> path \<Rightarrow> sock option list \<Rightarrow> client" where
  "client_init files cwd net =
     \<lparr>c_connected = False, c_running = True, c_prompt = default_prompt, c_sock = None, c_type = 0, c_status = 0,
      c_files = files, c_cwd = cwd, c_net = net, c_printed = []\<rparr>"

definition MAXLINE :: nat where "MAXLINE = 2048"

section \<open>Sending and receiving\<close>

definition c_say :: "client \<Rightarrow> u8 list \<Rightarrow> client" where
  "c_say c msg = c\<lparr>c_printed := c_printed c @ msg\<rparr>"

lemma c_say_simps [simp]:
  "c_say c [] = c" "c_connected (c_say c m) = c_connected c" "c_running (c_say c m) = c_running c"
  "c_prompt (c_say c m) = c_prompt c" "c_sock (c_say c m) = c_sock c" "c_type (c_say c m) = c_type c"
  "c_status (c_say c m) = c_status c" "c_files (c_say c m) = c_files c" "c_cwd (c_say c m) = c_cwd c"
  "c_net (c_say c m) = c_net c" "c_printed (c_say c m) = c_printed c @ m"
  by (simp_all add: c_say_def)

text \<open>\<open>return serror(msg)\<close>\<close>

definition cl_error :: "client \<Rightarrow> string \<Rightarrow> (int \<times> client) res" where
  "cl_error c msg = Inr (-1, c_say c (serror msg))"

definition c_send :: "client \<Rightarrow> u8 \<Rightarrow> u8 list \<Rightarrow> int \<Rightarrow> (int \<times> client) res" where
  "c_send c t buf len =
     (case c_sock c of
        None \<Rightarrow> cl_error c ''ssend error''
      | Some k \<Rightarrow> bind_res (send_post k t buf len 0) (\<lambda>(scode, msg, k). Inr (scode, c_say (c\<lparr>c_sock := Some k\<rparr>) msg)))"

definition c_recv :: "client \<Rightarrow> u8 list \<Rightarrow> (int \<times> u8 list \<times> client) res" where
  "c_recv c buf =
     (case c_sock c of
        None \<Rightarrow> Inr (-1, buf, c_say c (serror ''srecv error''))
      | Some k \<Rightarrow> bind_res (recv_post k buf (c_type c) (c_status c))
          (\<lambda>r. Inr (p_size r, p_buf r,
             c_say (c\<lparr>c_sock := Some (p_sock r), c_type := p_type r, c_status := p_status r\<rparr>) (p_said r))))"

text \<open>\<open>recv_post\<close> without a status pointer, as \<open>do_get\<close> calls it for the file.\<close>

definition c_recv_data :: "client \<Rightarrow> u8 list \<Rightarrow> (int \<times> u8 list \<times> client) res" where
  "c_recv_data c buf =
     bind_res (c_recv c buf) (\<lambda>(len, buf, c'). Inr (len, buf, c'\<lparr>c_status := c_status c\<rparr>))"

text \<open>
  The command line is the buffer from which the argument pointers come; an argument is a C string, or \<open>None\<close> for the pointer
  \<open>p + 1\<close> that \<open>parseline\<close> computes when there is no space. Using that pointer is undefined.
\<close>

definition the_arg :: "u8 list option \<Rightarrow> u8 list res" where
  "the_arg args = (case args of None \<Rightarrow> Inl Undef | Some a \<Rightarrow> Inr a)"

type_synonym command = "os \<Rightarrow> client \<Rightarrow> u8 list option \<Rightarrow> (int \<times> client) res"

section \<open>The commands\<close>

definition cl_open :: command where
  "cl_open os c args =
     bind_res (the_arg args) (\<lambda>a.
       if (32 :: u8) \<notin> set a then Inl Undef
       else
         let ip = takeWhile (\<lambda>x. x \<noteq> 32) a;
             port = atoi (string_of (tl (dropWhile (\<lambda>x. x \<noteq> 32) a)))
         in case c_net c of
              [] \<Rightarrow> cl_error (c\<lparr>c_sock := None\<rparr>) ''connect error''
            | None # net \<Rightarrow> cl_error (c\<lparr>c_sock := None, c_net := net\<rparr>) ''connect error''
            | Some k # net \<Rightarrow>
                bind_res (c_send (c\<lparr>c_sock := Some k, c_net := net\<rparr>) OPEN_REQUEST [] 0) (\<lambda>(scode, c).
                  if scode < 0 then cl_error (c\<lparr>c_sock := None\<rparr>) ''send open request error''
                  else bind_res (c_recv c (os_junk os)) (\<lambda>(len, buf, c).
                    if len < 0 then cl_error (c\<lparr>c_sock := None\<rparr>) ''recv open reply error''
                    else if c_type c \<noteq> OPEN_REPLY \<or> c_status c \<noteq> 1 then cl_error (c\<lparr>c_sock := None\<rparr>) ''bad open reply''
                    else
                      let p = bytes_of ''Client('' @ ip @ bytes_of '':'' @ bytes_of (show_int port) @ bytes_of '')>''
                      in if MAXLINE \<le> length p then Inl Undef
                         else Inr (0, c\<lparr>c_connected := True, c_prompt := p,
                                       c_printed := c_printed c @ bytes_of ''connection established'' @ [10]\<rparr>))))"

definition cl_quit :: command where
  "cl_quit os c args =
     (if \<not> c_connected c then Inr (0, c\<lparr>c_running := False\<rparr>)
      else bind_res (c_send c QUIT_REQUEST [] 0) (\<lambda>(scode, c).
        if scode < 0 then cl_error c ''send quit request error''
        else bind_res (c_recv c (os_junk os)) (\<lambda>(len, buf, c).
          if len < 0 then cl_error c ''recv quit reply error''
          else if c_type c \<noteq> QUIT_REPLY then cl_error c ''bad quit reply''
          else if c_sock c = None then cl_error c ''close socket error''
          else Inr (0, c\<lparr>c_sock := None, c_connected := False, c_prompt := default_prompt,
                        c_printed := c_printed c @ bytes_of ''connection close ok'' @ [10]\<rparr>))))"

definition cl_ls :: command where
  "cl_ls os c args =
     (if \<not> c_connected c then cl_error c ''ls not supported offline''
      else bind_res (c_send c LIST_REQUEST [] 0) (\<lambda>(scode, c).
        if scode < 0 then cl_error c ''send ls request error''
        else bind_res (c_recv c (os_junk os)) (\<lambda>(len, buf, c).
          if len < 0 then cl_error c ''recv ls reply error''
          else if c_type c \<noteq> LIST_REPLY then cl_error c ''bad ls reply''
          else bind_res (c_string buf) (\<lambda>s. Inr (0, c_say c s)))))"

definition cl_cd :: command where
  "cl_cd os c args =
     (if \<not> c_connected c then cl_error c ''cd not supported offline''
      else bind_res (the_arg args) (\<lambda>a.
        bind_res (c_send c CD_REQUEST (a @ [0]) (int (length a + 1))) (\<lambda>(scode, c).
        if scode < 0 then cl_error c ''send cd request error''
        else bind_res (c_recv c (os_junk os)) (\<lambda>(len, buf, c).
          if len < 0 then cl_error c ''recv cd reply error''
          else if c_type c \<noteq> CD_REPLY \<or> c_status c \<noteq> 1 then cl_error c ''bad cd reply''
          else Inr (0, c)))))"

definition cl_get :: command where
  "cl_get os c args =
     (if \<not> c_connected c then cl_error c ''get not supported offline''
      else bind_res (the_arg args) (\<lambda>a.
        bind_res (c_send c GET_REQUEST (a @ [0]) (int (length a + 1))) (\<lambda>(scode, c).
        if scode < 0 then cl_error c ''send get request error''
        else bind_res (c_recv c (os_junk os)) (\<lambda>(len, buf, c).
          if len < 0 then cl_error c ''recv get reply error''
          else if c_type c \<noteq> GET_REPLY \<or> c_status c \<noteq> 1 then cl_error c ''bad get reply''
          else bind_res (c_recv_data c buf) (\<lambda>(len, buf, c).
            if len < 0 then cl_error c ''recv file data error''
            else if c_type c \<noteq> FILE_DATA then cl_error c ''bad file data''
            else let q = os_resolve os (c_cwd c) a
              in bind_res (ftp_write_file (os_writable os q) buf len) (\<lambda>(scode, msg, content).
                   if scode < 0 then Inr (-1, c_say c msg)
                   else Inr (0, c\<lparr>c_files := (c_files c)(q := content)\<rparr>)))))))"

definition cl_put :: command where
  "cl_put os c args =
     (if \<not> c_connected c then cl_error c ''put not supported offline''
      else bind_res (the_arg args) (\<lambda>a.
        bind_res (c_send c PUT_REQUEST (a @ [0]) (int (length a + 1))) (\<lambda>(scode, c).
        if scode < 0 then cl_error c ''send put request error''
        else bind_res (c_recv c (os_junk os)) (\<lambda>(len, buf, c).
          if len < 0 then cl_error c ''recv put reply error''
          else if c_type c \<noteq> PUT_REPLY then cl_error c ''bad put reply''
          else bind_res (ftp_read_file (c_files c (os_resolve os (c_cwd c) a)) buf (int MAXBUF)) (\<lambda>(len, msg, buf).
            if len < 0 then Inr (-1, c_say c msg)
            else bind_res (c_send c FILE_DATA buf len) (\<lambda>(scode, c).
              if scode < 0 then cl_error c ''send data file error'' else Inr (0, c)))))))"

definition cl_sha :: command where
  "cl_sha os c args =
     (if \<not> c_connected c then cl_error c ''sha256 not supported offline''
      else bind_res (the_arg args) (\<lambda>a.
        bind_res (c_send c SHA_REQUEST (a @ [0]) (int (length a + 1))) (\<lambda>(scode, c).
        if scode < 0 then cl_error c ''send sha256 request error''
        else bind_res (c_recv c (os_junk os)) (\<lambda>(len, buf, c).
          if len < 0 then cl_error c ''recv sha256 reply error''
          else if c_type c \<noteq> SHA_REPLY \<or> c_status c \<noteq> 1 then cl_error c ''bad sha256 reply''
          else bind_res (c_recv c buf) (\<lambda>(len, buf, c).
            if len < 0 then cl_error c ''recv file data error''
            else if c_type c \<noteq> FILE_DATA then cl_error c ''bad file data''
            else bind_res (c_string buf) (\<lambda>s. Inr (0, c_say c s)))))))"

section \<open>The command line\<close>

definition cmdnames :: "u8 list list" where
  "cmdnames = map bytes_of [''open'', ''ls'', ''cd'', ''get'', ''put'', ''sha256'', ''quit'']"

definition cmdfuncs :: "command list" where
  "cmdfuncs = [cl_open, cl_ls, cl_cd, cl_get, cl_put, cl_sha, cl_quit]"

definition to_lower :: "u8 \<Rightarrow> u8" where
  "to_lower b = (if 65 \<le> b \<and> b \<le> 90 then b + 32 else b)"

definition strncasecmp0 :: "u8 list \<Rightarrow> u8 list \<Rightarrow> bool" where
  "strncasecmp0 line name \<longleftrightarrow> map to_lower (take (length name) line) = map to_lower name"

fun find_command :: "u8 list \<Rightarrow> (u8 list \<times> command) list \<Rightarrow> command option" where
  "find_command line [] = None"
| "find_command line ((name, f) # rest) = (if strncasecmp0 line name then Some f else find_command line rest)"

definition parseline :: "os \<Rightarrow> client \<Rightarrow> u8 list \<Rightarrow> (int \<times> client) res" where
  "parseline os c line =
     (let p = (if 32 \<in> set line then Some (tl (dropWhile (\<lambda>x. x \<noteq> 32) line)) else None)
      in case find_command line (zip cmdnames cmdfuncs) of
           None \<Rightarrow> Inr (1, c)
         | Some f \<Rightarrow> f os c p)"

text \<open>\<open>fgets\<close>: at most \<open>MAXLINE - 1\<close> bytes up to and with the newline, and whether the end of the input was met.\<close>

definition fgets :: "u8 list \<Rightarrow> u8 list \<times> u8 list \<times> bool" where
  "fgets inp =
     (let l = takeWhile (\<lambda>x. x \<noteq> 10) inp
      in if length l < MAXLINE - 1
         then if length l < length inp then (l @ [10], drop (Suc (length l)) inp, False) else (l, [], True)
         else (take (MAXLINE - 1) inp, drop (MAXLINE - 1) inp, False))"

lemma fgets_rest: "fgets inp = (l, rest, False) \<Longrightarrow> length rest < length inp"
proof -
  assume f: "fgets inp = (l, rest, False)"
  have le: "length (takeWhile (\<lambda>x. x \<noteq> 10) inp) \<le> length inp" by (rule length_takeWhile_le)
  show ?thesis using f le
    by (cases "length (takeWhile (\<lambda>x. x \<noteq> 10) inp) < MAXLINE - 1") (auto simp: fgets_def Let_def MAXLINE_def split: if_splits)
qed

text \<open>
  \<open>main\<close>: a line is read, its last character cut off, and the line executed, until \<open>quit\<close> offline or the end of the input.
  The cut writes in front of the buffer when the line starts with a zero byte.
\<close>

function client_main :: "os \<Rightarrow> client \<Rightarrow> u8 list \<Rightarrow> client res" where
  "client_main os c inp =
     (if \<not> c_running c then Inr c
      else case fgets inp of (l, rest, eof) \<Rightarrow>
        let c = c_say c (c_prompt c)
        in if eof then Inr (c_say c [10])
           else let s = takeWhile (\<lambda>x. x \<noteq> 0) l
             in if s = [] then Inl Undef
                else bind_res (parseline os c (butlast s)) (\<lambda>(r, c).
                  client_main os (if 0 < r then c_say c (serror ''command not supported'') else c) rest))"
  by pat_completeness auto
termination
  by (relation "measure (\<lambda>(os, c, inp). length inp)") (auto dest: fgets_rest [OF sym])

declare client_main.simps [simp del]

end
