(* ===== verification/Ftp_Session.thy ===== *)
theory Ftp_Session
  imports Ftp_Server
begin

text \<open>
  What the handlers leave alone: a request on one connection changes the socket and the directory of that connection only,
  and the process is back in its start directory afterwards. Partial results are handled with \<open>returns\<close>, one rule for each
  primitive of the server.
\<close>

section \<open>One connection\<close>

text \<open>The event loop watches a connection only while it has a socket.\<close>

definition watched :: "server \<Rightarrow> int \<Rightarrow> bool" where
  "watched v fd \<longleftrightarrow> (fd \<in> set (v_watch v) \<longrightarrow> v_socks v fd \<noteq> None)"

text \<open>\<open>same_but fd v v'\<close>: the two states agree on all that does not belong to the connection \<open>fd\<close>.\<close>

definition same_but :: "int \<Rightarrow> server \<Rightarrow> server \<Rightarrow> bool" where
  "same_but fd v v' \<longleftrightarrow> v_dirs v' = v_dirs v \<and> v_dft v' = v_dft v \<and> v_cwd v' = v_cwd v
     \<and> length (v_cwds v') = length (v_cwds v)
     \<and> (\<forall>i < length (v_cwds v). int i \<noteq> fd2ind fd \<longrightarrow> v_cwds v' ! i = v_cwds v ! i)
     \<and> (\<forall>fd'. fd' \<noteq> fd \<longrightarrow> v_socks v' fd' = v_socks v fd')
     \<and> filter (\<lambda>x. x \<noteq> fd) (v_watch v') = filter (\<lambda>x. x \<noteq> fd) (v_watch v)
     \<and> (watched v fd \<longrightarrow> watched v' fd)"

lemma same_but_refl [simp]: "same_but fd v v"
  by (simp add: same_but_def)

lemma same_but_trans: "same_but fd u v \<Longrightarrow> same_but fd v w \<Longrightarrow> same_but fd u w"
  by (auto simp: same_but_def)

lemma same_but_watch: "same_but fd v v' \<Longrightarrow> fd' \<noteq> fd \<Longrightarrow> fd' \<in> set (v_watch v') \<longleftrightarrow> fd' \<in> set (v_watch v)"
proof -
  assume sm: "same_but fd v v'" and ne: "fd' \<noteq> fd"
  have "fd' \<in> set (filter (\<lambda>x. x \<noteq> fd) (v_watch v')) \<longleftrightarrow> fd' \<in> set (filter (\<lambda>x. x \<noteq> fd) (v_watch v))"
    using sm by (simp add: same_but_def)
  with ne show ?thesis by simp
qed

lemma filter_removeAll: "filter (\<lambda>x. x \<noteq> a) (removeAll a xs) = filter (\<lambda>x. x \<noteq> a) xs"
  by (induction xs) auto

lemma same_but_upd:
  "same_but fd u v \<Longrightarrow> v_socks v fd \<noteq> None \<Longrightarrow> same_but fd u (v\<lparr>v_socks := (v_socks v)(fd := Some k)\<rparr>)"
  "same_but fd u v \<Longrightarrow> same_but fd u (v\<lparr>v_files := files\<rparr>)"
  "same_but fd u v \<Longrightarrow> same_but fd u (v\<lparr>v_type := t\<rparr>)"
  "same_but fd u v \<Longrightarrow> same_but fd u (v\<lparr>v_watch := removeAll fd (v_watch v), v_socks := (v_socks v)(fd := None)\<rparr>)"
  "same_but fd u v \<Longrightarrow> v_socks v fd = None \<Longrightarrow> same_but fd u (v\<lparr>v_watch := removeAll fd (v_watch v)\<rparr>)"
  "same_but fd u v \<Longrightarrow> fd \<notin> set (v_watch v) \<Longrightarrow> same_but fd u (v\<lparr>v_socks := (v_socks v)(fd := None)\<rparr>)"
  by (auto simp: same_but_def watched_def filter_removeAll)

lemma tell_upd [simp]: "(tell v m)\<lparr>v_socks := k\<rparr> = tell (v\<lparr>v_socks := k\<rparr>) m"
  by (simp add: tell_def)

lemma tell_same [simp]: "same_but fd u (tell v m) \<longleftrightarrow> same_but fd u v"
  by (simp add: same_but_def watched_def)

lemma reply_same: "same_but fd u v \<Longrightarrow> returns (\<lambda>(s, v'). same_but fd u v') (reply v fd t buf len s)"
  by (cases "v_socks v fd") (auto simp: reply_def srv_error_def intro!: returns_bind [OF returns_True] same_but_upd split: prod.splits)

lemma receive_same: "same_but fd u v \<Longrightarrow> returns (\<lambda>(len, buf, t, v'). same_but fd u v') (receive v fd buf)"
  by (cases "v_socks v fd") (auto simp: receive_def intro!: returns_bind [OF returns_True] same_but_upd)

lemma cwd_set_same: "same_but fd u v \<Longrightarrow> returns (same_but fd u) (cwd_set v fd p)"
  by (auto simp: cwd_set_def same_but_def watched_def nth_list_update)

section \<open>What every handler keeps\<close>

text \<open>
  A handler touches the state of its connection through a few operations only. What each of them keeps, every handler keeps,
  and so does the call through the table.
\<close>

lemmas any_file =
  returns_bind [OF returns_True [of "ftp_read_file f buf n" for f buf n]]
  returns_bind [OF returns_True [of "ftp_write_file ok buf n" for ok buf n]]
  returns_bind [OF returns_True [of "c_string buf" for buf]]
  returns_bind [OF returns_True [of "fs_lookup os v p" for os v p]]

locale handler_invariant =
  fixes P :: "server \<Rightarrow> bool" and fd :: int
  assumes tells [simp]: "P (tell v m) \<longleftrightarrow> P v"
    and reply_keeps: "P v \<Longrightarrow> returns (\<lambda>(s, v'). P v') (reply v fd t buf len s)"
    and receive_keeps: "P v \<Longrightarrow> returns (\<lambda>(len, buf, t, v'). P v') (receive v fd buf)"
    and cwd_set_keeps: "P v \<Longrightarrow> returns P (cwd_set v fd p)"
    and files_keep: "P v \<Longrightarrow> P (v\<lparr>v_files := files\<rparr>)"
    and close_keeps: "P v \<Longrightarrow> P (v\<lparr>v_watch := removeAll fd (v_watch v), v_socks := (v_socks v)(fd := None)\<rparr>)"
    and unwatch_keeps: "P v \<Longrightarrow> v_socks v fd = None \<Longrightarrow> P (v\<lparr>v_watch := removeAll fd (v_watch v)\<rparr>)"
    and drop_keeps: "P v \<Longrightarrow> fd \<notin> set (v_watch v) \<Longrightarrow> P (v\<lparr>v_socks := (v_socks v)(fd := None)\<rparr>)"
begin

lemma error_keeps [simp]: "returns (\<lambda>(s, v'). P v') (srv_error v msg) \<longleftrightarrow> P v"
  by (simp add: srv_error_def)

lemmas steps = any_file returns_bind [OF reply_keeps] returns_bind [OF receive_keeps] returns_bind [OF cwd_set_keeps]

lemma send_output_keeps: "P v \<Longrightarrow> returns (\<lambda>(s, v'). P v') (send_output v fd t out m m')"
  by (cases out) (auto simp: send_output_def Let_def intro!: steps)

lemma popen_keeps: "P v \<Longrightarrow> P (snd (popen os v cmd))"
  by (auto simp: popen_def intro: files_keep split: option.splits)

lemma output_keeps:
  "P v \<Longrightarrow> returns (\<lambda>(s, v'). P v') (case popen os v cmd of (output, v) \<Rightarrow> send_output v fd t output m m')"
  using popen_keeps [of v os cmd] by (cases "popen os v cmd") (simp add: send_output_keeps)

lemma open_keeps: "P v \<Longrightarrow> returns (\<lambda>(s, v'). P v') (srv_open os v fd args)"
  unfolding srv_open_def by (auto intro!: steps)

lemma quit_keeps: "P v \<Longrightarrow> returns (\<lambda>(s, v'). P v') (srv_quit os v fd args)"
  unfolding srv_quit_def
  by (rule returns_bind [OF reply_keeps])
     (auto simp: Let_def intro!: returns_bind [OF cwd_set_keeps] close_keeps unwatch_keeps drop_keeps)

lemma cd_keeps: "P v \<Longrightarrow> returns (\<lambda>(s, v'). P v') (srv_cd os v fd args)"
  unfolding srv_cd_def Let_def by (auto intro!: steps)

lemma get_keeps: "P v \<Longrightarrow> returns (\<lambda>(s, v'). P v') (srv_get os v fd args)"
  unfolding srv_get_def Let_def by (auto intro!: steps)

lemma put_keeps: "P v \<Longrightarrow> returns (\<lambda>(s, v'). P v') (srv_put os v fd args)"
  unfolding srv_put_def Let_def by (auto intro!: steps files_keep)

lemma sha_keeps: "P v \<Longrightarrow> returns (\<lambda>(s, v'). P v') (srv_sha os v fd args)"
  unfolding srv_sha_def Let_def by (auto intro!: steps output_keeps)

lemma dispatch_keeps: "P v \<Longrightarrow> returns (\<lambda>(s, v'). P v') (dispatch os v fd buf t)"
proof -
  assume v: "P v"
  then have "returns (\<lambda>(s, v'). P v') (srv_ls os v fd buf)" by (simp add: srv_ls_def output_keeps)
  with v have "\<forall>f \<in> set funcs. returns (\<lambda>(s, v'). P v') (f os v fd buf)"
    by (simp add: funcs_def open_keeps cd_keeps get_keeps put_keeps sha_keeps quit_keeps)
  then show ?thesis by (auto simp: dispatch_def)
qed

end

interpretation same: handler_invariant "same_but fd u" fd for fd u
  by unfold_locales (simp_all add: reply_same receive_same cwd_set_same same_but_upd)

lemma same_but_cwd:
  "same_but fd u v \<Longrightarrow> same_but fd (u\<lparr>v_cwd := w\<rparr>) (v\<lparr>v_cwd := w\<rparr>)"
  "same_but fd (u\<lparr>v_cwd := w\<rparr>) v \<Longrightarrow> same_but fd u (v\<lparr>v_cwd := v_cwd u\<rparr>)"
  by (auto simp: same_but_def watched_def)

section \<open>The state of the server\<close>

text \<open>
  A well-formed server has \<open>MAXCONN\<close> entries of directories, is in its start directory, which exists, and watches only
  connections that have a socket. The start directory is an absolute path, so that it resolves to itself.
\<close>

definition server_wf :: "os \<Rightarrow> server \<Rightarrow> bool" where
  "server_wf os v \<longleftrightarrow> length (v_cwds v) = MAXCONN \<and> v_dft v \<in> set (v_dirs v) \<and> v_cwd v = v_dft v
     \<and> (\<forall>p. os_resolve os p (v_dft v) = v_dft v) \<and> (\<forall>fd. watched v fd)"

lemma back_home_same:
  assumes "server_wf os v" and "same_but fd (v\<lparr>v_cwd := w\<rparr>) v'"
  shows "same_but fd v (back_home os v')"
proof -
  have "v_dft v' = v_dft v" "v_dirs v' = v_dirs v" using assms(2) by (simp_all add: same_but_def)
  then have "back_home os v' = v'\<lparr>v_cwd := v_cwd v\<rparr>"
    using assms(1) by (simp add: back_home_def chdir_def server_wf_def)
  then show ?thesis using same_but_cwd(2) [OF assms(2)] by simp
qed

lemma handler_same:
  assumes "server_wf os v" and "same_but fd v v'"
  shows "returns (same_but fd v) (bind_res (dispatch os (v'\<lparr>v_cwd := w\<rparr>) fd buf t) (\<lambda>(scode, v). Inr (back_home os v)))"
proof (rule returns_bind [OF same.dispatch_keeps [of fd "v\<lparr>v_cwd := w\<rparr>"]])
  show "same_but fd (v\<lparr>v_cwd := w\<rparr>) (v'\<lparr>v_cwd := w\<rparr>)" using assms(2) by (rule same_but_cwd)
qed (auto intro: back_home_same [OF assms(1)])

lemma enter_cwd: "(if s then chdir os v p else Some v) = Some v' \<Longrightarrow> \<exists>w. v' = v\<lparr>v_cwd := w\<rparr>"
  by (auto simp: chdir_def Let_def split: if_splits intro: exI [of _ "v_cwd v'"])

lemma serve_request_same:
  assumes "server_wf os v"
  shows "returns (same_but fd v) (serve_request os v fd)"
  unfolding serve_request_def Let_def
proof (rule returns_bind [OF receive_same [of fd v v]], simp, clarify)
  fix len buf t v1
  assume v1: "same_but fd v v1"
  let ?v1 = "v1\<lparr>v_type := t\<rparr>"
  have t: "same_but fd v ?v1" using v1 by (rule same_but_upd)
  have enter: "returns (same_but fd v) (case if s then chdir os ?v1 p else Some ?v1 of
        None \<Rightarrow> Inr (tell ?v1 (serror ''change to client directory error''))
      | Some v \<Rightarrow> bind_res (dispatch os v fd buf (v_type v)) (\<lambda>(scode, v). Inr (back_home os v)))" for s p
  proof (cases "if s then chdir os ?v1 p else Some ?v1")
    case (Some v2)
    then obtain w where v2: "v2 = ?v1\<lparr>v_cwd := w\<rparr>" using enter_cwd by blast
    have "v_type v2 = t" by (simp add: v2)
    with Some v2 handler_same [OF assms t, of w buf t] show ?thesis by simp
  qed (use t in simp)
  show "returns (same_but fd v) (if len < 0 then Inr (tell ?v1 (serror ''recv request error''))
      else bind_res (cwd_get ?v1 fd) (\<lambda>p. bind_res (fs_lookup os ?v1 p) (\<lambda>s. case if s then chdir os ?v1 p else Some ?v1 of
          None \<Rightarrow> Inr (tell ?v1 (serror ''change to client directory error''))
        | Some v \<Rightarrow> bind_res (dispatch os v fd buf (v_type v)) (\<lambda>(scode, v). Inr (back_home os v)))))"
    using t enter by (simp add: returns_bind [OF returns_True])
qed

lemma same_but_wf: "same_but fd v v' \<Longrightarrow> server_wf os v \<Longrightarrow> server_wf os v'"
proof -
  assume sm: "same_but fd v v'" and wf: "server_wf os v"
  have "watched v' fd'" for fd'
  proof (cases "fd' = fd")
    case False
    from same_but_watch [OF sm this] show ?thesis using sm wf False by (auto simp: same_but_def server_wf_def watched_def)
  qed (use sm wf in \<open>simp add: same_but_def server_wf_def\<close>)
  then show ?thesis using sm wf by (simp add: same_but_def server_wf_def)
qed

definition server_start :: "os \<Rightarrow> server \<Rightarrow> bool" where
  "server_start os v \<longleftrightarrow> (\<exists>files dirs cwd. v = server_init files dirs cwd \<and> cwd \<in> set dirs
     \<and> (\<forall>p. os_resolve os p cwd = cwd))"

definition server_step :: "os \<Rightarrow> server \<Rightarrow> server \<Rightarrow> bool" where
  "server_step os v v' \<longleftrightarrow> (\<exists>ev. serve_event os v ev = Inr v')"

lemma server_init_wf: "server_start os v \<Longrightarrow> server_wf os v"
  by (auto simp: server_start_def server_wf_def server_init_def watched_def)

lemma server_step_wf: "server_step os v v' \<Longrightarrow> server_wf os v \<Longrightarrow> server_wf os v'"
proof -
  assume "server_step os v v'" and wf: "server_wf os v"
  then obtain ev where ev: "serve_event os v ev = Inr v'" by (auto simp: server_step_def)
  show ?thesis
  proof (cases ev)
    case (Readable fd)
    then show ?thesis using ev returnsD [OF serve_request_same [OF wf, of fd]] same_but_wf wf by auto
  qed (use ev wf in \<open>auto simp: server_wf_def watched_def Let_def split: if_splits\<close>)
qed

interpretation ftp: invariant_system "\<lambda>os. True" server_start server_step server_wf
  by unfold_locales (auto intro: server_init_wf server_step_wf)

lemma serve_events_reachable:
  "serve_events os v evs = Inr v' \<Longrightarrow> reachable (server_start os) (server_step os) v \<Longrightarrow>
   reachable (server_start os) (server_step os) v'"
proof (induction evs arbitrary: v)
  case (Cons ev evs)
  then obtain v1 where v1: "serve_event os v ev = Inr v1" "serve_events os v1 evs = Inr v'"
    by (auto simp: bind_res_Inr)
  then have "server_step os v v1" unfolding server_step_def by blast
  with Cons v1 show ?case by (meson reach_step)
qed simp

end
