(* ===== verification/Ftp.thy ===== *)
theory Ftp
  imports Ftp_Client Ftp_Session
begin

text \<open>
  What client and server promise each other: for every way in which the network cuts the two byte streams into
  segments, the commands have their effect; and what a peer that does not keep to the protocol can do.
\<close>

section \<open>Requests at the server\<close>

lemma type2ind_simps [simp]:
  "type2ind OPEN_REQUEST = 0" "type2ind LIST_REQUEST = 1" "type2ind CD_REQUEST = 2" "type2ind GET_REQUEST = 3"
  "type2ind PUT_REQUEST = 4" "type2ind SHA_REQUEST = 5" "type2ind QUIT_REQUEST = 6" "type2ind FILE_DATA = 47"
  by (simp_all add: type2ind_def OPEN_REQUEST_def LIST_REQUEST_def CD_REQUEST_def GET_REQUEST_def PUT_REQUEST_def
      SHA_REQUEST_def QUIT_REQUEST_def FILE_DATA_def)

lemma dispatch_simps [simp]:
  "dispatch os v fd buf OPEN_REQUEST = srv_open os v fd buf" "dispatch os v fd buf LIST_REQUEST = srv_ls os v fd buf"
  "dispatch os v fd buf CD_REQUEST = srv_cd os v fd buf" "dispatch os v fd buf GET_REQUEST = srv_get os v fd buf"
  "dispatch os v fd buf PUT_REQUEST = srv_put os v fd buf" "dispatch os v fd buf SHA_REQUEST = srv_sha os v fd buf"
  "dispatch os v fd buf QUIT_REQUEST = srv_quit os v fd buf"
  by (simp_all add: dispatch_def funcs_def eval_nat_numeral)

text \<open>The directory in which a connection's request is handled; \<open>None\<close> when changing to it fails.\<close>

definition work_dir :: "os \<Rightarrow> server \<Rightarrow> int \<Rightarrow> path option" where
  "work_dir os v fd =
     (let p = v_cwds v ! nat (fd2ind fd); q = os_resolve os (v_cwd v) p
      in if p \<noteq> [] \<and> os_stat_error os q then None
         else if fs_exists os v p then (if q \<in> set (v_dirs v) then Some q else None) else Some (v_cwd v))"

definition fd_ok :: "server \<Rightarrow> int \<Rightarrow> bool" where
  "fd_ok v fd \<longleftrightarrow> 0 \<le> fd2ind fd \<and> fd2ind fd < int (length (v_cwds v))"

definition request_buf :: "u8 list \<Rightarrow> u8 list" where
  "request_buf d = d @ replicate (MAXBUF - length d) 0"

lemma serve_request_dispatch_stalls:
  assumes "v_socks v fd = Some k" and "decode_post (avail (k_in k)) = Some ((t, s, d), rest)" and "length d < MAXBUF"
    and "fd_ok v fd" and "work_dir os v fd = Some w"
  shows "\<exists>st. avail st = rest \<and> stalls st = stalls (k_in k) \<and> serve_request os v fd =
    bind_res (dispatch os (v\<lparr>v_socks := (v_socks v)(fd \<mapsto> k\<lparr>k_in := st\<rparr>), v_type := t, v_cwd := w\<rparr>) fd (request_buf d) t)
      (\<lambda>(scode, v). Inr (back_home os v))"
proof -
  obtain st where st: "recv_post k (replicate MAXBUF 0) (v_type v) 0 = Inr \<lparr>p_size = int (length d), p_buf = request_buf d,
      p_type = t, p_status = s, p_said = [], p_sock = k\<lparr>k_in := st\<rparr>\<rparr>" "avail st = rest" "stalls st = stalls (k_in k)"
    using recv_post_decode_stalls [OF assms(2), of "replicate MAXBUF 0" "v_type v" 0] assms(3) by (auto simp: request_buf_def)
  let ?v = "v\<lparr>v_socks := (v_socks v)(fd \<mapsto> k\<lparr>k_in := st\<rparr>), v_type := t\<rparr>"
  let ?p = "v_cwds v ! nat (fd2ind fd)"
  have "cwd_get ?v fd = Inr ?p" using assms(4) by (simp add: cwd_get_def fd_ok_def)
  moreover have "(if fs_exists os ?v ?p then chdir os ?v ?p else Some ?v) = Some (?v\<lparr>v_cwd := w\<rparr>)"
    using assms(5) by (auto simp: work_dir_def fs_exists_def chdir_def Let_def split: if_splits)
  moreover have "fs_lookup os ?v ?p = Inr (fs_exists os ?v ?p)"
    using assms(5) by (auto simp: work_dir_def fs_lookup_def Let_def split: if_splits)
  ultimately show ?thesis using st assms(1)
    by (intro exI [of _ st]) (simp add: serve_request_def receive_def Let_def back_home_def del: fun_upd_apply)
qed

lemma serve_request_dispatch:
  assumes "v_socks v fd = Some k" and "decode_post (avail (k_in k)) = Some ((t, s, d), rest)" and "length d < MAXBUF"
    and "fd_ok v fd" and "work_dir os v fd = Some w"
  shows "\<exists>st. avail st = rest \<and> serve_request os v fd =
    bind_res (dispatch os (v\<lparr>v_socks := (v_socks v)(fd \<mapsto> k\<lparr>k_in := st\<rparr>), v_type := t, v_cwd := w\<rparr>) fd (request_buf d) t)
      (\<lambda>(scode, v). Inr (back_home os v))"
  using serve_request_dispatch_stalls [OF assms] by blast

lemma c_string_request: "0 \<notin> set a \<Longrightarrow> c_string (request_buf (a @ [0])) = Inr a"
proof -
  assume "0 \<notin> set a"
  then have "takeWhile (\<lambda>c. c \<noteq> 0) (a @ 0 # ys) = a" for ys by (subst takeWhile_append2) auto
  then show ?thesis by (simp add: c_string_def request_buf_def)
qed

lemma reply_all:
  assumes "v_socks v fd = Some k" and "all_sent k" and "length d \<le> MAXBUF" 
  shows "\<exists>k'. reply v fd t (d @ rest) (int (length d)) s = Inr (int (length d), v\<lparr>v_socks := (v_socks v)(fd \<mapsto> k')\<rparr>)
    \<and> k_out k' = k_out k @ post_wire t s d \<and> k_in k' = k_in k \<and> all_sent k'"
  using send_post_all [OF assms(2,3), of t rest s] assms(1) by (auto simp: reply_def)

lemma reply_nodata:
  assumes "v_socks v fd = Some k" and "all_sent k"
  shows "\<exists>k'. reply v fd t [] 0 s = Inr (0, v\<lparr>v_socks := (v_socks v)(fd \<mapsto> k')\<rparr>)
    \<and> k_out k' = k_out k @ post_wire t s [] \<and> k_in k' = k_in k \<and> all_sent k'"
  using reply_all [OF assms, of "[]" t "[]" s] by (simp add: MAXBUF_def)

lemma fs_lookup_ok: "\<not> os_stat_error os (os_resolve os (v_cwd v) p) \<Longrightarrow> fs_lookup os v p = Inr (fs_exists os v p)"
  by (simp add: fs_lookup_def)

lemma srv_get_sends_file:
  assumes "v_socks v fd = Some k" and "all_sent k" and "0 \<notin> set a" and "a \<noteq> []"
    and "v_files v (os_resolve os (v_cwd v) a) = Some content" and "length content \<le> INT_MAX" and "length (os_junk os) = MAXBUF"
    and "\<not> os_stat_error os (os_resolve os (v_cwd v) a)"
  shows "\<exists>k'. srv_get os v fd (request_buf (a @ [0])) = Inr (0, v\<lparr>v_socks := (v_socks v)(fd \<mapsto> k')\<rparr>)
    \<and> k_out k' = k_out k @ post_wire GET_REPLY 1 [] @ post_wire FILE_DATA 0 (carried content) \<and> k_in k' = k_in k \<and> all_sent k'"
proof -
  have ex: "fs_exists os v a" using assms(4,5) by (simp add: fs_exists_def)
  obtain k1 where k1: "reply v fd GET_REPLY [] 0 1 = Inr (0, v\<lparr>v_socks := (v_socks v)(fd \<mapsto> k1)\<rparr>)"
    "k_out k1 = k_out k @ post_wire GET_REPLY 1 []" "k_in k1 = k_in k" "all_sent k1"
    using reply_nodata [OF assms(1,2), of GET_REPLY 1] by blast
  let ?v1 = "v\<lparr>v_socks := (v_socks v)(fd \<mapsto> k1)\<rparr>"
  let ?c = "carried content"
  note rd = ftp_read_file_carried [OF assms(6,7)]
  have s1: "v_socks ?v1 fd = Some k1" by simp
  obtain k2 where k2: "reply ?v1 fd FILE_DATA (?c @ drop (length ?c) (os_junk os)) (int (length ?c)) 0
      = Inr (int (length ?c), ?v1\<lparr>v_socks := (v_socks ?v1)(fd \<mapsto> k2)\<rparr>)"
    "k_out k2 = k_out k1 @ post_wire FILE_DATA 0 ?c" "k_in k2 = k_in k1" "all_sent k2"
    using reply_all [OF s1 k1(4) length_carried, of FILE_DATA _ _ 0] by blast
  then show ?thesis using k1 ex rd assms(5)
    by (intro exI [of _ k2]) (simp add: srv_get_def c_string_request [OF assms(3)] status_of_def fs_lookup_ok [OF assms(8)])
qed

lemma srv_put_stores_file:
  assumes "v_socks v fd = Some k" and "all_sent k" and "0 \<notin> set a"
    and "decode_post (avail (k_in k)) = Some ((FILE_DATA, s, d), rest)" and "length d \<le> MAXBUF"
    and "os_writable os (os_resolve os (v_cwd v) a)" and "os_resolve os (v_cwd v) a \<notin> set (v_dirs v)"
    and "length (os_junk os) = MAXBUF"
  shows "\<exists>k'. srv_put os v fd (request_buf (a @ [0])) = Inr (0, v\<lparr>v_socks := (v_socks v)(fd \<mapsto> k'),
      v_files := (v_files v)(os_resolve os (v_cwd v) a \<mapsto> d)\<rparr>)
    \<and> k_out k' = k_out k @ post_wire PUT_REPLY 0 [] \<and> avail (k_in k') = rest \<and> all_sent k'"
proof -
  obtain k1 where k1: "reply v fd PUT_REPLY [] 0 0 = Inr (0, v\<lparr>v_socks := (v_socks v)(fd \<mapsto> k1)\<rparr>)"
    "k_out k1 = k_out k @ post_wire PUT_REPLY 0 []" "k_in k1 = k_in k" "all_sent k1"
    using reply_nodata [OF assms(1,2), of PUT_REPLY 0] by blast
  let ?v1 = "v\<lparr>v_socks := (v_socks v)(fd \<mapsto> k1)\<rparr>"
  have "decode_post (avail (k_in k1)) = Some ((FILE_DATA, s, d), rest)" "length d \<le> length (os_junk os)"
    using assms(4,5,8) k1(3) by simp_all
  from recv_post_decode [OF this, of "v_type v" 0] obtain st where
    st: "recv_post k1 (os_junk os) (v_type v) 0 = Inr \<lparr>p_size = int (length d), p_buf = d @ drop (length d) (os_junk os),
      p_type = FILE_DATA, p_status = s, p_said = [], p_sock = k1\<lparr>k_in := st\<rparr>\<rparr>" "avail st = rest" by blast
  have wr: "ftp_write_file True (d @ ys) (int (length d)) = Inr (0, [], Some d)" for ys
    by (simp add: ftp_write_file_def mem_read_def)
  show ?thesis using k1(1,2,4) st assms(6,7) wr
    by (intro exI [of _ "k1\<lparr>k_in := st\<rparr>"])
       (simp add: srv_put_def receive_def all_sent_def c_string_request [OF assms(3)] Let_def)
qed

section \<open>Commands at the client\<close>

lemma c_send_request:
  assumes "c_sock c = Some k" and "all_sent k" and "length d \<le> MAXBUF"
  shows "\<exists>k'. c_send c t (d @ rest) (int (length d)) = Inr (int (length d), c\<lparr>c_sock := Some k'\<rparr>)
    \<and> k_out k' = k_out k @ post_wire t 0 d \<and> k_in k' = k_in k \<and> all_sent k'"
  using send_post_all [OF assms(2,3), of t rest 0] assms(1) by (auto simp: c_send_def)

lemma c_send_name:
  assumes "c_sock c = Some k" and "all_sent k" and "length a < MAXBUF"
  shows "\<exists>k'. c_send c t (a @ [0]) (int (length a + 1)) = Inr (int (length a + 1), c\<lparr>c_sock := Some k'\<rparr>)
    \<and> k_out k' = k_out k @ post_wire t 0 (a @ [0]) \<and> k_in k' = k_in k \<and> all_sent k'"
  using c_send_request [OF assms(1,2), of "a @ [0]" t "[]"] assms(3) by (simp add: add.commute)

lemma c_recv_post:
  assumes "c_sock c = Some k" and "decode_post (avail (k_in k)) = Some ((t, s, d), rest)" and "length d \<le> length buf"
  shows "\<exists>st. c_recv c buf = Inr (int (length d), d @ drop (length d) buf,
      c\<lparr>c_sock := Some (k\<lparr>k_in := st\<rparr>), c_type := t, c_status := s\<rparr>) \<and> avail st = rest"
  using recv_post_decode [OF assms(2,3), of "c_type c" "c_status c"] assms(1) by (auto simp: c_recv_def)

lemma c_recv_data_post:
  assumes "c_sock c = Some k" and "decode_post (avail (k_in k)) = Some ((t, s, d), rest)" and "length d \<le> length buf"
  shows "\<exists>st. c_recv_data c buf = Inr (int (length d), d @ drop (length d) buf,
      c\<lparr>c_sock := Some (k\<lparr>k_in := st\<rparr>), c_type := t\<rparr>) \<and> avail st = rest"
  using c_recv_post [OF assms] by (auto simp: c_recv_data_def)

lemma cl_get_stores_file:
  assumes "c_connected c" and "c_sock c = Some k" and "all_sent k" and "length a < MAXBUF"
    and "avail (k_in k) = post_wire GET_REPLY 1 [] @ post_wire FILE_DATA 0 content @ rest"
    and "length content \<le> MAXBUF" and "length (os_junk os) = MAXBUF" and "os_writable os (os_resolve os (c_cwd c) a)"
  shows "\<exists>k'. cl_get os c (Some a) = Inr (0, c\<lparr>c_sock := Some k', c_type := FILE_DATA, c_status := 1,
      c_files := (c_files c)(os_resolve os (c_cwd c) a \<mapsto> content)\<rparr>)
    \<and> k_out k' = k_out k @ post_wire GET_REQUEST 0 (a @ [0]) \<and> avail (k_in k') = rest \<and> all_sent k'"
proof -
  obtain k1 where k1: "c_send c GET_REQUEST (a @ [0]) (int (length a + 1)) = Inr (int (length a + 1), c\<lparr>c_sock := Some k1\<rparr>)"
    "k_out k1 = k_out k @ post_wire GET_REQUEST 0 (a @ [0])" "k_in k1 = k_in k" "all_sent k1"
    using c_send_name [OF assms(2-4)] by blast
  let ?c1 = "c\<lparr>c_sock := Some k1\<rparr>"
  have d1: "decode_post (avail (k_in k1)) = Some ((GET_REPLY, 1, []), post_wire FILE_DATA 0 content @ rest)"
    unfolding k1(3) assms(5) by (rule decode_post_wire) simp
  obtain st1 where r1: "c_recv ?c1 (os_junk os) = Inr (0, os_junk os,
      ?c1\<lparr>c_sock := Some (k1\<lparr>k_in := st1\<rparr>), c_type := GET_REPLY, c_status := 1\<rparr>)"
    "avail st1 = post_wire FILE_DATA 0 content @ rest"
    using c_recv_post [of ?c1 k1, OF _ d1, of "os_junk os"] by auto
  let ?c2 = "?c1\<lparr>c_sock := Some (k1\<lparr>k_in := st1\<rparr>), c_type := GET_REPLY, c_status := 1\<rparr>"
  have d2: "decode_post (avail (k_in (k1\<lparr>k_in := st1\<rparr>))) = Some ((FILE_DATA, 0, content), rest)"
    using r1(2) decode_post_wire [OF assms(6)] by simp
  obtain st2 where r2: "c_recv_data ?c2 (os_junk os) = Inr (int (length content), content @ drop (length content) (os_junk os),
      ?c2\<lparr>c_sock := Some (k1\<lparr>k_in := st2\<rparr>), c_type := FILE_DATA\<rparr>)" "avail st2 = rest"
    using c_recv_data_post [of ?c2, OF _ d2, of "os_junk os"] assms(6,7) by auto
  have wr: "ftp_write_file True (content @ ys) (int (length content)) = Inr (0, [], Some content)" for ys
    by (simp add: ftp_write_file_def mem_read_def)
  show ?thesis using assms(1,8) k1 r1 r2 wr
    by (intro exI [of _ "k1\<lparr>k_in := st2\<rparr>"]) (simp add: cl_get_def the_arg_def Let_def all_sent_def)
qed

lemma cl_put_sends_file:
  assumes "c_connected c" and "c_sock c = Some k" and "all_sent k" and "length a < MAXBUF"
    and "avail (k_in k) = post_wire PUT_REPLY s [] @ rest"
    and "c_files c (os_resolve os (c_cwd c) a) = Some content"
    and "length content \<le> INT_MAX" and "length (os_junk os) = MAXBUF"
  shows "\<exists>k'. cl_put os c (Some a) = Inr (0, c\<lparr>c_sock := Some k', c_type := PUT_REPLY, c_status := s\<rparr>)
    \<and> k_out k' = k_out k @ post_wire PUT_REQUEST 0 (a @ [0]) @ post_wire FILE_DATA 0 (carried content)
    \<and> avail (k_in k') = rest \<and> all_sent k'"
proof -
  obtain k1 where k1: "c_send c PUT_REQUEST (a @ [0]) (int (length a + 1)) = Inr (int (length a + 1), c\<lparr>c_sock := Some k1\<rparr>)"
    "k_out k1 = k_out k @ post_wire PUT_REQUEST 0 (a @ [0])" "k_in k1 = k_in k" "all_sent k1"
    using c_send_name [OF assms(2-4)] by blast
  let ?c1 = "c\<lparr>c_sock := Some k1\<rparr>"
  have d1: "decode_post (avail (k_in k1)) = Some ((PUT_REPLY, s, []), rest)"
    unfolding k1(3) assms(5) by (rule decode_post_wire) simp
  obtain st1 where r1: "c_recv ?c1 (os_junk os) = Inr (0, os_junk os,
      ?c1\<lparr>c_sock := Some (k1\<lparr>k_in := st1\<rparr>), c_type := PUT_REPLY, c_status := s\<rparr>)" "avail st1 = rest"
    using c_recv_post [of ?c1 k1, OF _ d1, of "os_junk os"] by auto
  let ?c2 = "?c1\<lparr>c_sock := Some (k1\<lparr>k_in := st1\<rparr>), c_type := PUT_REPLY, c_status := s\<rparr>"
  let ?d = "carried content"
  note rd = ftp_read_file_carried [OF assms(7,8)]
  obtain k2 where k2: "c_send ?c2 FILE_DATA (?d @ drop (length ?d) (os_junk os)) (int (length ?d))
      = Inr (int (length ?d), ?c2\<lparr>c_sock := Some k2\<rparr>)"
    "k_out k2 = k_out k1 @ post_wire FILE_DATA 0 ?d" "k_in k2 = st1" "all_sent k2"
    using c_send_request [of ?c2 "k1\<lparr>k_in := st1\<rparr>" ?d FILE_DATA] k1(4) length_carried by (auto simp: all_sent_def)
  show ?thesis using assms(1,6) k1 r1 rd k2
    by (intro exI [of _ k2]) (simp add: cl_put_def the_arg_def Let_def)
qed

section \<open>An example session\<close>

text \<open>One directory \<open>/\<close> with a file \<open>a\<close>, a connection 5, and a network that delivers byte by byte.\<close>

definition demo_os :: os where
  "demo_os = \<lparr>os_resolve = (\<lambda>d p. if p \<noteq> [] \<and> hd p = 47 then p else d @ p), os_shell = (\<lambda>fs d cmd. None),
     os_writable = (\<lambda>p. True), os_junk = replicate MAXBUF 0, os_stat_error = (\<lambda>p. False)\<rparr>"

definition demo_sock :: "u8 list \<Rightarrow> sock" where
  "demo_sock bs = \<lparr>k_in = map (\<lambda>b. Seg [b]) bs, k_out = [], k_accept = (\<lambda>i. Inr 1), k_calls = 0\<rparr>"

definition demo_server :: "u8 list \<Rightarrow> server" where
  "demo_server bs = (server_init [[47, 97] \<mapsto> [1, 2, 3]] [[47]] [47])\<lparr>v_socks := [5 \<mapsto> demo_sock bs], v_watch := [5]\<rparr>"

definition demo_client :: client where
  "demo_client = \<lparr>c_connected = True, c_running = True, c_prompt = default_prompt, c_sock = Some (demo_sock []),
     c_type = 0, c_status = 0, c_files = [[47, 98] \<mapsto> [7, 8]], c_cwd = [47], c_net = [], c_printed = []\<rparr>"

definition demo_put :: "u8 list" where
  "demo_put = post_wire PUT_REQUEST 0 ([98] @ [0]) @ post_wire FILE_DATA 0 [7, 8] @ []"

definition demo_cd :: "u8 list" where
  "demo_cd = post_wire CD_REQUEST 0 ([97] @ [0]) @ post_wire LIST_REQUEST 0 [] @ post_wire CD_REQUEST 0 [47, 0]"

lemma avail_bytes [simp]: "avail (map (\<lambda>b. Seg [b]) bs) = bs"
  by (induction bs) simp_all

lemma demo_sock_simps [simp]: "avail (k_in (demo_sock bs)) = bs" "all_sent (demo_sock bs)" "k_out (demo_sock bs) = []"
  by (simp_all add: demo_sock_def all_sent_def)

lemma demo_server_simps [simp]:
  "v_socks (demo_server bs) 5 = Some (demo_sock bs)" "fd_ok (demo_server bs) 5" "v_cwd (demo_server bs) = [47]"
  "work_dir demo_os (demo_server bs) 5 = Some [47]" "v_files (demo_server bs) = [[47, 97] \<mapsto> [1, 2, 3]]"
  "v_dirs (demo_server bs) = [[47]]" "server_wf demo_os (demo_server bs)"
  by (simp_all add: demo_server_def server_init_def fd_ok_def fd2ind_def MAXCONN_def work_dir_def fs_exists_def demo_os_def
      null_path_def server_wf_def watched_def Let_def)

lemma demo_os_simps [simp]: "os_writable demo_os p" "\<not> os_stat_error demo_os p" "length (os_junk demo_os) = MAXBUF"
  "os_resolve demo_os d p = (if p \<noteq> [] \<and> hd p = 47 then p else d @ p)"
  by (simp_all add: demo_os_def)

lemma demo_client_simps [simp]: "c_connected demo_client" "c_sock demo_client = Some (demo_sock [])"
  "c_cwd demo_client = [47]" "c_files demo_client = [[47, 98] \<mapsto> [7, 8]]"
  by (simp_all add: demo_client_def)

section \<open>Properties\<close>

lemma post_length_cases:
  "post_length h mod 2 ^ 64 =
     (let n = uint (ntohl (m_length h))
      in if n < 12 then n - 12 + 2 ^ 64 else if n < 2 ^ 31 + 12 then n - 12 else n - 12 - 2 ^ 32 + 2 ^ 64)"
proof -
  let ?n = "uint (ntohl (m_length h))"
  have n: "0 \<le> ?n" "?n < 2 ^ 32" using unsigned_less [of "ntohl (m_length h)", where 'a = int] by simp_all
  have wrap: "x mod 2 ^ 64 = x + 2 ^ 64" if "x < 0" "- (2 ^ 32) \<le> x" for x :: int
  proof -
    have "x mod 2 ^ 64 = (x + 2 ^ 64) mod 2 ^ 64" by simp
    also have "\<dots> = x + 2 ^ 64" using that by (intro mod_pos_pos_trivial) simp_all
    finally show ?thesis .
  qed
  show ?thesis
  proof (cases "?n < 2 ^ 31 + 12")
    case True
    then have "post_length h = ?n - 12"
      unfolding post_length_def HEADER_SIZE_def using n by (subst int_of_long_id) simp_all
    then show ?thesis using True n wrap [of "?n - 12"] by (auto simp: Let_def mod_pos_pos_trivial)
  next
    case False
    have "post_length h = (?n - 12 + 2 ^ 31) mod 2 ^ 32 - 2 ^ 31"
      by (simp add: post_length_def HEADER_SIZE_def int_of_long_def signed_take_bit_eq_take_bit_shift take_bit_eq_mod)
    also have "(?n - 12 + 2 ^ 31) mod 2 ^ 32 = (?n - 12 + 2 ^ 31 - 2 ^ 32) mod 2 ^ 32"
      by (rule minus_mod_self2 [symmetric])
    also have "\<dots> = ?n - 12 + 2 ^ 31 - 2 ^ 32" using False n by (intro mod_pos_pos_trivial) simp_all
    finally show ?thesis using False n wrap [of "?n - 12 - 2 ^ 32"] by (simp add: Let_def)
  qed
qed

lemma serve_get_sends_file:
  assumes "v_socks v fd = Some ks" and "all_sent ks" and "fd_ok v fd" and "work_dir os v fd = Some w"
    and "v_files v (os_resolve os w a) = Some content" and "length (os_junk os) = MAXBUF"
    and "a \<noteq> []" and "0 \<notin> set a" and "length a + 1 < MAXBUF" and "length content \<le> MAXBUF"
    and "avail (k_in ks) = post_wire GET_REQUEST 0 (a @ [0]) @ rest" and "\<not> os_stat_error os (os_resolve os w a)"
  shows "\<exists>v' k'. serve_request os v fd = Inr v' \<and> v_socks v' fd = Some k' \<and> v_files v' = v_files v \<and> avail (k_in k') = rest
    \<and> k_out k' = k_out ks @ post_wire GET_REPLY 1 [] @ post_wire FILE_DATA 0 content"
proof -
  have dec: "decode_post (avail (k_in ks)) = Some ((GET_REQUEST, 0, a @ [0]), rest)"
    unfolding assms(11) by (rule decode_post_wire) (use assms(9) in simp)
  have len: "length (a @ [0]) < MAXBUF" using assms(9) by simp
  from serve_request_dispatch [OF assms(1) dec len assms(3,4)] obtain st where
    st: "avail st = rest" "serve_request os v fd = bind_res (srv_get os
       (v\<lparr>v_socks := (v_socks v)(fd \<mapsto> ks\<lparr>k_in := st\<rparr>), v_type := GET_REQUEST, v_cwd := w\<rparr>) fd (request_buf (a @ [0])))
       (\<lambda>(scode, v). Inr (back_home os v))" by auto
  let ?v = "v\<lparr>v_socks := (v_socks v)(fd \<mapsto> ks\<lparr>k_in := st\<rparr>), v_type := GET_REQUEST, v_cwd := w\<rparr>"
  have "v_socks ?v fd = Some (ks\<lparr>k_in := st\<rparr>)" "all_sent (ks\<lparr>k_in := st\<rparr>)"
    "v_files ?v (os_resolve os (v_cwd ?v) a) = Some content" "\<not> os_stat_error os (os_resolve os (v_cwd ?v) a)"
    using assms(2,5,12) by (simp_all add: all_sent_def)
  from srv_get_sends_file [OF this(1,2) assms(8,7) this(3) MAXBUF_fits [OF assms(10)] assms(6) this(4)] assms(10) obtain k' where
    k': "srv_get os ?v fd (request_buf (a @ [0])) = Inr (0, ?v\<lparr>v_socks := (v_socks ?v)(fd \<mapsto> k')\<rparr>)"
    "k_out k' = k_out ks @ post_wire GET_REPLY 1 [] @ post_wire FILE_DATA 0 content" "k_in k' = st" by auto
  let ?v' = "back_home os (?v\<lparr>v_socks := (v_socks ?v)(fd \<mapsto> k')\<rparr>)"
  have "serve_request os v fd = Inr ?v'" using st(2) k'(1) by simp
  moreover have "v_socks ?v' fd = Some k'" "v_files ?v' = v_files v" by simp_all
  ultimately show ?thesis using k'(2,3) st(1) by blast
qed

text \<open>A \<open>get\<close> transfers the file. Let the server hold the file in the directory of the connection and receive, cut into
  segments in any way, the request that \<open>do_get\<close> sends. Then the request is served without undefined behaviour, the server's
  files stay as they are, and for every way in which the network cuts the answer into segments the client's \<open>do_get\<close> returns
  0, has sent exactly that request, and has stored exactly the server's bytes under the name. The bounds are those of the
  buffers: the name and its zero fit into \<open>MAXBUF\<close>, and so does the file.
\<close>

theorem get_transfers_file:
  assumes "v_socks v fd = Some ks" and "all_sent ks" and "fd_ok v fd" and "work_dir oss v fd = Some w"
    and "v_files v (os_resolve oss w a) = Some content" and "length (os_junk oss) = MAXBUF"
    and "c_connected c" and "c_sock c = Some kc" and "all_sent kc"
    and "os_writable osc (os_resolve osc (c_cwd c) a)" and "length (os_junk osc) = MAXBUF"
    and "a \<noteq> []" and "0 \<notin> set a" and "length a + 1 < MAXBUF" and "length content \<le> MAXBUF"
    and "avail (k_in ks) = post_wire GET_REQUEST 0 (a @ [0]) @ rest" and "\<not> os_stat_error oss (os_resolve oss w a)"
  shows "\<exists>v' ks' out. serve_request oss v fd = Inr v' \<and> v_socks v' fd = Some ks' \<and> k_out ks' = k_out ks @ out
    \<and> v_files v' = v_files v \<and> avail (k_in ks') = rest
    \<and> (\<forall>st. avail st = out \<longrightarrow> (\<exists>c' kc'. cl_get osc (c\<lparr>c_sock := Some (kc\<lparr>k_in := st\<rparr>)\<rparr>) (Some a) = Inr (0, c')
          \<and> c_sock c' = Some kc' \<and> k_out kc' = k_out kc @ post_wire GET_REQUEST 0 (a @ [0])
          \<and> c_files c' = (c_files c)(os_resolve osc (c_cwd c) a \<mapsto> content)))"
proof -
  from serve_get_sends_file [OF assms(1-6,12-17)] obtain v' ks' where
    server: "serve_request oss v fd = Inr v'" "v_socks v' fd = Some ks'" "v_files v' = v_files v" "avail (k_in ks') = rest"
      "k_out ks' = k_out ks @ post_wire GET_REPLY 1 [] @ post_wire FILE_DATA 0 content" by blast
  let ?out = "post_wire GET_REPLY 1 [] @ post_wire FILE_DATA 0 content"
  have client: "\<exists>c' kc'. cl_get osc (c\<lparr>c_sock := Some (kc\<lparr>k_in := st'\<rparr>)\<rparr>) (Some a) = Inr (0, c')
          \<and> c_sock c' = Some kc' \<and> k_out kc' = k_out kc @ post_wire GET_REQUEST 0 (a @ [0])
          \<and> c_files c' = (c_files c)(os_resolve osc (c_cwd c) a \<mapsto> content)" if "avail st' = ?out" for st'
    using cl_get_stores_file [of "c\<lparr>c_sock := Some (kc\<lparr>k_in := st'\<rparr>)\<rparr>" "kc\<lparr>k_in := st'\<rparr>" a content "[]" osc]
      assms(7,9,10,11,14,15) that by (auto simp: all_sent_def)
  with server show ?thesis by blast
qed

lemma get_transfers_file_witness:
  "\<exists>v' ks' out. serve_request demo_os (demo_server (post_wire GET_REQUEST 0 ([97] @ [0]) @ [])) 5 = Inr v' \<and> v_socks v' 5 = Some ks'
    \<and> k_out ks' = k_out (demo_sock (post_wire GET_REQUEST 0 ([97] @ [0]) @ [])) @ out
    \<and> v_files v' = v_files (demo_server (post_wire GET_REQUEST 0 ([97] @ [0]) @ [])) \<and> avail (k_in ks') = []
    \<and> (\<forall>st. avail st = out \<longrightarrow> (\<exists>c' kc'. cl_get demo_os (demo_client\<lparr>c_sock := Some (demo_sock []\<lparr>k_in := st\<rparr>)\<rparr>) (Some [97])
            = Inr (0, c')
          \<and> c_sock c' = Some kc' \<and> k_out kc' = k_out (demo_sock []) @ post_wire GET_REQUEST 0 ([97] @ [0])
          \<and> c_files c' = (c_files demo_client)(os_resolve demo_os (c_cwd demo_client) [97] \<mapsto> [1, 2, 3])))"
  by (rule get_transfers_file [where w = "[47]"]) (simp_all add: MAXBUF_def)

text \<open>A \<open>put\<close> transfers the file. The client sends the request and the data without waiting for more than the reply, and
  whatever the segmentation of the two streams, the server stores exactly the bytes of the client's file under the name in the
  directory of the connection, sends one reply, and the client's \<open>do_put\<close> returns 0 and keeps its files.
\<close>

theorem put_transfers_file:
  assumes "v_socks v fd = Some ks" and "all_sent ks" and "fd_ok v fd" and "work_dir oss v fd = Some w"
    and "os_writable oss (os_resolve oss w a)" and "os_resolve oss w a \<notin> set (v_dirs v)" and "length (os_junk oss) = MAXBUF"
    and "c_connected c" and "c_sock c = Some kc" and "all_sent kc"
    and "c_files c (os_resolve osc (c_cwd c) a) = Some content" and "length (os_junk osc) = MAXBUF"
    and "0 \<notin> set a" and "length a + 1 < MAXBUF" and "length content \<le> MAXBUF"
    and "avail (k_in ks) = post_wire PUT_REQUEST 0 (a @ [0]) @ post_wire FILE_DATA 0 content @ rest"
  shows "\<exists>v' ks' out. serve_request oss v fd = Inr v' \<and> v_socks v' fd = Some ks' \<and> k_out ks' = k_out ks @ out
    \<and> v_files v' = (v_files v)(os_resolve oss w a \<mapsto> content) \<and> avail (k_in ks') = rest
    \<and> (\<forall>st. avail st = out \<longrightarrow> (\<exists>c' kc'. cl_put osc (c\<lparr>c_sock := Some (kc\<lparr>k_in := st\<rparr>)\<rparr>) (Some a) = Inr (0, c')
          \<and> c_sock c' = Some kc' \<and> c_files c' = c_files c
          \<and> k_out kc' = k_out kc @ post_wire PUT_REQUEST 0 (a @ [0]) @ post_wire FILE_DATA 0 content))"
proof -
  have dec: "decode_post (avail (k_in ks)) = Some ((PUT_REQUEST, 0, a @ [0]), post_wire FILE_DATA 0 content @ rest)"
    unfolding assms(16) by (rule decode_post_wire) (use assms(14) in simp)
  have len: "length (a @ [0]) < MAXBUF" using assms(14) by simp
  from serve_request_dispatch [OF assms(1) dec len assms(3,4)] obtain st where
    st: "avail st = post_wire FILE_DATA 0 content @ rest" "serve_request oss v fd = bind_res (srv_put oss
       (v\<lparr>v_socks := (v_socks v)(fd \<mapsto> ks\<lparr>k_in := st\<rparr>), v_type := PUT_REQUEST, v_cwd := w\<rparr>) fd (request_buf (a @ [0])))
       (\<lambda>(scode, v). Inr (back_home oss v))" by auto
  let ?v = "v\<lparr>v_socks := (v_socks v)(fd \<mapsto> ks\<lparr>k_in := st\<rparr>), v_type := PUT_REQUEST, v_cwd := w\<rparr>"
  have s: "v_socks ?v fd = Some (ks\<lparr>k_in := st\<rparr>)" "all_sent (ks\<lparr>k_in := st\<rparr>)"
    "decode_post (avail (k_in (ks\<lparr>k_in := st\<rparr>))) = Some ((FILE_DATA, 0, content), rest)"
    "os_writable oss (os_resolve oss (v_cwd ?v) a)" "os_resolve oss (v_cwd ?v) a \<notin> set (v_dirs ?v)"
    using assms(2,5,6) st(1) decode_post_wire [OF assms(15)] by (simp_all add: all_sent_def)
  from srv_put_stores_file [OF s(1,2) assms(13) s(3) assms(15) s(4,5) assms(7)] obtain k' where
    k': "srv_put oss ?v fd (request_buf (a @ [0])) = Inr (0, ?v\<lparr>v_socks := (v_socks ?v)(fd \<mapsto> k'),
      v_files := (v_files ?v)(os_resolve oss (v_cwd ?v) a \<mapsto> content)\<rparr>)"
    "k_out k' = k_out ks @ post_wire PUT_REPLY 0 []" "avail (k_in k') = rest" by auto
  have client: "\<exists>c' kc'. cl_put osc (c\<lparr>c_sock := Some (kc\<lparr>k_in := st'\<rparr>)\<rparr>) (Some a) = Inr (0, c')
          \<and> c_sock c' = Some kc' \<and> c_files c' = c_files c
          \<and> k_out kc' = k_out kc @ post_wire PUT_REQUEST 0 (a @ [0]) @ post_wire FILE_DATA 0 content"
    if "avail st' = post_wire PUT_REPLY 0 []" for st'
    using cl_put_sends_file [of "c\<lparr>c_sock := Some (kc\<lparr>k_in := st'\<rparr>)\<rparr>" "kc\<lparr>k_in := st'\<rparr>" a 0 "[]" osc content]
      assms(8,10,11,12,14) MAXBUF_fits [OF assms(15)] assms(15) that by (auto simp: all_sent_def)
  let ?v' = "back_home oss (?v\<lparr>v_socks := (v_socks ?v)(fd \<mapsto> k'),
      v_files := (v_files ?v)(os_resolve oss (v_cwd ?v) a \<mapsto> content)\<rparr>)"
  have "serve_request oss v fd = Inr ?v'" using st(2) k'(1) by simp
  moreover have "v_socks ?v' fd = Some k'" "v_files ?v' = (v_files v)(os_resolve oss w a \<mapsto> content)" by simp_all
  ultimately show ?thesis using k'(2,3) client by blast
qed

lemma put_transfers_file_witness:
  "\<exists>v' ks' out. serve_request demo_os (demo_server demo_put) 5 = Inr v' \<and> v_socks v' 5 = Some ks'
    \<and> k_out ks' = k_out (demo_sock demo_put) @ out
    \<and> v_files v' = (v_files (demo_server demo_put))(os_resolve demo_os [47] [98] \<mapsto> [7, 8]) \<and> avail (k_in ks') = []
    \<and> (\<forall>st. avail st = out \<longrightarrow> (\<exists>c' kc'. cl_put demo_os (demo_client\<lparr>c_sock := Some (demo_sock []\<lparr>k_in := st\<rparr>)\<rparr>) (Some [98])
            = Inr (0, c')
          \<and> c_sock c' = Some kc' \<and> c_files c' = c_files demo_client
          \<and> k_out kc' = k_out (demo_sock []) @ post_wire PUT_REQUEST 0 ([98] @ [0]) @ post_wire FILE_DATA 0 [7, 8]))"
  unfolding demo_put_def by (rule put_transfers_file [where w = "[47]"]) (simp_all add: MAXBUF_def)

text \<open>Sending and receiving posts one after the other, as the two ends of a connection do.\<close>

fun send_posts :: "sock \<Rightarrow> (u8 \<times> u8 \<times> u8 list) list \<Rightarrow> sock res" where
  "send_posts k [] = Inr k"
| "send_posts k ((t, s, d) # ps) = bind_res (send_post k t d (int (length d)) s) (\<lambda>(scode, msg, k). send_posts k ps)"

fun recv_posts :: "sock \<Rightarrow> nat \<Rightarrow> ((u8 \<times> u8 \<times> u8 list) list \<times> sock) res" where
  "recv_posts k 0 = Inr ([], k)"
| "recv_posts k (Suc n) =
     bind_res (recv_post k (replicate MAXBUF 0) 0 0) (\<lambda>r.
     bind_res (recv_posts (p_sock r) n) (\<lambda>(ps, k). Inr ((p_type r, p_status r, take (nat (p_size r)) (p_buf r)) # ps, k)))"

definition posts_wire :: "(u8 \<times> u8 \<times> u8 list) list \<Rightarrow> u8 list" where
  "posts_wire ps = concat (map (\<lambda>(t, s, d). post_wire t s d) ps)"

definition posts_fit :: "(u8 \<times> u8 \<times> u8 list) list \<Rightarrow> bool" where
  "posts_fit ps \<longleftrightarrow> (\<forall>(t, s, d) \<in> set ps. length d \<le> MAXBUF)"

lemma send_posts_wire:
  "all_sent k \<Longrightarrow> posts_fit ps \<Longrightarrow> \<exists>k'. send_posts k ps = Inr k' \<and> k_out k' = k_out k @ posts_wire ps"
proof (induction ps arbitrary: k)
  case (Cons p ps)
  obtain t s d where p: "p = (t, s, d)" by (cases p)
  have "length d \<le> MAXBUF" "posts_fit ps" using Cons.prems(2) by (auto simp: posts_fit_def p)
  from send_post_all [OF Cons.prems(1) this(1), of t "[]" s] obtain k1 where
    k1: "send_post k t d (int (length d)) s = Inr (int (length d), [], k1)" "k_out k1 = k_out k @ post_wire t s d" "all_sent k1"
    by auto
  from Cons.IH [OF k1(3) \<open>posts_fit ps\<close>] k1 show ?case by (auto simp: p posts_wire_def)
qed (simp add: posts_wire_def)

lemma recv_posts_wire:
  "posts_fit ps \<Longrightarrow> avail (k_in q) = posts_wire ps @ rest \<Longrightarrow>
   \<exists>q'. recv_posts q (length ps) = Inr (ps, q') \<and> avail (k_in q') = rest"
proof (induction ps arbitrary: q)
  case (Cons p ps)
  obtain t s d where p: "p = (t, s, d)" by (cases p)
  have fit: "length d \<le> MAXBUF" "posts_fit ps" using Cons.prems(1) by (auto simp: posts_fit_def p)
  have "decode_post (avail (k_in q)) = Some ((t, s, d), posts_wire ps @ rest)"
    using Cons.prems(2) decode_post_wire [OF fit(1)] by (simp add: p posts_wire_def)
  from recv_post_decode [OF this, of "replicate MAXBUF 0"] fit(1) obtain st where
    st: "recv_post q (replicate MAXBUF 0) 0 0 = Inr \<lparr>p_size = int (length d), p_buf = d @ replicate (MAXBUF - length d) 0,
      p_type = t, p_status = s, p_said = [], p_sock = q\<lparr>k_in := st\<rparr>\<rparr>" "avail st = posts_wire ps @ rest" by auto
  from Cons.IH [OF fit(2), of "q\<lparr>k_in := st\<rparr>"] st show ?case by (auto simp: p)
qed (simp add: posts_wire_def)

text \<open>C12: Whatever posts \<open>send_post\<close> writes one after the other, \<open>recv_post\<close> reads back in that order: types, statuses and
  data arrive unchanged, however the bytes are cut into segments and whatever follows them, and exactly their bytes are taken
  from the stream; and no other posts have the same bytes. \<open>send_post\<close> makes up for calls of \<open>send\<close> that take only a part.
\<close>

theorem posts_survive_segmentation:
  assumes "all_sent k" and "posts_fit ps"
  shows "\<exists>k' w. send_posts k ps = Inr k' \<and> k_out k' = k_out k @ w
    \<and> (\<forall>q rest. avail (k_in q) = w @ rest \<longrightarrow> (\<exists>q'. recv_posts q (length ps) = Inr (ps, q') \<and> avail (k_in q') = rest))
    \<and> (\<forall>ps' rest rest'. posts_fit ps' \<and> length ps' = length ps \<and> posts_wire ps' @ rest' = w @ rest \<longrightarrow> ps' = ps \<and> rest' = rest)"
proof -
  from send_posts_wire [OF assms] obtain k' where
    k': "send_posts k ps = Inr k'" "k_out k' = k_out k @ posts_wire ps" by blast
  have "ps' = ps \<and> rest' = rest"
    if "posts_fit ps'" "length ps' = length ps" "posts_wire ps' @ rest' = posts_wire ps @ rest" for ps' rest rest'
    using post.unique_parse_all [of ps' ps rest' rest] that assms(2) by (auto simp: posts_fit_def posts_wire_def)
  with k' recv_posts_wire [OF assms(2)] show ?thesis by blast
qed

definition demo_posts :: "(u8 \<times> u8 \<times> u8 list) list" where
  "demo_posts = [(GET_REPLY, 1, []), (FILE_DATA, 0, [1, 2, 3])]"

lemma posts_survive_segmentation_witness:
  "\<exists>k' w. send_posts (demo_sock []) demo_posts = Inr k' \<and> k_out k' = k_out (demo_sock []) @ w
    \<and> (\<forall>q rest. avail (k_in q) = w @ rest \<longrightarrow>
        (\<exists>q'. recv_posts q (length demo_posts) = Inr (demo_posts, q') \<and> avail (k_in q') = rest))"
proof -
  have "posts_fit demo_posts" by (simp add: posts_fit_def demo_posts_def MAXBUF_def)
  then show ?thesis using posts_survive_segmentation [of "demo_sock []" demo_posts] by fastforce
qed

text \<open>C13: \<open>recv_post\<close> believes the length field. When at least one byte more arrives than the caller's buffer holds, it writes
  past the buffer exactly if the field is smaller than the header, so that the unsigned difference wraps around, or larger than
  header and buffer together. The magic number is never looked at.
\<close>

theorem recv_post_trusts_length:
  assumes "12 \<le> length (avail (k_in k))" and "length buf \<le> MAXBUF" and "length buf < length (avail (k_in k)) - 12"
  shows "recv_post k buf t0 s0 = Inl Undef \<longleftrightarrow>
     (let n = unat (ntohl (m_length (image_ftp (avail (k_in k))))) in n < 12 \<or> 12 + length buf < n)"
proof -
  let ?m = "avail (k_in k)"
  let ?w = "ntohl (m_length (image_ftp ?m))"
  let ?n = "unat ?w"
  obtain N where N: "?n = N" "N < 2 ^ 32" using unsigned_less [of ?w, where 'a = nat] by simp
  have n: "uint ?w = int N" unfolding N(1) [symmetric] by (rule uint_nat)
  show ?thesis
  proof (cases "N < 12 \<or> 12 + length buf < N")
    case True
    have b: "length buf \<le> 2097152" using assms(2) by (simp add: MAXBUF_def)
    have "int (length buf) < post_length (image_ftp ?m) mod 2 ^ 64"
      unfolding post_length_cases n Let_def using b True N(2) by auto
    then have "length buf < size_t_of_int (post_length (image_ftp ?m))"
      unfolding size_t_of_int_def by linarith
    then have "recv_post k buf t0 s0 = Inl Undef" by (intro recv_post_overflow assms)
    with True show ?thesis by (simp only: Let_def N(1) simp_thms)
  next
    case False
    then have pl: "post_length (image_ftp ?m) = int (N - 12)"
      unfolding post_length_def n HEADER_SIZE_def using assms(2) by (subst int_of_long_id) (simp_all add: MAXBUF_def)
    have "decode_post ?m = Some ((m_type (image_ftp ?m), m_status (image_ftp ?m), take (N - 12) (drop 12 ?m)), drop N ?m)"
      using False assms(1,3) pl by (auto simp: decode_post_def Let_def nat_diff_distrib')
    moreover have "length (take (N - 12) (drop 12 ?m)) \<le> length buf" using False by (auto simp: min_le_iff_disj)
    ultimately have "recv_post k buf t0 s0 \<noteq> Inl Undef" using recv_post_decode [of k _ _ _ _ buf t0 s0] by fastforce
    with False show ?thesis by (simp only: Let_def N(1) simp_thms)
  qed
qed

lemma recv_post_trusts_length_witness:
  "recv_post (demo_sock (post_wire 0xA7 0 [1, 2, 3])) [0, 0] 0 0 = Inl Undef"
proof -
  have "unat (ntohl (m_length (image_ftp (post_wire 0xA7 0 [1, 2, 3])))) = 15" by code_simp
  then show ?thesis
    using recv_post_trusts_length [of "demo_sock (post_wire 0xA7 0 [1, 2, 3])" "[0, 0]" 0 0] by (simp add: MAXBUF_def)
qed

text \<open>C23: The server calls the handler whose index \<open>type2ind\<close> computes from the type byte of the request. This is an entry of the
  table for the bytes from 160 to 174, replies included, where 160 falls on \<open>do_open\<close> because the division rounds towards
  zero; every other byte, such as that of \<open>FILE_DATA\<close>, makes the server call through a pointer outside the table.
\<close>

theorem request_type_indexes_table:
  assumes "v_socks v fd = Some k" and "decode_post (avail (k_in k)) = Some ((t, s, d), rest)" and "length d < MAXBUF"
    and "fd_ok v fd" and "work_dir os v fd = Some w"
  shows "\<exists>st. avail st = rest \<and> serve_request os v fd =
    (if 160 \<le> unat t \<and> unat t \<le> 174
     then bind_res ((funcs ! ((unat t - 161) div 2)) os
            (v\<lparr>v_socks := (v_socks v)(fd \<mapsto> k\<lparr>k_in := st\<rparr>), v_type := t, v_cwd := w\<rparr>) fd (request_buf d))
            (\<lambda>(scode, v). Inr (back_home os v))
     else Inl Undef)"
proof -
  obtain N where N: "unat t = N" by blast
  have u: "uint t = int N" unfolding N [symmetric] by (rule uint_nat)
  have ix: "type2ind t = (if N < 161 then - ((161 - int N) div 2) else (int N - 161) div 2)"
    by (simp add: type2ind_def OPEN_REQUEST_def u Let_def)
  have "dispatch os v fd buf t = (if 160 \<le> N \<and> N \<le> 174 then (funcs ! ((N - 161) div 2)) os v fd buf else Inl Undef)" for v buf
  proof (cases "160 \<le> N \<and> N \<le> 174")
    case True
    then have "type2ind t = int ((N - 161) div 2)" by (simp add: ix) linarith
    moreover have "(N - 161) div 2 < 7" using True by linarith
    ultimately show ?thesis using True by (simp add: dispatch_def funcs_def)
  next
    case False
    then have "type2ind t < 0 \<or> 7 \<le> type2ind t" by (simp add: ix) linarith
    with False show ?thesis by (auto simp: dispatch_def funcs_def)
  qed
  with serve_request_dispatch [OF assms] show ?thesis by (force simp: N)
qed

lemma request_type_indexes_table_witness: "serve_request demo_os (demo_server (post_wire FILE_DATA 0 [1] @ [])) 5 = Inl Undef"
proof -
  have "decode_post (post_wire FILE_DATA 0 [1] @ []) = Some ((FILE_DATA, 0, [1]), [])"
    by (rule decode_post_wire) (simp add: MAXBUF_def)
  moreover have "\<not> unat FILE_DATA \<le> 174" by (simp add: FILE_DATA_def)
  ultimately show ?thesis
    using request_type_indexes_table [of "demo_server (post_wire FILE_DATA 0 [1] @ [])" 5 _ FILE_DATA 0 "[1]" "[]" demo_os "[47]"]
    by (simp add: MAXBUF_def)
qed

text \<open>C14: After any sequence of accepted connections and requests, in any order, that the server survives, its state is well
  formed: the array of directories has \<open>MAXCONN\<close> entries, the process is back in the directory in which it was started,
  and only connections that have a socket are watched.
\<close>

theorem server_state_is_well_formed:
  assumes "cwd \<in> set dirs" and "\<forall>p. os_resolve os p cwd = cwd" and "serve_events os (server_init files dirs cwd) evs = Inr v"
  shows "server_wf os v"
proof -
  have "server_start os (server_init files dirs cwd)" using assms(1,2) by (auto simp: server_start_def)
  then show ?thesis using assms(3) by (meson ftp.reachable_inv reach_init serve_events_reachable)
qed

lemma server_state_is_well_formed_witness:
  "\<exists>v. serve_events demo_os (server_init Map.empty [[47]] [47]) [Accepted 5 (demo_sock []) True, Readable 5] = Inr v \<and> server_wf demo_os v"
proof -
  let ?v = "(server_init Map.empty [[47]] [47])\<lparr>v_socks := [5 \<mapsto> demo_sock []], v_watch := [5]\<rparr>"
  let ?v' = "tell ?v (serror ''socket closed'' @ serror ''recv request error'')"
  have "serve_request demo_os ?v 5 = Inr ?v'"
    by (simp add: serve_request_def receive_def recv_post_def srecv_def srecv_loop.simps demo_sock_def HEADER_SIZE_def
        size_t_of_int_def Let_def server_init_def tell_def)
  then have "serve_events demo_os (server_init Map.empty [[47]] [47]) [Accepted 5 (demo_sock []) True, Readable 5] = Inr ?v'"
    by (simp add: server_init_def)
  with server_state_is_well_formed [OF _ _ this] show ?thesis by auto
qed

text \<open>C15: A request on one connection leaves every other connection alone: its socket, whether it is watched, and its working
  directory; and the process working directory is the same as before, although the handler ran in another one.
\<close>

theorem sessions_are_isolated:
  assumes "server_wf os v" and "serve_request os v fd = Inr v'" and "fd' \<noteq> fd"
  shows "v_socks v' fd' = v_socks v fd' \<and> v_cwd v' = v_cwd v \<and> (fd' \<in> set (v_watch v') \<longleftrightarrow> fd' \<in> set (v_watch v))
    \<and> (fd_ok v fd' \<longrightarrow> cwd_get v' fd' = cwd_get v fd')"
proof -
  have sm: "same_but fd v v'" by (rule returnsD [OF serve_request_same [OF assms(1)] assms(2)])
  have "fd2ind fd' \<noteq> fd2ind fd" using assms(3) by (simp add: fd2ind_def)
  then have "cwd_get v' fd' = cwd_get v fd'" if "fd_ok v fd'" using that sm
    by (auto simp: cwd_get_def fd_ok_def same_but_def)
  moreover have "v_socks v' fd' = v_socks v fd'" "v_cwd v' = v_cwd v" using sm assms(3) by (simp_all add: same_but_def)
  moreover have "fd' \<in> set (v_watch v') \<longleftrightarrow> fd' \<in> set (v_watch v)" using sm assms(3) by (rule same_but_watch)
  ultimately show ?thesis by simp
qed

lemma sessions_are_isolated_witness:
  "\<exists>v'. serve_request demo_os (demo_server (post_wire GET_REQUEST 0 ([97] @ [0]) @ [])) 5 = Inr v'
     \<and> v_socks v' 6 = None \<and> v_cwd v' = [47] \<and> cwd_get v' 6 = Inr null_path"
proof -
  obtain v' where v': "serve_request demo_os (demo_server (post_wire GET_REQUEST 0 ([97] @ [0]) @ [])) 5 = Inr v'"
    using serve_get_sends_file [of "demo_server (post_wire GET_REQUEST 0 ([97] @ [0]) @ [])" 5 _ demo_os "[47]" "[97]" "[1, 2, 3]" "[]"]
    by (auto simp: MAXBUF_def)
  from sessions_are_isolated [OF demo_server_simps(7) v', of 6] v' show ?thesis
    by (simp add: demo_server_def server_init_def fd_ok_def fd2ind_def MAXCONN_def cwd_get_def)
qed

text \<open>C40: A client that closes its connection without \<open>quit\<close> is never removed: the failed \<open>recv_post\<close> changes nothing but the
  output, the descriptor stays open and watched, and since it stays readable the loop serves it again and again and prints
  two more messages each time.
\<close>

theorem closed_connection_stays_watched:
  assumes "v_socks v fd = Some k" and "k_in k = []"
  shows "serve_events os v (replicate n (Readable fd))
    = Inr (tell v (concat (replicate n (serror ''socket closed'' @ serror ''recv request error''))))"
  using assms(1)
proof (induction n arbitrary: v)
  case (Suc n)
  have "srecv k (replicate HEADER_SIZE 0) (int HEADER_SIZE) = Inr (-1, serror ''socket closed'', replicate HEADER_SIZE 0, k)"
    unfolding srecv_def using assms(2) by (subst srecv_loop.simps) (simp add: HEADER_SIZE_def size_t_of_int_def)
  then have "serve_request os v fd = Inr (tell v (serror ''socket closed'' @ serror ''recv request error''))"
    using Suc.prems by (simp add: serve_request_def receive_def recv_post_def Let_def map_upd_triv tell_def)
  with Suc show ?case by (simp add: tell_def)
qed simp

lemma closed_connection_stays_watched_witness:
  "serve_events demo_os (demo_server []) (replicate 3 (Readable 5)) = Inr (tell (demo_server [])
     (concat (replicate 3 (serror ''socket closed'' @ serror ''recv request error''))))"
  by (rule closed_connection_stays_watched [of _ _ "demo_sock []"]) (simp_all add: demo_sock_def)

text \<open>A connection whose directory is a regular file.\<close>

definition silenced :: "os \<Rightarrow> server \<Rightarrow> int \<Rightarrow> bool" where
  "silenced os v fd \<longleftrightarrow> fd_ok v fd \<and> (let q = v_cwds v ! nat (fd2ind fd)
     in q \<noteq> [] \<and> (\<forall>p. os_resolve os p q = q) \<and> \<not> os_stat_error os q \<and> v_files v q \<noteq> None \<and> q \<notin> set (v_dirs v))"

lemma silenced_request:
  assumes sil: "silenced os v fd" and k: "v_socks v fd = Some k"
    and dec: "decode_post (avail (k_in k)) = Some ((t, s, d), rest)" "length d \<le> MAXBUF"
  shows "\<exists>v' k'. serve_request os v fd = Inr v' \<and> v_socks v' = (v_socks v)(fd \<mapsto> k') \<and> k_out k' = k_out k \<and> avail (k_in k') = rest
    \<and> v_files v' = v_files v \<and> v_cwds v' = v_cwds v \<and> v_dirs v' = v_dirs v"
proof -
  let ?q = "v_cwds v ! nat (fd2ind fd)"
  obtain st where st: "recv_post k (replicate MAXBUF 0) (v_type v) 0 = Inr \<lparr>p_size = int (length d), p_buf = request_buf d,
      p_type = t, p_status = s, p_said = [], p_sock = k\<lparr>k_in := st\<rparr>\<rparr>" "avail st = rest"
    using recv_post_decode [OF dec(1), of "replicate MAXBUF 0" "v_type v" 0] dec(2) by (auto simp: request_buf_def)
  let ?v1 = "v\<lparr>v_socks := (v_socks v)(fd \<mapsto> k\<lparr>k_in := st\<rparr>), v_type := t\<rparr>"
  have "fs_lookup os ?v1 ?q = Inr True" "chdir os ?v1 ?q = None" "cwd_get ?v1 fd = Inr ?q"
    using sil by (simp_all add: silenced_def Let_def fs_lookup_def fs_exists_def chdir_def cwd_get_def fd_ok_def)
  then have "serve_request os v fd = Inr (tell ?v1 (serror ''change to client directory error''))"
    using st(1) k by (simp add: serve_request_def receive_def Let_def)
  with st(2) show ?thesis by (intro exI) auto
qed

lemma silenced_requests:
  assumes "silenced os v fd" and "v_socks v fd = Some k" and "avail (k_in k) = posts_wire ps @ rest"
    and "\<forall>(t, s, d) \<in> set ps. length d \<le> MAXBUF"
  shows "\<exists>v' k'. serve_events os v (replicate (length ps) (Readable fd)) = Inr v' \<and> v_socks v' fd = Some k' \<and> k_out k' = k_out k
    \<and> avail (k_in k') = rest \<and> v_files v' = v_files v \<and> v_cwds v' = v_cwds v"
  using assms
proof (induction ps arbitrary: v k)
  case (Cons p ps)
  obtain t s d where p: "p = (t, s, d)" by (cases p)
  have d: "length d \<le> MAXBUF" using Cons.prems(4) by (auto simp: p)
  have "decode_post (avail (k_in k)) = Some ((t, s, d), posts_wire ps @ rest)"
    unfolding Cons.prems(3) by (simp add: posts_wire_def p decode_post_wire [OF d])
  from silenced_request [OF Cons.prems(1,2) this d] obtain v' k' where
    v': "serve_request os v fd = Inr v'" "v_socks v' fd = Some k'" "k_out k' = k_out k" "avail (k_in k') = posts_wire ps @ rest"
      "v_files v' = v_files v" "v_cwds v' = v_cwds v" "v_dirs v' = v_dirs v" by auto
  have "silenced os v' fd" using Cons.prems(1) v'(5-7) by (simp add: silenced_def fd_ok_def)
  from Cons.IH [OF this v'(2,4)] Cons.prems(4) v'(1,3,5,6) show ?case by simp
qed (auto simp: posts_wire_def)

text \<open>C39: \<open>do_cd\<close> accepts a name that exists, also that of a regular file. The client is told that the change succeeded, but
  from then on the server cannot change to the directory of the connection: it takes every later request, any number of
  them and whatever they are, off the stream and sends no answer, as long as the file is there; here the events of this
  connection follow one another.
\<close>

theorem cd_to_a_file_silences_the_session:
  assumes "v_socks v fd = Some k" and "all_sent k" and "fd_ok v fd" and "work_dir os v fd = Some w"
    and "avail (k_in k) = post_wire CD_REQUEST 0 (a @ [0]) @ posts_wire ps @ rest" and "\<forall>(t, s, d) \<in> set ps. length d \<le> MAXBUF"
    and "0 \<notin> set a" and "length a + 1 < MAXBUF" and "a \<noteq> []"
    and "os_resolve os w a = q" and "\<forall>p. os_resolve os p q = q" and "q \<noteq> []"
    and "v_files v q \<noteq> None" and "q \<notin> set (v_dirs v)" and "\<not> os_stat_error os q"
  shows "\<exists>v' v'' k' k''. serve_request os v fd = Inr v' \<and> v_socks v' fd = Some k' \<and> k_out k' = k_out k @ post_wire CD_REPLY 1 []
    \<and> serve_events os v' (replicate (length ps) (Readable fd)) = Inr v'' \<and> v_socks v'' fd = Some k'' \<and> k_out k'' = k_out k'
    \<and> avail (k_in k'') = rest \<and> v_files v'' = v_files v \<and> v_cwds v'' ! nat (fd2ind fd) = q"
proof -
  have dec: "decode_post (avail (k_in k)) = Some ((CD_REQUEST, 0, a @ [0]), posts_wire ps @ rest)"
    unfolding assms(5) by (rule decode_post_wire) (use assms(8) in simp)
  have len: "length (a @ [0]) < MAXBUF" using assms(8) by simp
  from serve_request_dispatch [OF assms(1) dec len assms(3,4)] obtain st where
    st: "avail st = posts_wire ps @ rest" "serve_request os v fd = bind_res (srv_cd os
       (v\<lparr>v_socks := (v_socks v)(fd \<mapsto> k\<lparr>k_in := st\<rparr>), v_type := CD_REQUEST, v_cwd := w\<rparr>) fd (request_buf (a @ [0])))
       (\<lambda>(scode, v). Inr (back_home os v))" by auto
  let ?v = "v\<lparr>v_socks := (v_socks v)(fd \<mapsto> k\<lparr>k_in := st\<rparr>), v_type := CD_REQUEST, v_cwd := w\<rparr>"
  have "v_socks ?v fd = Some (k\<lparr>k_in := st\<rparr>)" "all_sent (k\<lparr>k_in := st\<rparr>)" using assms(2) by (simp_all add: all_sent_def)
  from reply_nodata [OF this, of CD_REPLY 1] obtain k1 where
    k1: "reply ?v fd CD_REPLY [] 0 1 = Inr (0, ?v\<lparr>v_socks := (v_socks ?v)(fd \<mapsto> k1)\<rparr>)"
      "k_out k1 = k_out k @ post_wire CD_REPLY 1 []" "k_in k1 = st" by auto
  let ?v1 = "?v\<lparr>v_socks := (v_socks ?v)(fd \<mapsto> k1), v_cwds := (v_cwds v)[nat (fd2ind fd) := q]\<rparr>"
  have "fs_lookup os ?v a = Inr True" using assms(9,10,13,15) by (simp add: fs_lookup_def fs_exists_def)
  then have "srv_cd os ?v fd (request_buf (a @ [0])) = Inr (0, ?v1)"
    using k1(1) assms(3,10) by (simp add: srv_cd_def c_string_request [OF assms(7)] status_of_def cwd_set_def fd_ok_def)
  with st(2) have v': "serve_request os v fd = Inr (back_home os ?v1)" by simp
  have q: "v_cwds (back_home os ?v1) ! nat (fd2ind fd) = q" using assms(3) by (simp add: fd_ok_def nat_less_iff)
  have "silenced os (back_home os ?v1) fd"
    using assms(3,11-15) q by (simp add: silenced_def Let_def fd_ok_def)
  from silenced_requests [OF this, of k1 ps rest] k1(3) st(1) assms(6) obtain v'' k'' where
    "serve_events os (back_home os ?v1) (replicate (length ps) (Readable fd)) = Inr v''" "v_socks v'' fd = Some k''"
    "k_out k'' = k_out k1" "avail (k_in k'') = rest" "v_files v'' = v_files v" "v_cwds v'' = v_cwds (back_home os ?v1)" by auto
  with v' k1(2) q show ?thesis by (intro exI [of _ "back_home os ?v1"] exI [of _ v''] exI [of _ k1] exI [of _ k'']) simp
qed

lemma cd_to_a_file_silences_the_session_witness:
  "\<exists>v' v'' k' k''. serve_request demo_os (demo_server demo_cd) 5 = Inr v' \<and> v_socks v' 5 = Some k'
    \<and> k_out k' = k_out (demo_sock demo_cd) @ post_wire CD_REPLY 1 []
    \<and> serve_events demo_os v' [Readable 5, Readable 5] = Inr v'' \<and> v_socks v'' 5 = Some k'' \<and> k_out k'' = k_out k'
    \<and> avail (k_in k'') = [] \<and> v_files v'' = v_files (demo_server demo_cd) \<and> v_cwds v'' ! nat (fd2ind 5) = [47, 97]"
proof -
  let ?ps = "[(LIST_REQUEST, 0, []), (CD_REQUEST, 0, [47, 0])]"
  have "[Readable 5, Readable 5] = replicate (length ?ps) (Readable 5)" by (simp add: numeral_2_eq_2)
  moreover have "avail (k_in (demo_sock demo_cd)) = post_wire CD_REQUEST 0 ([97] @ [0]) @ posts_wire ?ps @ []"
    by (simp add: demo_cd_def posts_wire_def)
  ultimately show ?thesis
    using cd_to_a_file_silences_the_session [where w = "[47]" and q = "[47, 97]" and a = "[97]" and os = demo_os
        and v = "demo_server demo_cd" and fd = 5 and k = "demo_sock demo_cd" and ps = ?ps and rest = "[]"]
    by (simp add: MAXBUF_def)
qed

text \<open>Without a connection every command other than \<open>open\<close> leaves the client as it is but for the message that it prints: it
  returns -1, or 1 when no command matches, and only \<open>quit\<close> returns 0 and ends the prompt loop.
\<close>

theorem offline_commands_do_nothing:
  assumes "\<not> c_connected c" and "\<not> strncasecmp0 line (bytes_of ''open'')"
  shows "parseline os c line = Inr (1, c)
    \<or> (\<exists>name \<in> {''ls'', ''cd'', ''get'', ''put'', ''sha256''}. strncasecmp0 line (bytes_of name)
         \<and> parseline os c line = Inr (-1, c_say c (serror (name @ '' not supported offline''))))
    \<or> strncasecmp0 line (bytes_of ''quit'') \<and> parseline os c line = Inr (0, c\<lparr>c_running := False\<rparr>)"
  using assms by (auto simp: parseline_def cmdnames_def cmdfuncs_def Let_def cl_ls_def cl_cd_def cl_get_def cl_put_def
      cl_sha_def cl_quit_def cl_error_def)

lemma offline_commands_do_nothing_witness:
  "\<exists>r c'. parseline demo_os (demo_client\<lparr>c_connected := False\<rparr>) (bytes_of ''get a'') = Inr (r, c') \<and> r \<noteq> 0"
proof -
  have "\<not> strncasecmp0 (bytes_of ''get a'') (bytes_of ''open'')" "\<not> strncasecmp0 (bytes_of ''get a'') (bytes_of ''quit'')"
    by code_simp+
  then show ?thesis
    using offline_commands_do_nothing [of "demo_client\<lparr>c_connected := False\<rparr>" "bytes_of ''get a''" demo_os] by auto
qed

end
