(* ===== verification/Ftp_Spec.thy ===== *)
theory Ftp_Spec
  imports Ftp
begin

text \<open>
  What a session means to the user: two file systems, the directory of the connection and the text on the screen. The
  specification knows neither posts nor segments nor sockets; a client and a server that exchange bytes over a network that
  cuts both streams at will refine it.
\<close>

section \<open>The specification\<close>

datatype ftp_command = Ls | Cd path | Get path | Put path | Sha path

record view =
  local_files :: file_map
  remote_files :: file_map
  here :: path
  there :: path
  shown :: "u8 list"

fun command_line :: "ftp_command \<Rightarrow> u8 list" where
  "command_line Ls = bytes_of ''ls''"
| "command_line (Cd n) = bytes_of ''cd '' @ n"
| "command_line (Get n) = bytes_of ''get '' @ n"
| "command_line (Put n) = bytes_of ''put '' @ n"
| "command_line (Sha n) = bytes_of ''sha256 '' @ n"

definition known :: "os \<Rightarrow> path list \<Rightarrow> view \<Rightarrow> path \<Rightarrow> bool" where
  "known oss dirs a n \<longleftrightarrow>
     (let q = os_resolve oss (there a) n in remote_files a q \<noteq> None \<or> q \<in> set dirs)"

definition shell_output :: "os \<Rightarrow> view \<Rightarrow> u8 list \<Rightarrow> u8 list" where
  "shell_output oss a cmd = (case os_shell oss (remote_files a) (there a) cmd of None \<Rightarrow> [] | Some (out, files) \<Rightarrow> out)"

text \<open>A path goes unquoted into a command of the shell, which may change the files.\<close>

definition after_shell :: "os \<Rightarrow> view \<Rightarrow> u8 list \<Rightarrow> view" where
  "after_shell oss a cmd =
     (case os_shell oss (remote_files a) (there a) cmd of None \<Rightarrow> a | Some (out, files) \<Rightarrow> a\<lparr>remote_files := files\<rparr>)"

definition display :: "view \<Rightarrow> u8 list \<Rightarrow> view" where
  "display a t = a\<lparr>shown := shown a @ t\<rparr>"

text \<open>\<open>printf("%s")\<close> stops at the first zero byte.\<close>

definition printable :: "u8 list \<Rightarrow> u8 list" where
  "printable t = takeWhile (\<lambda>b. b \<noteq> 0) t"

definition sha_command :: "os \<Rightarrow> view \<Rightarrow> path \<Rightarrow> u8 list" where
  "sha_command oss a n = cmd_sha256sum @ os_resolve oss (there a) n"

text \<open>A transfer carries the first \<open>MAXBUF\<close> bytes of a file. A command that fails shows a message.\<close>

fun spec_step :: "os \<Rightarrow> os \<Rightarrow> path list \<Rightarrow> view \<Rightarrow> ftp_command \<Rightarrow> int \<times> view" where
  "spec_step oss osc dirs a Ls = (0, display (after_shell oss a cmd_ls) (printable (shell_output oss a cmd_ls)))"
| "spec_step oss osc dirs a (Cd n) =
     (if known oss dirs a n then (0, a\<lparr>there := os_resolve oss (there a) n\<rparr>)
      else (-1, display a (serror ''bad cd reply'')))"
| "spec_step oss osc dirs a (Get n) =
     (case remote_files a (os_resolve oss (there a) n) of
        Some content \<Rightarrow> (0, a\<lparr>local_files := (local_files a)(os_resolve osc (here a) n \<mapsto> carried content)\<rparr>)
      | None \<Rightarrow> (-1, display a (serror ''bad get reply'')))"
| "spec_step oss osc dirs a (Put n) =
     (case local_files a (os_resolve osc (here a) n) of
        Some content \<Rightarrow> (0, a\<lparr>remote_files := (remote_files a)(os_resolve oss (there a) n \<mapsto> carried content)\<rparr>)
      | None \<Rightarrow> (-1, display a (serror ''open file error (r)'')))"
| "spec_step oss osc dirs a (Sha n) =
     (if known oss dirs a n then (0, display (after_shell oss a (sha_command oss a n)) (printable (shell_output oss a (sha_command oss a n))))
      else (-1, display a (serror ''bad sha256 reply'')))"

fun spec_run :: "os \<Rightarrow> os \<Rightarrow> path list \<Rightarrow> view \<Rightarrow> ftp_command list \<Rightarrow> int list \<times> view" where
  "spec_run oss osc dirs a [] = ([], a)"
| "spec_run oss osc dirs a (cmd # cmds) =
     (case spec_step oss osc dirs a cmd of (r, a) \<Rightarrow>
        case spec_run oss osc dirs a cmds of (rs, a) \<Rightarrow> (r # rs, a))"

text \<open>
  The commands for which the programs keep this promise, the well-behaved ones: names fit into the buffers, the size of a file is
  below 2 GiB, a shell command of the server runs and its output and a zero byte fit into the buffer, the server can look up
  the names that it is asked for, \<open>cd\<close> does not name a regular file, \<open>get\<close> and \<open>put\<close> do not name a
  directory, the file of a \<open>put\<close> exists, and what is to be written can be written. What happens otherwise is the subject of
  theorems of its own, in \<open>Ftp\<close>, \<open>Ftp_Refine\<close> and \<open>Ftp_Blocking\<close>.
\<close>

definition name_ok :: "path \<Rightarrow> bool" where
  "name_ok n \<longleftrightarrow> n \<noteq> [] \<and> 0 \<notin> set n \<and> length n + 1 < MAXBUF"

definition shell_ok :: "os \<Rightarrow> view \<Rightarrow> u8 list \<Rightarrow> bool" where
  "shell_ok oss a cmd \<longleftrightarrow>
     (case os_shell oss (remote_files a) (there a) cmd of None \<Rightarrow> False | Some (out, files) \<Rightarrow> length out < MAXBUF)"

fun spec_ok :: "os \<Rightarrow> os \<Rightarrow> path list \<Rightarrow> view \<Rightarrow> ftp_command \<Rightarrow> bool" where
  "spec_ok oss osc dirs a Ls \<longleftrightarrow> shell_ok oss a cmd_ls"
| "spec_ok oss osc dirs a (Cd n) \<longleftrightarrow> name_ok n \<and> \<not> os_stat_error oss (os_resolve oss (there a) n) \<and> remote_files a (os_resolve oss (there a) n) = None"
| "spec_ok oss osc dirs a (Get n) \<longleftrightarrow> name_ok n \<and> \<not> os_stat_error oss (os_resolve oss (there a) n) \<and> os_resolve oss (there a) n \<notin> set dirs
     \<and> os_writable osc (os_resolve osc (here a) n)
     \<and> (case remote_files a (os_resolve oss (there a) n) of None \<Rightarrow> True | Some content \<Rightarrow> length content \<le> INT_MAX)"
| "spec_ok oss osc dirs a (Put n) \<longleftrightarrow> name_ok n \<and> os_resolve oss (there a) n \<notin> set dirs
     \<and> os_writable oss (os_resolve oss (there a) n)
     \<and> (case local_files a (os_resolve osc (here a) n) of None \<Rightarrow> False | Some content \<Rightarrow> length content \<le> INT_MAX)"
| "spec_ok oss osc dirs a (Sha n) \<longleftrightarrow> name_ok n \<and> \<not> os_stat_error oss (os_resolve oss (there a) n)
     \<and> (known oss dirs a n \<longrightarrow> shell_ok oss a (sha_command oss a n))"

fun run_ok :: "os \<Rightarrow> os \<Rightarrow> path list \<Rightarrow> view \<Rightarrow> ftp_command list \<Rightarrow> bool" where
  "run_ok oss osc dirs a [] \<longleftrightarrow> True"
| "run_ok oss osc dirs a (cmd # cmds) \<longleftrightarrow>
     spec_ok oss osc dirs a cmd \<and> run_ok oss osc dirs (snd (spec_step oss osc dirs a cmd)) cmds"

section \<open>The posts of a command\<close>

fun request :: "ftp_command \<Rightarrow> u8 \<times> u8 list" where
  "request Ls = (LIST_REQUEST, [])"
| "request (Cd n) = (CD_REQUEST, n @ [0])"
| "request (Get n) = (GET_REQUEST, n @ [0])"
| "request (Put n) = (PUT_REQUEST, n @ [0])"
| "request (Sha n) = (SHA_REQUEST, n @ [0])"

definition request_wire :: "ftp_command \<Rightarrow> u8 list" where
  "request_wire cmd = (case request cmd of (t, d) \<Rightarrow> post_wire t 0 d)"

fun upload :: "os \<Rightarrow> view \<Rightarrow> ftp_command \<Rightarrow> u8 list" where
  "upload osc a (Put n) =
     (case local_files a (os_resolve osc (here a) n) of None \<Rightarrow> [] | Some content \<Rightarrow> post_wire FILE_DATA 0 (carried content))"
| "upload osc a cmd = []"

fun answer :: "os \<Rightarrow> path list \<Rightarrow> view \<Rightarrow> ftp_command \<Rightarrow> u8 list" where
  "answer oss dirs a Ls = post_wire LIST_REPLY 0 (shell_output oss a cmd_ls @ [0])"
| "answer oss dirs a (Cd n) = post_wire CD_REPLY (status_of (known oss dirs a n)) []"
| "answer oss dirs a (Get n) =
     (case remote_files a (os_resolve oss (there a) n) of
        None \<Rightarrow> post_wire GET_REPLY 0 []
      | Some content \<Rightarrow> post_wire GET_REPLY 1 [] @ post_wire FILE_DATA 0 (carried content))"
| "answer oss dirs a (Put n) = post_wire PUT_REPLY 0 []"
| "answer oss dirs a (Sha n) =
     (if known oss dirs a n
      then post_wire SHA_REPLY 1 [] @ post_wire FILE_DATA 0 (shell_output oss a (sha_command oss a n) @ [0])
      else post_wire SHA_REPLY 0 [])"

section \<open>The handlers\<close>

lemma send_output_all:
  assumes "v_socks v fd = Some k" and "all_sent k" and "length out < MAXBUF"
  shows "\<exists>k'. send_output v fd t (Some out) m m' = Inr (0, v\<lparr>v_socks := (v_socks v)(fd \<mapsto> k')\<rparr>)
    \<and> k_out k' = k_out k @ post_wire t 0 (out @ [0]) \<and> k_in k' = k_in k \<and> all_sent k'"
  using reply_all [OF assms(1,2), of "out @ [0]" t "[]" 0] assms(3) by (auto simp: send_output_def Let_def add.commute)

text \<open>\<open>answers f os v fd d upd rest out\<close>: on a request with the data \<open>d\<close> the handler sends \<open>out\<close>, leaves \<open>rest\<close> to be
  received, and changes the server by \<open>upd\<close>.
\<close>

definition answers :: "handler \<Rightarrow> os \<Rightarrow> server \<Rightarrow> int \<Rightarrow> u8 list \<Rightarrow> (server \<Rightarrow> server) \<Rightarrow> u8 list \<Rightarrow> u8 list \<Rightarrow> bool" where
  "answers f os v fd d upd rest out \<longleftrightarrow> (\<forall>k. v_socks v fd = Some k \<longrightarrow>
     (\<exists>k'. f os v fd (request_buf d) = Inr (0, (upd v)\<lparr>v_socks := (v_socks v)(fd \<mapsto> k')\<rparr>)
        \<and> k_out k' = k_out k @ out \<and> avail (k_in k') = rest \<and> all_sent k'))"

lemma srv_ls_answers:
  assumes "v_socks v fd = Some k" and "all_sent k"
    and "os_shell os (v_files v) (v_cwd v) cmd_ls = Some (out, files)" and "length out < MAXBUF"
  shows "answers srv_ls os v fd d (\<lambda>v. v\<lparr>v_files := files\<rparr>) (avail (k_in k)) (post_wire LIST_REPLY 0 (out @ [0]))"
  using send_output_all [of "v\<lparr>v_files := files\<rparr>", OF _ assms(2,4), of fd LIST_REPLY] assms(1,3)
  by (fastforce simp: answers_def srv_ls_def popen_def)

lemma srv_cd_answers:
  assumes "v_socks v fd = Some k" and "all_sent k" and "0 \<notin> set n" and "fd_ok v fd"
    and "\<not> os_stat_error os (os_resolve os (v_cwd v) n)"
  shows "answers srv_cd os v fd (n @ [0])
    (\<lambda>v. if fs_exists os v n then v\<lparr>v_cwds := (v_cwds v)[nat (fd2ind fd) := os_resolve os (v_cwd v) n]\<rparr> else v)
    (avail (k_in k)) (post_wire CD_REPLY (status_of (fs_exists os v n)) [])"
proof -
  obtain k1 where k1: "reply v fd CD_REPLY [] 0 (status_of (fs_exists os v n)) = Inr (0, v\<lparr>v_socks := (v_socks v)(fd \<mapsto> k1)\<rparr>)"
    "k_out k1 = k_out k @ post_wire CD_REPLY (status_of (fs_exists os v n)) []" "k_in k1 = k_in k" "all_sent k1"
    using reply_nodata [OF assms(1,2), of CD_REPLY "status_of (fs_exists os v n)"] by blast
  then show ?thesis using assms(1,4)
    by (auto simp: answers_def srv_cd_def c_string_request [OF assms(3)] fs_lookup_ok [OF assms(5)] cwd_set_def fd_ok_def intro!: exI [of _ k1])
qed

lemma srv_get_answers:
  assumes "v_socks v fd = Some k" and "all_sent k" and "0 \<notin> set n" and "n \<noteq> []"
    and "v_files v (os_resolve os (v_cwd v) n) = Some content" and "length content \<le> INT_MAX" and "length (os_junk os) = MAXBUF"
    and "\<not> os_stat_error os (os_resolve os (v_cwd v) n)"
  shows "answers srv_get os v fd (n @ [0]) id (avail (k_in k)) (post_wire GET_REPLY 1 [] @ post_wire FILE_DATA 0 (carried content))"
  using srv_get_sends_file [OF assms] assms(1) by (auto simp: answers_def)

lemma srv_get_unknown:
  assumes "v_socks v fd = Some k" and "all_sent k" and "0 \<notin> set n" and "\<not> fs_exists os v n"
    and "\<not> os_stat_error os (os_resolve os (v_cwd v) n)"
  shows "answers srv_get os v fd (n @ [0]) id (avail (k_in k)) (post_wire GET_REPLY 0 [])"
proof -
  obtain k1 where "reply v fd GET_REPLY [] 0 0 = Inr (0, v\<lparr>v_socks := (v_socks v)(fd \<mapsto> k1)\<rparr>)"
    "k_out k1 = k_out k @ post_wire GET_REPLY 0 []" "k_in k1 = k_in k" "all_sent k1"
    using reply_nodata [OF assms(1,2), of GET_REPLY 0] by blast
  then show ?thesis using assms(1,4)
    by (auto simp: answers_def srv_get_def c_string_request [OF assms(3)] fs_lookup_ok [OF assms(5)] status_of_def intro!: exI [of _ k1])
qed

lemma srv_put_answers:
  assumes "v_socks v fd = Some k" and "all_sent k" and "0 \<notin> set n" and "avail (k_in k) = post_wire FILE_DATA s d @ rest"
    and "length d \<le> MAXBUF" and "os_writable os (os_resolve os (v_cwd v) n)"
    and "os_resolve os (v_cwd v) n \<notin> set (v_dirs v)" and "length (os_junk os) = MAXBUF"
  shows "answers srv_put os v fd (n @ [0]) (\<lambda>v. v\<lparr>v_files := (v_files v)(os_resolve os (v_cwd v) n \<mapsto> d)\<rparr>)
    rest (post_wire PUT_REPLY 0 [])"
proof -
  have "decode_post (avail (k_in k)) = Some ((FILE_DATA, s, d), rest)"
    unfolding assms(4) by (rule decode_post_wire) (rule assms(5))
  from srv_put_stores_file [OF assms(1-3) this assms(5-8)] obtain k' where
    "srv_put os v fd (request_buf (n @ [0])) = Inr (0, v\<lparr>v_socks := (v_socks v)(fd \<mapsto> k'),
       v_files := (v_files v)(os_resolve os (v_cwd v) n \<mapsto> d)\<rparr>)"
    "k_out k' = k_out k @ post_wire PUT_REPLY 0 []" "avail (k_in k') = rest" "all_sent k'" by blast
  then show ?thesis using assms(1) by (auto simp: answers_def intro!: exI [of _ k'])
qed

lemma srv_sha_answers:
  assumes "v_socks v fd = Some k" and "all_sent k" and "0 \<notin> set n" and "fs_exists os v n"
    and "\<not> os_stat_error os (os_resolve os (v_cwd v) n)"
    and "os_shell os (v_files v) (v_cwd v) (cmd_sha256sum @ os_resolve os (v_cwd v) n) = Some (out, files)" and "length out < MAXBUF"
  shows "answers srv_sha os v fd (n @ [0]) (\<lambda>v. v\<lparr>v_files := files\<rparr>) (avail (k_in k)) (post_wire SHA_REPLY 1 [] @ post_wire FILE_DATA 0 (out @ [0]))"
proof -
  obtain k1 where k1: "reply v fd SHA_REPLY [] 0 1 = Inr (0, v\<lparr>v_socks := (v_socks v)(fd \<mapsto> k1)\<rparr>)"
    "k_out k1 = k_out k @ post_wire SHA_REPLY 1 []" "k_in k1 = k_in k" "all_sent k1"
    using reply_nodata [OF assms(1,2), of SHA_REPLY 1] by blast
  let ?v1 = "v\<lparr>v_socks := (v_socks v)(fd \<mapsto> k1), v_files := files\<rparr>"
  have s1: "v_socks ?v1 fd = Some k1" by simp
  obtain k2 where k2: "send_output ?v1 fd FILE_DATA (Some out) ''popen sha256sum error'' ''send file data error''
      = Inr (0, ?v1\<lparr>v_socks := (v_socks ?v1)(fd \<mapsto> k2)\<rparr>)"
    "k_out k2 = k_out k1 @ post_wire FILE_DATA 0 (out @ [0])" "k_in k2 = k_in k1" "all_sent k2"
    using send_output_all [OF s1 k1(4) assms(7), of FILE_DATA] by blast
  then show ?thesis using k1 assms(1,4,6)
    by (auto simp: answers_def srv_sha_def popen_def c_string_request [OF assms(3)] fs_lookup_ok [OF assms(5)] status_of_def
        intro!: exI [of _ k2])
qed

lemma srv_sha_unknown:
  assumes "v_socks v fd = Some k" and "all_sent k" and "0 \<notin> set n" and "\<not> fs_exists os v n"
    and "\<not> os_stat_error os (os_resolve os (v_cwd v) n)"
  shows "answers srv_sha os v fd (n @ [0]) id (avail (k_in k)) (post_wire SHA_REPLY 0 [])"
proof -
  obtain k1 where "reply v fd SHA_REPLY [] 0 0 = Inr (0, v\<lparr>v_socks := (v_socks v)(fd \<mapsto> k1)\<rparr>)"
    "k_out k1 = k_out k @ post_wire SHA_REPLY 0 []" "k_in k1 = k_in k" "all_sent k1"
    using reply_nodata [OF assms(1,2), of SHA_REPLY 0] by blast
  then show ?thesis using assms(1,4)
    by (auto simp: answers_def srv_sha_def c_string_request [OF assms(3)] fs_lookup_ok [OF assms(5)] status_of_def intro!: exI [of _ k1])
qed

section \<open>The server keeps the specification\<close>

text \<open>What the specification needs of the server's system: resolved paths are absolute, and a buffer has \<open>MAXBUF\<close> bytes.\<close>

definition os_ok :: "os \<Rightarrow> bool" where
  "os_ok os \<longleftrightarrow> length (os_junk os) = MAXBUF \<and> (\<forall>d n. os_resolve os d n \<noteq> [])
     \<and> (\<forall>d n p. os_resolve os p (os_resolve os d n) = os_resolve os d n)"

definition dir_ok :: "os \<Rightarrow> path list \<Rightarrow> path \<Rightarrow> bool" where
  "dir_ok os dirs d \<longleftrightarrow> d \<noteq> [] \<and> \<not> os_stat_error os d \<and> d \<in> set dirs \<and> (\<forall>p. os_resolve os p d = d)"

definition server_shows :: "os \<Rightarrow> path list \<Rightarrow> int \<Rightarrow> view \<Rightarrow> server \<Rightarrow> bool" where
  "server_shows oss dirs fd a v \<longleftrightarrow> server_wf oss v \<and> fd_ok v fd \<and> fd \<in> set (v_watch v) \<and> v_dirs v = dirs \<and> v_files v = remote_files a
     \<and> v_cwds v ! nat (fd2ind fd) = there a \<and> dir_ok oss dirs (there a)"

lemma server_shows_work_dir: "server_shows oss dirs fd a v \<Longrightarrow> work_dir oss v fd = Some (there a)"
  by (simp add: server_shows_def dir_ok_def work_dir_def fs_exists_def)

lemma serve_request_wf: "server_wf os v \<Longrightarrow> serve_request os v fd = Inr v' \<Longrightarrow> server_wf os v'"
  by (rule same_but_wf [OF returnsD [OF serve_request_same]])

text \<open>A server whose handler runs for the connection, and the change that a command makes to it.\<close>

definition at_work :: "os \<Rightarrow> path list \<Rightarrow> int \<Rightarrow> view \<Rightarrow> server \<Rightarrow> bool" where
  "at_work oss dirs fd a v \<longleftrightarrow> v_cwd v = there a \<and> v_files v = remote_files a \<and> v_dirs v = dirs \<and> fd_ok v fd
     \<and> v_cwds v ! nat (fd2ind fd) = there a"

definition becomes :: "int \<Rightarrow> view \<Rightarrow> server \<Rightarrow> server" where
  "becomes fd a v = v\<lparr>v_files := remote_files a, v_cwds := (v_cwds v)[nat (fd2ind fd) := there a]\<rparr>"

lemma at_work_cwds: "at_work oss dirs fd a v \<Longrightarrow> (v_cwds v)[nat (fd2ind fd) := there a] = v_cwds v"
  by (metis at_work_def list_update_id)

lemma becomes_same: "at_work oss dirs fd a v \<Longrightarrow> remote_files a' = remote_files a \<Longrightarrow> there a' = there a \<Longrightarrow> becomes fd a' v = v"
  by (simp add: becomes_def at_work_cwds) (simp add: at_work_def)

lemma becomes_files: "at_work oss dirs fd a v \<Longrightarrow> there a' = there a \<Longrightarrow> becomes fd a' v = v\<lparr>v_files := remote_files a'\<rparr>"
  by (simp add: becomes_def at_work_cwds)

lemma after_shell_simps [simp]:
  "there (after_shell oss a cmd) = there a" "here (after_shell oss a cmd) = here a"
  "local_files (after_shell oss a cmd) = local_files a" "shown (after_shell oss a cmd) = shown a"
  by (auto simp: after_shell_def split: option.splits)

lemma known_exists: "at_work oss dirs fd a v \<Longrightarrow> n \<noteq> [] \<Longrightarrow> fs_exists oss v n \<longleftrightarrow> known oss dirs a n"
  by (auto simp: at_work_def fs_exists_def known_def Let_def)

lemma answers_becomes: "answers f os v fd d upd rest out \<Longrightarrow> upd v = upd' v \<Longrightarrow> answers f os v fd d upd' rest out"
  by (simp add: answers_def)

lemma display_simps [simp]: "remote_files (display a t) = remote_files a" "there (display a t) = there a"
  "local_files (display a t) = local_files a" "here (display a t) = here a" "shown (display a t) = shown a @ t"
  by (simp_all add: display_def)

lemma dispatch_answers:
  assumes w: "at_work oss dirs fd a v" and k: "v_socks v fd = Some k" "all_sent k"
    and ok: "os_ok oss" "spec_ok oss osc dirs a cmd" and inp: "avail (k_in k) = upload osc a cmd @ rest"
  shows "answers (\<lambda>os v fd buf. dispatch os v fd buf (fst (request cmd))) oss v fd (snd (request cmd))
    (becomes fd (snd (spec_step oss osc dirs a cmd))) rest (answer oss dirs a cmd)"
proof (cases cmd)
  case Ls
  then obtain out files where out: "os_shell oss (v_files v) (v_cwd v) cmd_ls = Some (out, files)" "length out < MAXBUF"
    "shell_output oss a cmd_ls = out" "remote_files (after_shell oss a cmd_ls) = files"
    using ok(2) w by (auto simp: shell_ok_def shell_output_def after_shell_def at_work_def split: option.splits)
  show ?thesis using answers_becomes [OF srv_ls_answers [OF k out(1,2)], of "becomes fd (snd (spec_step oss osc dirs a cmd))"]
      becomes_files [OF w] Ls inp out(3,4) by simp
next
  case (Cd n)
  have n: "n \<noteq> []" "0 \<notin> set n" using ok(2) Cd by (simp_all add: name_ok_def)
  have "fd_ok v fd" "\<not> os_stat_error oss (os_resolve oss (v_cwd v) n)" using w ok(2) Cd by (simp_all add: at_work_def)
  from answers_becomes [OF srv_cd_answers [OF k n(2) this], of "becomes fd (snd (spec_step oss osc dirs a cmd))"]
  show ?thesis using Cd inp known_exists [OF w n(1)] becomes_same [OF w] w by (auto simp: becomes_def at_work_def)
next
  case (Get n)
  have n: "n \<noteq> []" "0 \<notin> set n" "\<not> os_stat_error oss (os_resolve oss (v_cwd v) n)"
    using w ok(2) Get by (simp_all add: name_ok_def at_work_def)
  show ?thesis
  proof (cases "remote_files a (os_resolve oss (there a) n)")
    case None
    then have "\<not> fs_exists oss v n" using known_exists [OF w n(1)] ok(2) Get by (simp add: known_def)
    from answers_becomes [OF srv_get_unknown [OF k n(2) this n(3)], of "becomes fd (snd (spec_step oss osc dirs a cmd))"]
    show ?thesis using Get None inp becomes_same [OF w] by simp
  next
    case (Some content)
    have f: "v_files v (os_resolve oss (v_cwd v) n) = Some content" "length content \<le> INT_MAX" "length (os_junk oss) = MAXBUF"
      using Some w ok Get by (simp_all add: at_work_def os_ok_def)
    from answers_becomes [OF srv_get_answers [OF k n(2,1) f n(3)], of "becomes fd (snd (spec_step oss osc dirs a cmd))"]
    show ?thesis using Get Some inp becomes_same [OF w] by simp
  qed
next
  case (Put n)
  have n: "0 \<notin> set n" using ok(2) Put by (simp add: name_ok_def)
  from ok(2) Put obtain content where content: "local_files a (os_resolve osc (here a) n) = Some content"
    by (auto split: option.splits)
  have f: "avail (k_in k) = post_wire FILE_DATA 0 (carried content) @ rest" "os_writable oss (os_resolve oss (v_cwd v) n)"
    "os_resolve oss (v_cwd v) n \<notin> set (v_dirs v)" "length (os_junk oss) = MAXBUF"
    using inp w ok Put content by (simp_all add: at_work_def os_ok_def)
  from answers_becomes [OF srv_put_answers [OF k n f(1) length_carried f(2-4)], of "becomes fd (snd (spec_step oss osc dirs a cmd))"]
  show ?thesis using Put content at_work_cwds [OF w] w by (simp add: becomes_def at_work_def)
next
  case (Sha n)
  have n: "n \<noteq> []" "0 \<notin> set n" "\<not> os_stat_error oss (os_resolve oss (v_cwd v) n)"
    using w ok(2) Sha by (simp_all add: name_ok_def at_work_def)
  show ?thesis
  proof (cases "known oss dirs a n")
    case False
    then have "\<not> fs_exists oss v n" using known_exists [OF w n(1)] by simp
    from answers_becomes [OF srv_sha_unknown [OF k n(2) this n(3)], of "becomes fd (snd (spec_step oss osc dirs a cmd))"]
    show ?thesis using Sha False inp becomes_same [OF w] by simp
  next
    case True
    then have ex: "fs_exists oss v n" using known_exists [OF w n(1)] by simp
    obtain out files where out: "os_shell oss (v_files v) (v_cwd v) (cmd_sha256sum @ os_resolve oss (v_cwd v) n) = Some (out, files)"
      "length out < MAXBUF" "shell_output oss a (sha_command oss a n) = out"
      "remote_files (after_shell oss a (sha_command oss a n)) = files"
      using ok(2) w True Sha
      by (auto simp: shell_ok_def shell_output_def after_shell_def sha_command_def at_work_def split: option.splits)
    from answers_becomes [OF srv_sha_answers [OF k n(2) ex n(3) out(1,2)], of "becomes fd (snd (spec_step oss osc dirs a cmd))"]
    show ?thesis using Sha True inp becomes_files [OF w] out(3,4) by simp
  qed
qed

lemma spec_step_dir_ok:
  assumes "dir_ok oss dirs (there a)" and "os_ok oss" and "spec_ok oss osc dirs a cmd"
  shows "dir_ok oss dirs (there (snd (spec_step oss osc dirs a cmd)))"
  using assms by (cases cmd) (auto simp: dir_ok_def os_ok_def known_def Let_def split: option.splits)

lemma request_short: "spec_ok oss osc dirs a cmd \<Longrightarrow> length (snd (request cmd)) < MAXBUF"
  by (cases cmd) (auto simp: name_ok_def MAXBUF_def)

lemma server_step:
  assumes sh: "server_shows oss dirs fd a v" and k: "v_socks v fd = Some k" "all_sent k"
    and ok: "os_ok oss" "spec_ok oss osc dirs a cmd" and inp: "avail (k_in k) = request_wire cmd @ upload osc a cmd @ rest"
  shows "\<exists>v' k'. serve_request oss v fd = Inr v' \<and> v_socks v' fd = Some k' \<and> k_out k' = k_out k @ answer oss dirs a cmd
    \<and> avail (k_in k') = rest \<and> all_sent k' \<and> server_shows oss dirs fd (snd (spec_step oss osc dirs a cmd)) v'"
proof -
  obtain t d where td: "request cmd = (t, d)" by (cases "request cmd")
  have d: "length d < MAXBUF" using request_short [OF ok(2)] td by simp
  have dec: "decode_post (avail (k_in k)) = Some ((t, 0, d), upload osc a cmd @ rest)"
    unfolding inp request_wire_def td prod.case by (rule decode_post_wire) (use d in simp)
  have fd: "fd_ok v fd" using sh by (simp add: server_shows_def)
  from serve_request_dispatch [OF k(1) dec d fd server_shows_work_dir [OF sh]] obtain st where
    st: "avail st = upload osc a cmd @ rest" "serve_request oss v fd = bind_res (dispatch oss
       (v\<lparr>v_socks := (v_socks v)(fd \<mapsto> k\<lparr>k_in := st\<rparr>), v_type := t, v_cwd := there a\<rparr>) fd (request_buf d) t)
       (\<lambda>(scode, v). Inr (back_home oss v))" by blast
  let ?v = "v\<lparr>v_socks := (v_socks v)(fd \<mapsto> k\<lparr>k_in := st\<rparr>), v_type := t, v_cwd := there a\<rparr>"
  let ?a = "snd (spec_step oss osc dirs a cmd)"
  have w: "at_work oss dirs fd a ?v" using sh by (simp add: at_work_def server_shows_def fd_ok_def)
  have "v_socks ?v fd = Some (k\<lparr>k_in := st\<rparr>)" "all_sent (k\<lparr>k_in := st\<rparr>)" "avail (k_in (k\<lparr>k_in := st\<rparr>)) = upload osc a cmd @ rest"
    using k(2) st(1) by (simp_all add: all_sent_def)
  note dispatch_answers [OF w this(1,2) ok this(3)]
  then obtain k' where k': "dispatch oss ?v fd (request_buf d) t = Inr (0, (becomes fd ?a ?v)\<lparr>v_socks := (v_socks ?v)(fd \<mapsto> k')\<rparr>)"
    "k_out k' = k_out k @ answer oss dirs a cmd" "avail (k_in k') = rest" "all_sent k'"
    using td by (auto simp: answers_def)
  let ?v' = "back_home oss ((becomes fd ?a ?v)\<lparr>v_socks := (v_socks ?v)(fd \<mapsto> k')\<rparr>)"
  have serve: "serve_request oss v fd = Inr ?v'" using st(2) k'(1) by simp
  have wf: "server_wf oss ?v'" by (rule serve_request_wf [OF _ serve]) (use sh in \<open>simp add: server_shows_def\<close>)
  have "dir_ok oss dirs (there a)" using sh by (simp add: server_shows_def)
  from spec_step_dir_ok [OF this ok] have "server_shows oss dirs fd ?a ?v'"
    using wf sh by (simp add: server_shows_def becomes_def fd_ok_def nat_less_iff)
  with serve k' show ?thesis by auto
qed

section \<open>The client keeps the specification\<close>

definition client_shows :: "view \<Rightarrow> client \<Rightarrow> bool" where
  "client_shows a c \<longleftrightarrow> c_connected c \<and> c_files c = local_files a \<and> c_cwd c = here a \<and> c_printed c = shown a"

lemma parseline_command:
  "parseline os c (command_line Ls) = cl_ls os c None"
  "parseline os c (command_line (Cd n)) = cl_cd os c (Some n)"
  "parseline os c (command_line (Get n)) = cl_get os c (Some n)"
  "parseline os c (command_line (Put n)) = cl_put os c (Some n)"
  "parseline os c (command_line (Sha n)) = cl_sha os c (Some n)"
  by (simp_all add: parseline_def cmdnames_def cmdfuncs_def bytes_of_def strncasecmp0_def to_lower_def)

lemma c_exchange:
  assumes "c_sock c = Some k" and "all_sent k" and "length d \<le> MAXBUF"
    and "avail (k_in k) = post_wire t' s' d' @ rest" and "length d' \<le> MAXBUF" and "length buf = MAXBUF"
  shows "\<exists>k1 k2. c_send c t d (int (length d)) = Inr (int (length d), c\<lparr>c_sock := Some k1\<rparr>)
    \<and> c_recv (c\<lparr>c_sock := Some k1\<rparr>) buf = Inr (int (length d'), d' @ drop (length d') buf,
         c\<lparr>c_sock := Some k2, c_type := t', c_status := s'\<rparr>)
    \<and> k_out k2 = k_out k @ post_wire t 0 d \<and> avail (k_in k2) = rest \<and> all_sent k2"
proof -
  obtain k1 where k1: "c_send c t d (int (length d)) = Inr (int (length d), c\<lparr>c_sock := Some k1\<rparr>)"
    "k_out k1 = k_out k @ post_wire t 0 d" "k_in k1 = k_in k" "all_sent k1"
    using c_send_request [OF assms(1-3), of t "[]"] by auto
  have "decode_post (avail (k_in k1)) = Some ((t', s', d'), rest)"
    unfolding k1(3) assms(4) by (rule decode_post_wire) (rule assms(5))
  moreover have "c_sock (c\<lparr>c_sock := Some k1\<rparr>) = Some k1" "length d' \<le> length buf" using assms(5,6) by simp_all
  ultimately obtain st where "c_recv (c\<lparr>c_sock := Some k1\<rparr>) buf = Inr (int (length d'), d' @ drop (length d') buf,
      c\<lparr>c_sock := Some (k1\<lparr>k_in := st\<rparr>), c_type := t', c_status := s'\<rparr>)" "avail st = rest"
    using c_recv_post [of "c\<lparr>c_sock := Some k1\<rparr>" k1 t' s' d' rest buf] by auto
  with k1 show ?thesis by (intro exI [of _ k1] exI [of _ "k1\<lparr>k_in := st\<rparr>"]) (simp add: all_sent_def)
qed

lemma c_string_printable: "c_string (out @ 0 # ys) = Inr (printable out)"
  by (induction out) (auto simp: c_string_def printable_def split: if_splits)

lemma c_exchange_name:
  assumes "c_sock c = Some k" and "all_sent k" and "length n + 1 < MAXBUF"
    and "avail (k_in k) = post_wire t' s' d' @ rest" and "length d' \<le> MAXBUF" and "length buf = MAXBUF"
  shows "\<exists>k1 k2. c_send c t (n @ [0]) (int (length n + 1)) = Inr (int (length n + 1), c\<lparr>c_sock := Some k1\<rparr>)
    \<and> c_recv (c\<lparr>c_sock := Some k1\<rparr>) buf = Inr (int (length d'), d' @ drop (length d') buf,
         c\<lparr>c_sock := Some k2, c_type := t', c_status := s'\<rparr>)
    \<and> k_out k2 = k_out k @ post_wire t 0 (n @ [0]) \<and> avail (k_in k2) = rest \<and> all_sent k2"
proof -
  have "length (n @ [0]) \<le> MAXBUF" using assms(3) by simp
  from c_exchange [OF assms(1,2) this assms(4-6), of t] show ?thesis by (simp add: add.commute)
qed

text \<open>\<open>runs f os c args k r c' out rest\<close>: the command returns \<open>r\<close>, the client is \<open>c'\<close> but for socket, type and status, and has sent
  \<open>out\<close> and left \<open>rest\<close> to be received.
\<close>

definition runs :: "command \<Rightarrow> os \<Rightarrow> client \<Rightarrow> u8 list option \<Rightarrow> sock \<Rightarrow> int \<Rightarrow> client \<Rightarrow> u8 list \<Rightarrow> u8 list \<Rightarrow> bool" where
  "runs f os c args k r c' out rest \<longleftrightarrow> (\<exists>k' t s. f os c args = Inr (r, c'\<lparr>c_sock := Some k', c_type := t, c_status := s\<rparr>)
     \<and> k_out k' = k_out k @ out \<and> avail (k_in k') = rest \<and> all_sent k')"

lemma runsI:
  "f os c args = Inr (r, c'\<lparr>c_sock := Some k', c_type := t, c_status := s\<rparr>) \<Longrightarrow> k_out k' = k_out k @ out \<Longrightarrow>
   avail (k_in k') = rest \<Longrightarrow> all_sent k' \<Longrightarrow> runs f os c args k r c' out rest"
  unfolding runs_def by blast

lemma c_say_upd [simp]:
  "(c_say c m)\<lparr>c_sock := k\<rparr> = c_say (c\<lparr>c_sock := k\<rparr>) m" "(c_say c m)\<lparr>c_type := t\<rparr> = c_say (c\<lparr>c_type := t\<rparr>) m"
  "(c_say c m)\<lparr>c_status := s\<rparr> = c_say (c\<lparr>c_status := s\<rparr>) m"
  by (simp_all add: c_say_def)

lemma cl_ls_runs:
  assumes "c_connected c" and k: "c_sock c = Some k" "all_sent k" and junk: "length (os_junk os) = MAXBUF"
    and "avail (k_in k) = post_wire LIST_REPLY 0 (out @ [0]) @ rest" and "length out < MAXBUF"
  shows "runs cl_ls os c args k 0 (c_say c (printable out)) (post_wire LIST_REQUEST 0 []) rest"
proof -
  have "length (out @ [0]) \<le> MAXBUF" using assms(6) by simp
  from c_exchange [OF k _ assms(5) this junk, of "[]" LIST_REQUEST] obtain k1 k2 where
    k12: "c_send c LIST_REQUEST [] 0 = Inr (0, c\<lparr>c_sock := Some k1\<rparr>)"
      "c_recv (c\<lparr>c_sock := Some k1\<rparr>) (os_junk os) = Inr (int (length (out @ [0])), (out @ [0]) @ drop (length (out @ [0])) (os_junk os),
         c\<lparr>c_sock := Some k2, c_type := LIST_REPLY, c_status := 0\<rparr>)"
      "k_out k2 = k_out k @ post_wire LIST_REQUEST 0 []" "avail (k_in k2) = rest" "all_sent k2" by auto
  show ?thesis
    by (rule runsI [where t = LIST_REPLY and s = 0, OF _ k12(3-5)])
       (use assms(1) k12(1,2) in \<open>simp add: cl_ls_def c_string_printable\<close>)
qed

lemma cl_cd_runs:
  assumes "c_connected c" and k: "c_sock c = Some k" "all_sent k" and junk: "length (os_junk os) = MAXBUF"
    and n: "length n + 1 < MAXBUF" and "avail (k_in k) = post_wire CD_REPLY (status_of b) [] @ rest"
  shows "runs cl_cd os c (Some n) k (if b then 0 else -1) (if b then c else c_say c (serror ''bad cd reply''))
    (post_wire CD_REQUEST 0 (n @ [0])) rest"
proof -
  from c_exchange_name [OF k n assms(6) _ junk, of CD_REQUEST] obtain k1 k2 where
    k12: "c_send c CD_REQUEST (n @ [0]) (int (length n + 1)) = Inr (int (length n + 1), c\<lparr>c_sock := Some k1\<rparr>)"
      "c_recv (c\<lparr>c_sock := Some k1\<rparr>) (os_junk os) = Inr (0, os_junk os,
         c\<lparr>c_sock := Some k2, c_type := CD_REPLY, c_status := status_of b\<rparr>)"
      "k_out k2 = k_out k @ post_wire CD_REQUEST 0 (n @ [0])" "avail (k_in k2) = rest" "all_sent k2" by auto
  show ?thesis
    by (rule runsI [where t = CD_REPLY and s = "status_of b", OF _ k12(3-5)])
       (use assms(1) k12(1,2) in \<open>simp add: cl_cd_def the_arg_def cl_error_def status_of_def\<close>)
qed

lemma cl_get_unknown:
  assumes "c_connected c" and k: "c_sock c = Some k" "all_sent k" and junk: "length (os_junk os) = MAXBUF"
    and n: "length n + 1 < MAXBUF" and "avail (k_in k) = post_wire GET_REPLY 0 [] @ rest"
  shows "runs cl_get os c (Some n) k (-1) (c_say c (serror ''bad get reply'')) (post_wire GET_REQUEST 0 (n @ [0])) rest"
proof -
  from c_exchange_name [OF k n assms(6) _ junk, of GET_REQUEST] obtain k1 k2 where
    k12: "c_send c GET_REQUEST (n @ [0]) (int (length n + 1)) = Inr (int (length n + 1), c\<lparr>c_sock := Some k1\<rparr>)"
      "c_recv (c\<lparr>c_sock := Some k1\<rparr>) (os_junk os) = Inr (0, os_junk os,
         c\<lparr>c_sock := Some k2, c_type := GET_REPLY, c_status := 0\<rparr>)"
      "k_out k2 = k_out k @ post_wire GET_REQUEST 0 (n @ [0])" "avail (k_in k2) = rest" "all_sent k2" by auto
  show ?thesis
    by (rule runsI [where t = GET_REPLY and s = 0, OF _ k12(3-5)])
       (use assms(1) k12(1,2) in \<open>simp add: cl_get_def the_arg_def cl_error_def\<close>)
qed

lemma cl_get_runs:
  assumes "c_connected c" and "c_sock c = Some k" "all_sent k" and "length (os_junk os) = MAXBUF" and "length n + 1 < MAXBUF"
    and "avail (k_in k) = (post_wire GET_REPLY 1 [] @ post_wire FILE_DATA 0 content) @ rest"
    and "length content \<le> MAXBUF" and "os_writable os (os_resolve os (c_cwd c) n)"
  shows "runs cl_get os c (Some n) k 0 (c\<lparr>c_files := (c_files c)(os_resolve os (c_cwd c) n \<mapsto> content)\<rparr>)
    (post_wire GET_REQUEST 0 (n @ [0])) rest"
proof -
  from cl_get_stores_file [OF assms(1-3) _ _ assms(7,4,8), of rest] assms(5,6) obtain k' where
    k': "cl_get os c (Some n) = Inr (0, c\<lparr>c_sock := Some k', c_type := FILE_DATA, c_status := 1,
       c_files := (c_files c)(os_resolve os (c_cwd c) n \<mapsto> content)\<rparr>)"
    "k_out k' = k_out k @ post_wire GET_REQUEST 0 (n @ [0])" "avail (k_in k') = rest" "all_sent k'" by auto
  show ?thesis by (rule runsI [where t = FILE_DATA and s = 1, OF _ k'(2-4)]) (simp add: k'(1))
qed

lemma cl_put_runs:
  assumes "c_connected c" and "c_sock c = Some k" "all_sent k" and "length (os_junk os) = MAXBUF" and "length n + 1 < MAXBUF"
    and "avail (k_in k) = post_wire PUT_REPLY 0 [] @ rest"
    and "c_files c (os_resolve os (c_cwd c) n) = Some content" and "length content \<le> INT_MAX"
  shows "runs cl_put os c (Some n) k 0 c (post_wire PUT_REQUEST 0 (n @ [0]) @ post_wire FILE_DATA 0 (carried content)) rest"
proof -
  from cl_put_sends_file [OF assms(1-3) _ assms(6-8,4)] assms(5) obtain k' where
    k': "cl_put os c (Some n) = Inr (0, c\<lparr>c_sock := Some k', c_type := PUT_REPLY, c_status := 0\<rparr>)"
    "k_out k' = k_out k @ post_wire PUT_REQUEST 0 (n @ [0]) @ post_wire FILE_DATA 0 (carried content)" "avail (k_in k') = rest"
    "all_sent k'" by auto
  show ?thesis by (rule runsI [where t = PUT_REPLY and s = 0, OF _ k'(2-4)]) (simp add: k'(1))
qed

lemma cl_sha_unknown:
  assumes "c_connected c" and k: "c_sock c = Some k" "all_sent k" and junk: "length (os_junk os) = MAXBUF"
    and n: "length n + 1 < MAXBUF" and "avail (k_in k) = post_wire SHA_REPLY 0 [] @ rest"
  shows "runs cl_sha os c (Some n) k (-1) (c_say c (serror ''bad sha256 reply'')) (post_wire SHA_REQUEST 0 (n @ [0])) rest"
proof -
  from c_exchange_name [OF k n assms(6) _ junk, of SHA_REQUEST] obtain k1 k2 where
    k12: "c_send c SHA_REQUEST (n @ [0]) (int (length n + 1)) = Inr (int (length n + 1), c\<lparr>c_sock := Some k1\<rparr>)"
      "c_recv (c\<lparr>c_sock := Some k1\<rparr>) (os_junk os) = Inr (0, os_junk os,
         c\<lparr>c_sock := Some k2, c_type := SHA_REPLY, c_status := 0\<rparr>)"
      "k_out k2 = k_out k @ post_wire SHA_REQUEST 0 (n @ [0])" "avail (k_in k2) = rest" "all_sent k2" by auto
  show ?thesis
    by (rule runsI [where t = SHA_REPLY and s = 0, OF _ k12(3-5)])
       (use assms(1) k12(1,2) in \<open>simp add: cl_sha_def the_arg_def cl_error_def\<close>)
qed

lemma cl_sha_runs:
  assumes "c_connected c" and k: "c_sock c = Some k" "all_sent k" and junk: "length (os_junk os) = MAXBUF"
    and n: "length n + 1 < MAXBUF"
    and "avail (k_in k) = (post_wire SHA_REPLY 1 [] @ post_wire FILE_DATA 0 (out @ [0])) @ rest" and "length out < MAXBUF"
  shows "runs cl_sha os c (Some n) k 0 (c_say c (printable out)) (post_wire SHA_REQUEST 0 (n @ [0])) rest"
proof -
  have av: "avail (k_in k) = post_wire SHA_REPLY 1 [] @ post_wire FILE_DATA 0 (out @ [0]) @ rest" using assms(6) by simp
  from c_exchange_name [OF k n av _ junk, of SHA_REQUEST] obtain k1 k2 where
    k12: "c_send c SHA_REQUEST (n @ [0]) (int (length n + 1)) = Inr (int (length n + 1), c\<lparr>c_sock := Some k1\<rparr>)"
      "c_recv (c\<lparr>c_sock := Some k1\<rparr>) (os_junk os) = Inr (0, os_junk os,
         c\<lparr>c_sock := Some k2, c_type := SHA_REPLY, c_status := 1\<rparr>)"
      "k_out k2 = k_out k @ post_wire SHA_REQUEST 0 (n @ [0])" "avail (k_in k2) = post_wire FILE_DATA 0 (out @ [0]) @ rest"
      "all_sent k2" by auto
  let ?c2 = "c\<lparr>c_sock := Some k2, c_type := SHA_REPLY, c_status := 1\<rparr>"
  have len: "length (out @ [0]) \<le> MAXBUF" using assms(7) by simp
  have "decode_post (avail (k_in k2)) = Some ((FILE_DATA, 0, out @ [0]), rest)"
    unfolding k12(4) by (rule decode_post_wire) (rule len)
  from c_recv_post [of ?c2, OF _ this, of "os_junk os"] len junk obtain st where
    st: "c_recv ?c2 (os_junk os) = Inr (int (length (out @ [0])), (out @ [0]) @ drop (length (out @ [0])) (os_junk os),
       ?c2\<lparr>c_sock := Some (k2\<lparr>k_in := st\<rparr>), c_type := FILE_DATA, c_status := 0\<rparr>)" "avail st = rest" by auto
  show ?thesis
    by (rule runsI [where t = FILE_DATA and s = 0 and k' = "k2\<lparr>k_in := st\<rparr>"])
       (use assms(1) k12 st in \<open>simp_all add: cl_sha_def the_arg_def c_string_printable all_sent_def\<close>)
qed

lemma client_step:
  assumes sh: "client_shows a c" and k: "c_sock c = Some k" "all_sent k" and junk: "length (os_junk osc) = MAXBUF"
    and ok: "spec_ok oss osc dirs a cmd" and inp: "avail (k_in k) = answer oss dirs a cmd @ rest"
  shows "\<exists>c' k'. parseline osc c (command_line cmd) = Inr (fst (spec_step oss osc dirs a cmd), c') \<and> c_sock c' = Some k'
    \<and> k_out k' = k_out k @ request_wire cmd @ upload osc a cmd \<and> avail (k_in k') = rest \<and> all_sent k'
    \<and> client_shows (snd (spec_step oss osc dirs a cmd)) c' \<and> c_prompt c' = c_prompt c \<and> c_running c' = c_running c"
proof -
  have con: "c_connected c" "c_files c = local_files a" "c_cwd c = here a" using sh by (simp_all add: client_shows_def)
  let ?s = "spec_step oss osc dirs a cmd"
  have fin: ?thesis if "runs f osc c args k r c' out rest" "parseline osc c (command_line cmd) = f osc c args"
    "out = request_wire cmd @ upload osc a cmd \<and> r = fst ?s \<and> client_shows (snd ?s) c' \<and> c_prompt c' = c_prompt c \<and> c_running c' = c_running c" for f args r c' out
    using that by (auto simp: runs_def client_shows_def)
  show ?thesis
  proof (cases cmd)
    case Ls
    obtain out where out: "shell_output oss a cmd_ls = out" "length out < MAXBUF"
      using ok Ls by (auto simp: shell_ok_def shell_output_def split: option.splits)
    then have inp': "avail (k_in k) = post_wire LIST_REPLY 0 (out @ [0]) @ rest" using inp Ls by simp
    show ?thesis
      by (rule fin [OF cl_ls_runs [OF con(1) k junk inp' out(2), of None]]) (simp_all only: Ls parseline_command,
        use Ls out(1) sh in \<open>auto simp: request_wire_def client_shows_def\<close>)
  next
    case (Cd n)
    have n: "length n + 1 < MAXBUF" using ok Cd by (simp add: name_ok_def)
    have inp': "avail (k_in k) = post_wire CD_REPLY (status_of (known oss dirs a n)) [] @ rest" using inp Cd by simp
    show ?thesis
      by (rule fin [OF cl_cd_runs [OF con(1) k junk n inp']]) (simp_all only: Cd parseline_command,
        use Cd sh in \<open>auto simp: request_wire_def client_shows_def\<close>)
  next
    case (Get n)
    have n: "length n + 1 < MAXBUF" using ok Get by (simp add: name_ok_def)
    show ?thesis
    proof (cases "remote_files a (os_resolve oss (there a) n)")
      case None
      then have inp': "avail (k_in k) = post_wire GET_REPLY 0 [] @ rest" using inp Get by simp
      show ?thesis
        by (rule fin [OF cl_get_unknown [OF con(1) k junk n inp']]) (simp_all only: Get parseline_command,
          use Get None sh in \<open>auto simp: request_wire_def client_shows_def\<close>)
    next
      case (Some content)
      then have f: "avail (k_in k) = (post_wire GET_REPLY 1 [] @ post_wire FILE_DATA 0 (carried content)) @ rest"
        "length (carried content) \<le> MAXBUF" "os_writable osc (os_resolve osc (c_cwd c) n)"
        using inp ok con Get length_carried by simp_all
      show ?thesis
        by (rule fin [OF cl_get_runs [OF con(1) k junk n f]]) (simp_all only: Get parseline_command,
          use Get Some sh in \<open>auto simp: request_wire_def client_shows_def\<close>)
    qed
  next
    case (Put n)
    have n: "length n + 1 < MAXBUF" using ok Put by (simp add: name_ok_def)
    from ok Put obtain content where content: "local_files a (os_resolve osc (here a) n) = Some content" "length content \<le> INT_MAX"
      by (auto split: option.splits)
    then have f: "avail (k_in k) = post_wire PUT_REPLY 0 [] @ rest" "c_files c (os_resolve osc (c_cwd c) n) = Some content"
      using inp con Put by simp_all
    show ?thesis
      by (rule fin [OF cl_put_runs [OF con(1) k junk n f content(2)]]) (simp_all only: Put parseline_command,
        use Put content sh in \<open>auto simp: request_wire_def client_shows_def\<close>)
  next
    case (Sha n)
    have n: "length n + 1 < MAXBUF" using ok Sha by (simp add: name_ok_def)
    show ?thesis
    proof (cases "known oss dirs a n")
      case False
      then have inp': "avail (k_in k) = post_wire SHA_REPLY 0 [] @ rest" using inp Sha by simp
      show ?thesis
        by (rule fin [OF cl_sha_unknown [OF con(1) k junk n inp']]) (simp_all only: Sha parseline_command,
          use Sha False sh in \<open>auto simp: request_wire_def client_shows_def\<close>)
    next
      case True
      obtain out where out: "shell_output oss a (sha_command oss a n) = out" "length out < MAXBUF"
        using ok Sha True by (auto simp: shell_ok_def shell_output_def split: option.splits)
      then have inp': "avail (k_in k) = (post_wire SHA_REPLY 1 [] @ post_wire FILE_DATA 0 (out @ [0])) @ rest" using inp Sha True by simp
      show ?thesis
        by (rule fin [OF cl_sha_runs [OF con(1) k junk n inp' out(2)]]) (simp_all only: Sha parseline_command,
          use Sha True out(1) sh in \<open>auto simp: request_wire_def client_shows_def\<close>)
    qed
  qed
qed

end
