(* ===== verification/Ftp_Refine.thy ===== *)
theory Ftp_Refine
  imports Ftp_Spec
begin

text \<open>
  Client and server together. An exchange is a command at the prompt and the request that the server serves for it, where
  each side receives, in some segmentation, exactly what the other one sends. Every exchange, and every session of them,
  has the result of the specification.
\<close>

section \<open>Exchanges and sessions\<close>

inductive exchange :: "os \<Rightarrow> os \<Rightarrow> int \<Rightarrow> server \<times> client \<Rightarrow> u8 list \<Rightarrow> int \<Rightarrow> server \<times> client \<Rightarrow> bool" for oss osc fd where
  exchangeI: "v_socks v fd = Some ks \<Longrightarrow> c_sock c = Some kc \<Longrightarrow>
    serve_request oss (v\<lparr>v_socks := (v_socks v)(fd \<mapsto> ks\<lparr>k_in := sts\<rparr>)\<rparr>) fd = Inr v' \<Longrightarrow>
    parseline osc (c\<lparr>c_sock := Some (kc\<lparr>k_in := stc\<rparr>)\<rparr>) line = Inr (r, c') \<Longrightarrow>
    v_socks v' fd = Some ks' \<Longrightarrow> c_sock c' = Some kc' \<Longrightarrow>
    k_out ks' = k_out ks @ avail stc \<Longrightarrow> k_out kc' = k_out kc @ avail sts \<Longrightarrow>
    exchange oss osc fd (v, c) line r (v', c')"

inductive session :: "os \<Rightarrow> os \<Rightarrow> int \<Rightarrow> server \<times> client \<Rightarrow> u8 list list \<Rightarrow> int list \<Rightarrow> server \<times> client \<Rightarrow> bool" for oss osc fd where
  session_over: "session oss osc fd s [] [] s"
| session_goes_on: "exchange oss osc fd s line r s' \<Longrightarrow> session oss osc fd s' lines rs s'' \<Longrightarrow>
    session oss osc fd s (line # lines) (r # rs) s''"

inductive_cases exchangeE: "exchange oss osc fd (v, c) line r s"
inductive_cases session_NilE: "session oss osc fd s [] rs s'"
inductive_cases session_ConsE: "session oss osc fd s (line # lines) rs s'"

text \<open>Client and server in the state that the user sees, with nothing under way between them.\<close>

definition linked :: "os \<Rightarrow> path list \<Rightarrow> int \<Rightarrow> view \<Rightarrow> server \<times> client \<Rightarrow> bool" where
  "linked oss dirs fd a s \<longleftrightarrow> server_shows oss dirs fd a (fst s) \<and> client_shows a (snd s)
     \<and> (\<exists>ks kc. v_socks (fst s) fd = Some ks \<and> c_sock (snd s) = Some kc \<and> all_sent ks \<and> all_sent kc
          \<and> avail (k_in ks) = [] \<and> avail (k_in kc) = [])"

section \<open>What is sent whatever arrives\<close>

lemma ssend_loop_grows:
  "\<exists>y. k_out k = base @ y \<Longrightarrow> returns (\<lambda>(r, msg, k'). \<exists>y. k_out k' = base @ y) (ssend_loop k buf n ret)"
proof (induction "n - ret" arbitrary: k ret rule: less_induct)
  case less
  have "returns (\<lambda>(b, k'). \<exists>y. k_out k' = base @ y) (send_call k)"
    using less.prems by (auto simp: send_call_def intro!: returns_bind [OF returns_True])
  moreover have "returns (\<lambda>(r, msg, k'). \<exists>y. k_out k' = base @ y) (ssend_loop k' buf n (ret + min (nat b) (n - ret)))"
    if "ret < n" "b \<noteq> 0" "\<not> b < 0" "\<exists>y. k_out k' = base @ y" for b k'
    using that by (intro less.hyps) auto
  ultimately show ?case using less.prems
    by (subst ssend_loop.simps) (auto simp: Let_def intro!: returns_bind [OF returns_True] elim!: returns_bind)
qed

lemma srecv_loop_out: "returns (\<lambda>(r, msg, buf', k'). k_out k' = k_out k) (srecv_loop k buf n ret)"
proof (induction "n - ret" arbitrary: k buf ret rule: less_induct)
  case less
  have "returns (\<lambda>(r, msg, buf'', k'). k_out k' = k_out k) (srecv_loop (k\<lparr>k_in := st\<rparr>) buf' n (ret + nat b))"
    if "ret < n" "b \<noteq> 0" "\<not> b < 0" for st b buf'
    using less.hyps [of "ret + nat b" "k\<lparr>k_in := st\<rparr>" buf'] that by simp
  then show ?case
    by (subst srecv_loop.simps)
       (auto split: prod.splits intro!: returns_bind [OF returns_True])
qed

lemma send_post_grows:
  "\<exists>y. k_out k = base @ y \<Longrightarrow> returns (\<lambda>(r, msg, k'). \<exists>y. k_out k' = base @ y) (send_post k t buf len s)"
  unfolding send_post_def Let_def ssend_def
  by (rule returns_bind [OF ssend_loop_grows], assumption)
     (auto intro!: returns_bind [OF ssend_loop_grows])

lemma recv_post_out: "returns (\<lambda>r. k_out (p_sock r) = k_out k) (recv_post k buf t s)"
  unfolding recv_post_def Let_def srecv_def
  by (rule returns_bind [OF srecv_loop_out]) (auto intro!: returns_bind [OF srecv_loop_out])

definition grown :: "u8 list \<Rightarrow> client \<Rightarrow> bool" where
  "grown base c \<longleftrightarrow> (\<exists>k y. c_sock c = Some k \<and> k_out k = base @ y)"

lemma grown_simps [simp]: "grown base (c_say c m) = grown base c" "grown base (c\<lparr>c_files := f\<rparr>) = grown base c"
  "grown base (c\<lparr>c_status := s\<rparr>) = grown base c"
  by (simp_all add: grown_def)

lemma cl_error_grown [simp]: "returns (\<lambda>(r, c'). grown base c') (cl_error c msg) = grown base c"
  by (simp add: cl_error_def)

lemma c_send_grown: "grown base c \<Longrightarrow> returns (\<lambda>(r, c'). grown base c') (c_send c t buf len)"
  by (auto simp: grown_def c_send_def intro!: returns_bind [OF send_post_grows])

lemma c_recv_grown: "grown base c \<Longrightarrow> returns (\<lambda>(len, buf, c'). grown base c') (c_recv c buf)"
  by (auto simp: grown_def c_recv_def intro!: returns_bind [OF recv_post_out])

lemma c_recv_data_grown: "grown base c \<Longrightarrow> returns (\<lambda>(len, buf, c'). grown base c') (c_recv_data c buf)"
  unfolding c_recv_data_def by (rule returns_bind [OF c_recv_grown]) auto

lemmas client_grown =
  returns_bind [OF c_recv_grown] returns_bind [OF c_recv_data_grown] returns_bind [OF c_send_grown]
  returns_bind [OF returns_True [of "ftp_read_file f buf n" for f buf n]]
  returns_bind [OF returns_True [of "ftp_write_file ok buf n" for ok buf n]]
  returns_bind [OF returns_True [of "c_string buf" for buf]]

lemma command_sends_request:
  assumes con: "c_connected c" and k: "c_sock c = Some k" "all_sent k" and ok: "spec_ok oss osc dirs a cmd"
  shows "returns (\<lambda>(r, c'). grown (k_out k @ request_wire cmd) c') (parseline osc c (command_line cmd))"
proof -
  have name: "\<exists>c1. c_send c t (n @ [0]) (int (length n + 1)) = Inr (int (length n + 1), c1)
      \<and> grown (k_out k @ post_wire t 0 (n @ [0])) c1" if "name_ok n" for t n
    using c_send_name [OF k, of n t] that by (auto simp: name_ok_def grown_def)
  have none: "\<exists>c1. c_send c t [] 0 = Inr (0, c1) \<and> grown (k_out k @ post_wire t 0 []) c1" for t
    using c_send_request [OF k, of "[]" t "[]"] by (auto simp: grown_def)
  show ?thesis
  proof (cases cmd)
    case Ls
    obtain c1 where "c_send c LIST_REQUEST [] 0 = Inr (0, c1)" "grown (k_out k @ request_wire cmd) c1"
      using none [of LIST_REQUEST] Ls by (auto simp: request_wire_def)
    then show ?thesis using con
      by (simp only: Ls parseline_command) (auto simp: cl_ls_def intro!: client_grown)
  next
    case (Cd n)
    obtain c1 where "c_send c CD_REQUEST (n @ [0]) (int (length n + 1)) = Inr (int (length n + 1), c1)"
      "grown (k_out k @ request_wire cmd) c1" using name [of n CD_REQUEST] ok Cd by (auto simp: request_wire_def)
    then show ?thesis using con
      by (simp only: Cd parseline_command) (auto simp: cl_cd_def the_arg_def intro!: client_grown)
  next
    case (Get n)
    obtain c1 where "c_send c GET_REQUEST (n @ [0]) (int (length n + 1)) = Inr (int (length n + 1), c1)"
      "grown (k_out k @ request_wire cmd) c1" using name [of n GET_REQUEST] ok Get by (auto simp: request_wire_def)
    then show ?thesis using con
      by (simp only: Get parseline_command) (auto simp: cl_get_def the_arg_def Let_def intro!: client_grown)
  next
    case (Put n)
    obtain c1 where "c_send c PUT_REQUEST (n @ [0]) (int (length n + 1)) = Inr (int (length n + 1), c1)"
      "grown (k_out k @ request_wire cmd) c1" using name [of n PUT_REQUEST] ok Put by (auto simp: request_wire_def)
    then show ?thesis using con
      by (simp only: Put parseline_command) (auto simp: cl_put_def the_arg_def intro!: client_grown)
  next
    case (Sha n)
    obtain c1 where "c_send c SHA_REQUEST (n @ [0]) (int (length n + 1)) = Inr (int (length n + 1), c1)"
      "grown (k_out k @ request_wire cmd) c1" using name [of n SHA_REQUEST] ok Sha by (auto simp: request_wire_def)
    then show ?thesis using con
      by (simp only: Sha parseline_command) (auto simp: cl_sha_def the_arg_def intro!: client_grown)
  qed
qed

definition replied :: "int \<Rightarrow> u8 list \<Rightarrow> server \<Rightarrow> bool" where
  "replied fd out v \<longleftrightarrow> (\<exists>k. v_socks v fd = Some k \<and> k_out k = out)"

lemma replied_simps [simp]: "replied fd out (tell v m) = replied fd out v" "replied fd out (back_home os v) = replied fd out v"
  "replied fd out (v\<lparr>v_files := f\<rparr>) = replied fd out v"
  by (simp_all add: replied_def)

lemma srv_error_replied [simp]: "returns (\<lambda>(s, v'). replied fd out v') (srv_error v m) = replied fd out v"
  by (simp add: srv_error_def)

lemma receive_replied: "replied fd out v \<Longrightarrow> returns (\<lambda>(len, buf, t, v'). replied fd out v') (receive v fd buf)"
  by (auto simp: replied_def receive_def intro!: returns_bind [OF recv_post_out])

lemma srv_put_replied:
  assumes "v_socks v fd = Some k" and "all_sent k"
  shows "returns (\<lambda>(s, v'). replied fd (k_out k @ post_wire PUT_REPLY 0 []) v') (srv_put os v fd args)"
proof -
  obtain k1 where "reply v fd PUT_REPLY [] 0 0 = Inr (0, v\<lparr>v_socks := (v_socks v)(fd \<mapsto> k1)\<rparr>)"
    "k_out k1 = k_out k @ post_wire PUT_REPLY 0 []"
    using reply_nodata [OF assms, of PUT_REPLY 0] by blast
  moreover from this have "replied fd (k_out k @ post_wire PUT_REPLY 0 []) (v\<lparr>v_socks := (v_socks v)(fd \<mapsto> k1)\<rparr>)"
    by (simp add: replied_def)
  ultimately show ?thesis
    by (auto simp: srv_put_def Let_def intro!: returns_bind [OF receive_replied] any_file)
qed

lemma serve_put_replied:
  assumes sh: "server_shows oss dirs fd a v" and k: "v_socks v fd = Some k" "all_sent k"
    and n: "name_ok n" and inp: "avail (k_in k) = request_wire (Put n) @ y"
  shows "returns (replied fd (k_out k @ post_wire PUT_REPLY 0 [])) (serve_request oss v fd)"
proof -
  have "length (n @ [0]) < MAXBUF" using n by (simp add: name_ok_def)
  moreover have "decode_post (avail (k_in k)) = Some ((PUT_REQUEST, 0, n @ [0]), y)"
    unfolding inp request_wire_def request.simps prod.case by (rule decode_post_wire) (use n in \<open>simp add: name_ok_def\<close>)
  moreover have "fd_ok v fd" using sh by (simp add: server_shows_def)
  ultimately obtain st where st: "serve_request oss v fd = bind_res (dispatch oss
       (v\<lparr>v_socks := (v_socks v)(fd \<mapsto> k\<lparr>k_in := st\<rparr>), v_type := PUT_REQUEST, v_cwd := there a\<rparr>) fd (request_buf (n @ [0])) PUT_REQUEST)
       (\<lambda>(scode, v). Inr (back_home oss v))"
    using serve_request_dispatch [OF k(1) _ _ _ server_shows_work_dir [OF sh]] by blast
  let ?v = "v\<lparr>v_socks := (v_socks v)(fd \<mapsto> k\<lparr>k_in := st\<rparr>), v_type := PUT_REQUEST, v_cwd := there a\<rparr>"
  have "v_socks ?v fd = Some (k\<lparr>k_in := st\<rparr>)" "all_sent (k\<lparr>k_in := st\<rparr>)" using k(2) by (simp_all add: all_sent_def)
  from srv_put_replied [OF this, of oss "request_buf (n @ [0])"]
  have put: "returns (\<lambda>(s, v'). replied fd (k_out k @ post_wire PUT_REPLY 0 []) v')
      (dispatch oss ?v fd (request_buf (n @ [0])) PUT_REQUEST)" by simp
  show ?thesis unfolding st by (rule returns_bind [OF put]) auto
qed

section \<open>Refinement\<close>

lemma server_shows_sock [simp]:
  "server_shows oss dirs fd a v \<Longrightarrow> v_socks v fd \<noteq> None \<Longrightarrow> server_shows oss dirs fd a (v\<lparr>v_socks := (v_socks v)(fd := Some k)\<rparr>)"
  by (auto simp: server_shows_def server_wf_def watched_def fd_ok_def)

lemma client_shows_sock [simp]: "client_shows a (c\<lparr>c_sock := k\<rparr>) = client_shows a c"
  by (simp add: client_shows_def)

text \<open>What both sides send in an exchange is what the specification says, although each depends on the other.\<close>

lemma exchange_posts:
  assumes l: "linked oss dirs fd a (v, c)" and ok: "os_ok oss" "length (os_junk osc) = MAXBUF" "spec_ok oss osc dirs a cmd"
    and ks: "v_socks v fd = Some ks" and kc: "c_sock c = Some kc"
    and srv: "serve_request oss (v\<lparr>v_socks := (v_socks v)(fd \<mapsto> ks\<lparr>k_in := sts\<rparr>)\<rparr>) fd = Inr v'"
    and cl: "parseline osc (c\<lparr>c_sock := Some (kc\<lparr>k_in := stc\<rparr>)\<rparr>) (command_line cmd) = Inr (r, c')"
    and ks': "v_socks v' fd = Some ks'" "k_out ks' = k_out ks @ avail stc"
    and kc': "c_sock c' = Some kc'" "k_out kc' = k_out kc @ avail sts"
  shows "avail stc = answer oss dirs a cmd \<and> avail sts = request_wire cmd @ upload osc a cmd"
proof -
  let ?v = "v\<lparr>v_socks := (v_socks v)(fd \<mapsto> ks\<lparr>k_in := sts\<rparr>)\<rparr>" and ?c = "c\<lparr>c_sock := Some (kc\<lparr>k_in := stc\<rparr>)\<rparr>"
  have sh: "server_shows oss dirs fd a ?v" "client_shows a ?c" and con: "c_connected ?c"
    and all: "all_sent (ks\<lparr>k_in := sts\<rparr>)" "all_sent (kc\<lparr>k_in := stc\<rparr>)"
    using l ks kc by (auto simp: linked_def all_sent_def client_shows_def)
  have socks: "v_socks ?v fd = Some (ks\<lparr>k_in := sts\<rparr>)" "c_sock ?c = Some (kc\<lparr>k_in := stc\<rparr>)" by simp_all
  from returnsD [OF command_sends_request [OF con socks(2) all(2) ok(3)] cl] kc' obtain y where
    y: "avail sts = request_wire cmd @ y" by (auto simp: grown_def)
  have down: "avail stc = answer oss dirs a cmd"
  proof (cases "\<exists>n. cmd = Put n")
    case True
    then obtain n where cmd: "cmd = Put n" by blast
    then have n: "name_ok n" using ok(3) by simp
    have "avail (k_in (ks\<lparr>k_in := sts\<rparr>)) = request_wire (Put n) @ y" using y cmd by simp
    from returnsD [OF serve_put_replied [OF sh(1) socks(1) all(1) n this] srv] ks' cmd show ?thesis
      by (auto simp: replied_def)
  next
    case False
    then have "upload osc a cmd = []" by (cases cmd) auto
    then have "avail (k_in (ks\<lparr>k_in := sts\<rparr>)) = request_wire cmd @ upload osc a cmd @ y" using y by simp
    from server_step [OF sh(1) socks(1) all(1) ok(1,3) this] srv ks' show ?thesis by auto
  qed
  have "avail (k_in (kc\<lparr>k_in := stc\<rparr>)) = answer oss dirs a cmd @ []" using down by simp
  from client_step [OF sh(2) socks(2) all(2) ok(2,3) this] cl kc' have "avail sts = request_wire cmd @ upload osc a cmd" by auto
  with down show ?thesis by blast
qed

lemma exchange_results:
  assumes l: "linked oss dirs fd a (v, c)" and ok: "os_ok oss" "length (os_junk osc) = MAXBUF" "spec_ok oss osc dirs a cmd"
    and ks: "v_socks v fd = Some ks" and kc: "c_sock c = Some kc"
    and inp: "avail stc = answer oss dirs a cmd" "avail sts = request_wire cmd @ upload osc a cmd"
  shows "\<exists>v' c' ks' kc'. serve_request oss (v\<lparr>v_socks := (v_socks v)(fd \<mapsto> ks\<lparr>k_in := sts\<rparr>)\<rparr>) fd = Inr v'
    \<and> parseline osc (c\<lparr>c_sock := Some (kc\<lparr>k_in := stc\<rparr>)\<rparr>) (command_line cmd) = Inr (fst (spec_step oss osc dirs a cmd), c')
    \<and> v_socks v' fd = Some ks' \<and> c_sock c' = Some kc' \<and> k_out ks' = k_out ks @ avail stc \<and> k_out kc' = k_out kc @ avail sts
    \<and> linked oss dirs fd (snd (spec_step oss osc dirs a cmd)) (v', c')"
proof -
  let ?v = "v\<lparr>v_socks := (v_socks v)(fd \<mapsto> ks\<lparr>k_in := sts\<rparr>)\<rparr>" and ?c = "c\<lparr>c_sock := Some (kc\<lparr>k_in := stc\<rparr>)\<rparr>"
  have sh: "server_shows oss dirs fd a ?v" "client_shows a ?c"
    and all: "all_sent (ks\<lparr>k_in := sts\<rparr>)" "all_sent (kc\<lparr>k_in := stc\<rparr>)"
    using l ks kc by (auto simp: linked_def all_sent_def)
  have socks: "v_socks ?v fd = Some (ks\<lparr>k_in := sts\<rparr>)" "c_sock ?c = Some (kc\<lparr>k_in := stc\<rparr>)" by simp_all
  have "avail (k_in (ks\<lparr>k_in := sts\<rparr>)) = request_wire cmd @ upload osc a cmd @ []" using inp by simp
  from server_step [OF sh(1) socks(1) all(1) ok(1,3) this] obtain v' ks' where
    v': "serve_request oss ?v fd = Inr v'" "v_socks v' fd = Some ks'" "k_out ks' = k_out ks @ avail stc" "avail (k_in ks') = []"
      "all_sent ks'" "server_shows oss dirs fd (snd (spec_step oss osc dirs a cmd)) v'" using inp(1) by auto
  have "avail (k_in (kc\<lparr>k_in := stc\<rparr>)) = answer oss dirs a cmd @ []" using inp by simp
  from client_step [OF sh(2) socks(2) all(2) ok(2,3) this] obtain c' kc' where
    c': "parseline osc ?c (command_line cmd) = Inr (fst (spec_step oss osc dirs a cmd), c')" "c_sock c' = Some kc'"
      "k_out kc' = k_out kc @ avail sts" "avail (k_in kc') = []" "all_sent kc'"
      "client_shows (snd (spec_step oss osc dirs a cmd)) c'" using inp(2) by auto
  show ?thesis using v' c' by (auto simp: linked_def)
qed

lemma exchange_refines:
  assumes "linked oss dirs fd a s" and "os_ok oss" "length (os_junk osc) = MAXBUF" "spec_ok oss osc dirs a cmd"
    and "exchange oss osc fd s (command_line cmd) r s'"
  shows "r = fst (spec_step oss osc dirs a cmd) \<and> linked oss dirs fd (snd (spec_step oss osc dirs a cmd)) s'"
proof -
  obtain v c where s: "s = (v, c)" by (cases s)
  note l = assms(1) [unfolded s]
  from assms(5) [unfolded s] obtain ks kc sts v' stc c' ks' kc' where
    e: "v_socks v fd = Some ks" "c_sock c = Some kc"
      "serve_request oss (v\<lparr>v_socks := (v_socks v)(fd \<mapsto> ks\<lparr>k_in := sts\<rparr>)\<rparr>) fd = Inr v'"
      "parseline osc (c\<lparr>c_sock := Some (kc\<lparr>k_in := stc\<rparr>)\<rparr>) (command_line cmd) = Inr (r, c')"
      "v_socks v' fd = Some ks'" "k_out ks' = k_out ks @ avail stc" "c_sock c' = Some kc'" "k_out kc' = k_out kc @ avail sts"
      "s' = (v', c')"
    by (auto elim: exchangeE)
  from exchange_posts [OF l assms(2-4) e(1-8)]
  have posts: "avail stc = answer oss dirs a cmd" "avail sts = request_wire cmd @ upload osc a cmd" by blast+
  from exchange_results [OF l assms(2-4) e(1,2) posts] e show ?thesis by auto
qed

lemma exchange_exists:
  assumes "linked oss dirs fd a s" and "os_ok oss" "length (os_junk osc) = MAXBUF" "spec_ok oss osc dirs a cmd"
  shows "\<exists>s'. exchange oss osc fd s (command_line cmd) (fst (spec_step oss osc dirs a cmd)) s'
    \<and> linked oss dirs fd (snd (spec_step oss osc dirs a cmd)) s'"
proof -
  obtain v c where s: "s = (v, c)" by (cases s)
  note l = assms(1) [unfolded s]
  obtain ks kc where k: "v_socks v fd = Some ks" "c_sock c = Some kc" using l by (auto simp: linked_def)
  have "avail [Seg (answer oss dirs a cmd)] = answer oss dirs a cmd"
    "avail [Seg (request_wire cmd @ upload osc a cmd)] = request_wire cmd @ upload osc a cmd" by simp_all
  from exchange_results [OF l assms(2-4) k this] show ?thesis unfolding s using k by (blast intro: exchangeI)
qed

lemma session_refines:
  assumes "os_ok oss" and "length (os_junk osc) = MAXBUF"
  shows "linked oss dirs fd a s \<Longrightarrow> run_ok oss osc dirs a cmds \<Longrightarrow> session oss osc fd s (map command_line cmds) rs s' \<Longrightarrow>
    rs = fst (spec_run oss osc dirs a cmds) \<and> linked oss dirs fd (snd (spec_run oss osc dirs a cmds)) s'"
proof (induction cmds arbitrary: a s rs)
  case Nil
  then show ?case by (auto elim: session_NilE)
next
  case (Cons cmd cmds)
  from Cons.prems(3) obtain r rs' s1 where
    e: "exchange oss osc fd s (command_line cmd) r s1" "session oss osc fd s1 (map command_line cmds) rs' s'" "rs = r # rs'"
    by (auto elim: session_ConsE)
  have ok: "spec_ok oss osc dirs a cmd" "run_ok oss osc dirs (snd (spec_step oss osc dirs a cmd)) cmds"
    using Cons.prems(2) by simp_all
  note step = exchange_refines [OF Cons.prems(1) assms ok(1) e(1)]
  with Cons.IH [OF _ ok(2) e(2)] e(3) show ?case by (simp add: split_beta)
qed

lemma session_exists:
  assumes "os_ok oss" and "length (os_junk osc) = MAXBUF"
  shows "linked oss dirs fd a s \<Longrightarrow> run_ok oss osc dirs a cmds \<Longrightarrow>
    \<exists>s'. session oss osc fd s (map command_line cmds) (fst (spec_run oss osc dirs a cmds)) s'"
proof (induction cmds arbitrary: a s)
  case (Cons cmd cmds)
  have ok: "spec_ok oss osc dirs a cmd" "run_ok oss osc dirs (snd (spec_step oss osc dirs a cmd)) cmds"
    using Cons.prems(2) by simp_all
  from exchange_exists [OF Cons.prems(1) assms ok(1)] obtain s1 where
    s1: "exchange oss osc fd s (command_line cmd) (fst (spec_step oss osc dirs a cmd)) s1"
      "linked oss dirs fd (snd (spec_step oss osc dirs a cmd)) s1" by blast
  from Cons.IH [OF s1(2) ok(2)] s1(1) show ?case
    by (auto simp: split_beta intro: session_goes_on)
qed (auto intro: session_over)

section \<open>Opening and closing\<close>

definition open_line :: "u8 list \<Rightarrow> u8 list \<Rightarrow> u8 list" where
  "open_line ip port = bytes_of ''open '' @ ip @ [32] @ port"

definition open_prompt :: "u8 list \<Rightarrow> u8 list \<Rightarrow> u8 list" where
  "open_prompt ip port =
     bytes_of ''Client('' @ ip @ bytes_of '':'' @ bytes_of (show_int (atoi (string_of port))) @ bytes_of '')>''"

definition opened :: "server \<Rightarrow> client \<Rightarrow> view" where
  "opened v c = \<lparr>local_files = c_files c, remote_files = v_files v, here = c_cwd c, there = v_dft v,
     shown = c_printed c @ bytes_of ''connection established'' @ [10]\<rparr>"

lemma srv_open_answers:
  assumes "v_socks v fd = Some k" and "all_sent k" and "fd_ok v fd"
  shows "answers srv_open os v fd d (\<lambda>v. v\<lparr>v_cwds := (v_cwds v)[nat (fd2ind fd) := v_dft v]\<rparr>) (avail (k_in k))
    (post_wire OPEN_REPLY 1 [])"
proof -
  obtain k1 where "reply v fd OPEN_REPLY [] 0 1 = Inr (0, v\<lparr>v_socks := (v_socks v)(fd \<mapsto> k1)\<rparr>)"
    "k_out k1 = k_out k @ post_wire OPEN_REPLY 1 []" "k_in k1 = k_in k" "all_sent k1"
    using reply_nodata [OF assms(1,2), of OPEN_REPLY 1] by blast
  then show ?thesis using assms(1,3)
    by (auto simp: answers_def srv_open_def cwd_set_def fd_ok_def intro!: exI [of _ k1])
qed

lemma serve_open:
  assumes wf: "server_wf oss v" "fd_ok v fd" "v_dft v \<noteq> []" "fd \<in> set (v_watch v)" "\<not> os_stat_error oss (v_dft v)"
    and k: "v_socks v fd = Some k" "all_sent k"
    and w: "work_dir oss v fd = Some w" and inp: "avail (k_in k) = post_wire OPEN_REQUEST 0 [] @ rest"
  shows "\<exists>v' k'. serve_request oss v fd = Inr v' \<and> v_socks v' fd = Some k' \<and> k_out k' = k_out k @ post_wire OPEN_REPLY 1 []
    \<and> avail (k_in k') = rest \<and> all_sent k' \<and> server_shows oss (v_dirs v) fd (opened v c) v'"
proof -
  have dec: "decode_post (avail (k_in k)) = Some ((OPEN_REQUEST, 0, []), rest)"
    unfolding inp by (rule decode_post_wire) simp
  from serve_request_dispatch [OF k(1) dec _ wf(2) w] obtain st where
    st: "avail st = rest" "serve_request oss v fd = bind_res (srv_open oss
       (v\<lparr>v_socks := (v_socks v)(fd \<mapsto> k\<lparr>k_in := st\<rparr>), v_type := OPEN_REQUEST, v_cwd := w\<rparr>) fd (request_buf []))
       (\<lambda>(scode, v). Inr (back_home oss v))" by (auto simp: MAXBUF_def)
  let ?v = "v\<lparr>v_socks := (v_socks v)(fd \<mapsto> k\<lparr>k_in := st\<rparr>), v_type := OPEN_REQUEST, v_cwd := w\<rparr>"
  have "v_socks ?v fd = Some (k\<lparr>k_in := st\<rparr>)" "all_sent (k\<lparr>k_in := st\<rparr>)" "fd_ok ?v fd"
    using k(2) wf(2) by (simp_all add: all_sent_def fd_ok_def)
  from srv_open_answers [OF this, of oss "[]"] obtain k' where
    k': "srv_open oss ?v fd (request_buf []) = Inr (0, ?v\<lparr>v_cwds := (v_cwds v)[nat (fd2ind fd) := v_dft v],
       v_socks := (v_socks ?v)(fd \<mapsto> k')\<rparr>)"
    "k_out k' = k_out k @ post_wire OPEN_REPLY 1 []" "avail (k_in k') = rest" "all_sent k'"
    using st(1) by (auto simp: answers_def)
  let ?v' = "back_home oss (?v\<lparr>v_cwds := (v_cwds v)[nat (fd2ind fd) := v_dft v], v_socks := (v_socks ?v)(fd \<mapsto> k')\<rparr>)"
  have serve: "serve_request oss v fd = Inr ?v'" using st(2) k'(1) by simp
  have "server_wf oss ?v'" by (rule serve_request_wf [OF wf(1) serve])
  then have "server_shows oss (v_dirs v) fd (opened v c) ?v'"
    using wf by (simp add: server_shows_def opened_def fd_ok_def nat_less_iff dir_ok_def server_wf_def)
  with serve k' show ?thesis by auto
qed

lemma parseline_open: "parseline os c (open_line ip port) = cl_open os c (Some (ip @ [32] @ port))"
  by (simp add: open_line_def parseline_def cmdnames_def cmdfuncs_def bytes_of_def strncasecmp0_def to_lower_def)

lemma open_arguments:
  assumes "32 \<notin> set ip"
  shows "takeWhile (\<lambda>x. x \<noteq> 32) (ip @ [32] @ port) = ip" "tl (dropWhile (\<lambda>x. x \<noteq> 32) (ip @ [32] @ port)) = port"
proof -
  have "\<forall>x \<in> set ip. x \<noteq> 32" using assms by auto
  then show "takeWhile (\<lambda>x. x \<noteq> 32) (ip @ [32] @ port) = ip" "tl (dropWhile (\<lambda>x. x \<noteq> 32) (ip @ [32] @ port)) = port"
    by (simp_all add: takeWhile_append2 dropWhile_append2)
qed

lemma cl_open_runs:
  assumes "32 \<notin> set ip" and "length (open_prompt ip port) < MAXLINE" and "c_net c = Some k # net" and "all_sent k"
    and "avail (k_in k) = post_wire OPEN_REPLY 1 [] @ rest" and "length (os_junk os) = MAXBUF"
  shows "runs cl_open os c (Some (ip @ [32] @ port)) k 0 (c\<lparr>c_net := net, c_connected := True, c_prompt := open_prompt ip port,
      c_printed := c_printed c @ bytes_of ''connection established'' @ [10]\<rparr>) (post_wire OPEN_REQUEST 0 []) rest"
proof -
  let ?c = "c\<lparr>c_sock := Some k, c_net := net\<rparr>"
  have "c_sock ?c = Some k" by simp
  from c_exchange [OF this assms(4) _ assms(5) _ assms(6), of "[]" OPEN_REQUEST] obtain k1 k2 where
    k12: "c_send ?c OPEN_REQUEST [] 0 = Inr (0, ?c\<lparr>c_sock := Some k1\<rparr>)"
      "c_recv (?c\<lparr>c_sock := Some k1\<rparr>) (os_junk os) = Inr (0, os_junk os,
         ?c\<lparr>c_sock := Some k2, c_type := OPEN_REPLY, c_status := 1\<rparr>)"
      "k_out k2 = k_out k @ post_wire OPEN_REQUEST 0 []" "avail (k_in k2) = rest" "all_sent k2" by auto
  have mem: "(32 :: u8) \<in> set (ip @ [32] @ port)" by simp
  show ?thesis
    by (rule runsI [where t = OPEN_REPLY and s = 1, OF _ k12(3-5)])
       (use assms(2,3) k12(1,2) mem in \<open>simp add: cl_open_def the_arg_def open_arguments [OF assms(1), simplified] open_prompt_def Let_def\<close>)
qed

lemma serve_quit:
  assumes wf: "server_wf oss v" "fd_ok v fd" and watch: "fd \<in> set (v_watch v)" and k: "v_socks v fd = Some k" "all_sent k"
    and w: "work_dir oss v fd = Some w" and inp: "avail (k_in k) = post_wire QUIT_REQUEST 0 [] @ rest"
  shows "\<exists>v'. serve_request oss v fd = Inr v' \<and> v_socks v' fd = None \<and> fd \<notin> set (v_watch v')
    \<and> cwd_get v' fd = Inr null_path \<and> v_files v' = v_files v"
proof -
  have dec: "decode_post (avail (k_in k)) = Some ((QUIT_REQUEST, 0, []), rest)"
    unfolding inp by (rule decode_post_wire) simp
  from serve_request_dispatch [OF k(1) dec _ wf(2) w] obtain st where
    st: "serve_request oss v fd = bind_res (srv_quit oss
       (v\<lparr>v_socks := (v_socks v)(fd \<mapsto> k\<lparr>k_in := st\<rparr>), v_type := QUIT_REQUEST, v_cwd := w\<rparr>) fd (request_buf []))
       (\<lambda>(scode, v). Inr (back_home oss v))" by (auto simp: MAXBUF_def)
  let ?v = "v\<lparr>v_socks := (v_socks v)(fd \<mapsto> k\<lparr>k_in := st\<rparr>), v_type := QUIT_REQUEST, v_cwd := w\<rparr>"
  have "v_socks ?v fd = Some (k\<lparr>k_in := st\<rparr>)" "all_sent (k\<lparr>k_in := st\<rparr>)" using k(2) by (simp_all add: all_sent_def)
  from reply_nodata [OF this, of QUIT_REPLY 0] obtain k1 where
    k1: "reply ?v fd QUIT_REPLY [] 0 0 = Inr (0, ?v\<lparr>v_socks := (v_socks ?v)(fd \<mapsto> k1)\<rparr>)" by blast
  have "cwd_set (?v\<lparr>v_watch := removeAll fd (v_watch v), v_socks := (v_socks v)(fd := None)\<rparr>) fd null_path
      = Inr (?v\<lparr>v_watch := removeAll fd (v_watch v), v_socks := (v_socks v)(fd := None),
          v_cwds := (v_cwds v)[nat (fd2ind fd) := null_path]\<rparr>)"
    using wf(2) by (simp add: cwd_set_def fd_ok_def)
  then have "serve_request oss v fd = Inr (back_home oss (?v\<lparr>v_watch := removeAll fd (v_watch v),
      v_socks := (v_socks v)(fd := None), v_cwds := (v_cwds v)[nat (fd2ind fd) := null_path]\<rparr>))"
    unfolding st by (simp add: srv_quit_def k1 watch)
  then show ?thesis using wf(2) by (simp add: cwd_get_def fd_ok_def nat_less_iff)
qed

lemma parseline_quit: "parseline os c (bytes_of ''quit'') = cl_quit os c None"
  by (simp add: parseline_def cmdnames_def cmdfuncs_def bytes_of_def strncasecmp0_def to_lower_def)

lemma cl_quit_runs:
  assumes "c_connected c" and "c_sock c = Some k" and "all_sent k" and "avail (k_in k) = post_wire QUIT_REPLY s [] @ rest"
    and "length (os_junk os) = MAXBUF"
  shows "cl_quit os c args = Inr (0, c\<lparr>c_sock := None, c_type := QUIT_REPLY, c_status := s, c_connected := False,
    c_prompt := default_prompt, c_printed := c_printed c @ bytes_of ''connection close ok'' @ [10]\<rparr>)"
proof -
  from c_exchange [OF assms(2,3) _ assms(4) _ assms(5), of "[]" QUIT_REQUEST] obtain k1 k2 where
    "c_send c QUIT_REQUEST [] 0 = Inr (0, c\<lparr>c_sock := Some k1\<rparr>)"
    "c_recv (c\<lparr>c_sock := Some k1\<rparr>) (os_junk os) = Inr (0, os_junk os, c\<lparr>c_sock := Some k2, c_type := QUIT_REPLY, c_status := s\<rparr>)"
    by auto
  then show ?thesis using assms(1) by (simp add: cl_quit_def)
qed

section \<open>An example\<close>

text \<open>A system with absolute paths, a shell that prints one line, and a server with one open connection.\<close>

definition demo_unix :: os where
  "demo_unix = \<lparr>os_resolve = (\<lambda>d p. if p \<noteq> [] \<and> hd p = 47 then p else if d \<noteq> [] \<and> hd d = 47 then d @ p else 47 # d @ p),
     os_shell = (\<lambda>fs d cmd. Some ([97, 10], fs)), os_writable = (\<lambda>p. True), os_junk = replicate MAXBUF 0, os_stat_error = (\<lambda>p. False)\<rparr>"

definition demo_view :: view where
  "demo_view = \<lparr>local_files = [[47, 98] \<mapsto> [7, 8]], remote_files = [[47, 97] \<mapsto> [1, 2, 3]], here = [47], there = [47], shown = []\<rparr>"

definition demo_open :: server where
  "demo_open = (demo_server [])\<lparr>v_cwds := replicate MAXCONN [47]\<rparr>"

definition demo_commands :: "ftp_command list" where
  "demo_commands = [Ls, Get [97], Put [98], Cd [120], Get [98]]"

lemma demo_unix_ok: "os_ok demo_unix"
  by (auto simp: os_ok_def demo_unix_def)

lemma demo_unix_simps [simp]: "os_writable demo_unix p" "length (os_junk demo_unix) = MAXBUF"
  "os_shell demo_unix fs d cmd = Some ([97, 10], fs)" "\<not> os_stat_error demo_unix p"
  "os_resolve demo_unix d p = (if p \<noteq> [] \<and> hd p = 47 then p else if d \<noteq> [] \<and> hd d = 47 then d @ p else 47 # d @ p)"
  by (simp_all add: demo_unix_def)

lemma demo_shell [simp]: "after_shell demo_unix a cmd = a" "shell_output demo_unix a cmd = [97, 10]" "shell_ok demo_unix a cmd"
  by (simp_all add: after_shell_def shell_output_def shell_ok_def MAXBUF_def)

lemma demo_linked: "linked demo_unix [[47]] 5 demo_view (demo_open, demo_client)"
  by (simp add: linked_def server_shows_def client_shows_def demo_open_def demo_server_def server_init_def demo_client_def
      demo_view_def fd_ok_def fd2ind_def MAXCONN_def dir_ok_def server_wf_def watched_def)

lemma demo_run: "run_ok demo_unix demo_unix [[47]] demo_view demo_commands"
  "fst (spec_run demo_unix demo_unix [[47]] demo_view demo_commands) = [0, 0, 0, -1, 0]"
  by (simp_all add: demo_commands_def demo_view_def known_def name_ok_def carried_def MAXBUF_def INT_MAX_def display_def)

section \<open>Properties\<close>

text \<open>C7: A session of well-behaved commands refines its specification. Every command is to be well-behaved (\<open>spec_ok\<close>) in the
  state in which it is given: its name fits into the buffer and can be looked up, its file is below 2 GiB, the file of a \<open>put\<close>
  exists, \<open>cd\<close> does not name a regular file, \<open>get\<close> and \<open>put\<close> do not name a directory, what is to be written can be written, and
  the output of a shell command fits into the buffer. Of a file of more than 2 MiB the specification transfers the first 2 MiB, as
  the programs do. For such commands and for every way in which the network
  delivers the bytes of both sides, client and server return what the specification says and end in the state that it
  says: the files of both machines, the directory of the connection and the text on the screen, error messages included; and
  there is such a session. No post, no segment and no byte of an earlier exchange influences a later one.
\<close>

theorem session_refines_specification:
  assumes "linked oss dirs fd a s" and "os_ok oss" and "length (os_junk osc) = MAXBUF" and "run_ok oss osc dirs a cmds"
  shows "(\<exists>s'. session oss osc fd s (map command_line cmds) (fst (spec_run oss osc dirs a cmds)) s')
    \<and> (\<forall>rs s'. session oss osc fd s (map command_line cmds) rs s' \<longrightarrow>
         rs = fst (spec_run oss osc dirs a cmds) \<and> linked oss dirs fd (snd (spec_run oss osc dirs a cmds)) s')"
  using session_exists [OF assms(2,3,1,4)] session_refines [OF assms(2,3,1,4)] by blast

lemma session_refines_specification_witness:
  "\<exists>s'. session demo_unix demo_unix 5 (demo_open, demo_client) (map command_line demo_commands) [0, 0, 0, -1, 0] s'"
  using session_refines_specification [OF demo_linked demo_unix_ok _ demo_run(1)] demo_run(2) by auto

text \<open>No segmentation is harmful. If the two streams bring the posts of a well-behaved command and of its answer, cut into
  segments in any way, then both programs return, without undefined behaviour and without having to wait for more; each has
  then sent exactly what the other one received.
\<close>

theorem command_completes_for_every_segmentation:
  assumes "linked oss dirs fd a (v, c)" and "os_ok oss" and "length (os_junk osc) = MAXBUF" and "spec_ok oss osc dirs a cmd"
    and "v_socks v fd = Some ks" and "c_sock c = Some kc"
    and "avail stc = answer oss dirs a cmd" and "avail sts = request_wire cmd @ upload osc a cmd"
  shows "\<exists>v' c' ks' kc'. serve_request oss (v\<lparr>v_socks := (v_socks v)(fd \<mapsto> ks\<lparr>k_in := sts\<rparr>)\<rparr>) fd = Inr v'
    \<and> parseline osc (c\<lparr>c_sock := Some (kc\<lparr>k_in := stc\<rparr>)\<rparr>) (command_line cmd) = Inr (fst (spec_step oss osc dirs a cmd), c')
    \<and> v_socks v' fd = Some ks' \<and> c_sock c' = Some kc' \<and> k_out ks' = k_out ks @ avail stc \<and> k_out kc' = k_out kc @ avail sts
    \<and> linked oss dirs fd (snd (spec_step oss osc dirs a cmd)) (v', c')"
  by (rule exchange_results [OF assms])

lemma command_completes_for_every_segmentation_witness:
  "\<exists>v' c'. serve_request demo_unix (demo_open\<lparr>v_socks := (v_socks demo_open)(5 \<mapsto>
        (demo_sock [])\<lparr>k_in := map (\<lambda>b. Seg [b]) (post_wire CD_REQUEST 0 [120, 0])\<rparr>)\<rparr>) 5 = Inr v'
    \<and> parseline demo_unix (demo_client\<lparr>c_sock := Some ((demo_sock [])\<lparr>k_in := [Seg (post_wire CD_REPLY 0 [])]\<rparr>)\<rparr>)
        (command_line (Cd [120])) = Inr (-1, c')"
proof -
  have "v_socks demo_open 5 = Some (demo_sock [])" by (simp add: demo_open_def)
  from command_completes_for_every_segmentation [OF demo_linked demo_unix_ok _ _ this, of demo_unix "Cd [120]" "demo_sock []"
      "[Seg (post_wire CD_REPLY 0 [])]" "map (\<lambda>b. Seg [b]) (post_wire CD_REQUEST 0 [120, 0])"]
  show ?thesis by (auto simp: name_ok_def MAXBUF_def demo_view_def known_def request_wire_def status_of_def)
qed

lemma work_dir_sock [simp]: "work_dir os (v\<lparr>v_socks := k\<rparr>) fd = work_dir os v fd"
  by (simp add: work_dir_def fs_exists_def Let_def)

lemma serves_with_sock:
  assumes "server_wf os v" and "fd_ok v fd" and "v_socks v fd = Some k" and "work_dir os v fd = Some w"
  shows "server_wf os (v\<lparr>v_socks := (v_socks v)(fd \<mapsto> k')\<rparr>) \<and> fd_ok (v\<lparr>v_socks := (v_socks v)(fd \<mapsto> k')\<rparr>) fd
    \<and> work_dir os (v\<lparr>v_socks := (v_socks v)(fd \<mapsto> k')\<rparr>) fd = Some w"
  using assms by (auto simp: server_wf_def watched_def fd_ok_def)

text \<open>\<open>open\<close> begins a session. On an accepted connection both programs complete \<open>open\<close> for every segmentation and are
  then linked: the user sees the start directory of the server, the files of both machines, and the new prompt.
\<close>

theorem open_begins_a_session:
  assumes "server_wf oss v" and "fd_ok v fd" and "v_dft v \<noteq> [] \<and> \<not> os_stat_error oss (v_dft v)" and "v_socks v fd = Some ks" and "all_sent ks"
    and "work_dir oss v fd = Some w" and "length (os_junk osc) = MAXBUF" and "c_net c = Some kc # net" and "all_sent kc"
    and "32 \<notin> set ip" and "length (open_prompt ip port) < MAXLINE" and "fd \<in> set (v_watch v)"
    and "avail sts = post_wire OPEN_REQUEST 0 []" and "avail stc = post_wire OPEN_REPLY 1 []"
  shows "\<exists>v' c' ks' kc'. serve_request oss (v\<lparr>v_socks := (v_socks v)(fd \<mapsto> ks\<lparr>k_in := sts\<rparr>)\<rparr>) fd = Inr v'
      \<and> parseline osc (c\<lparr>c_net := Some (kc\<lparr>k_in := stc\<rparr>) # net\<rparr>) (open_line ip port) = Inr (0, c')
      \<and> v_socks v' fd = Some ks' \<and> c_sock c' = Some kc' \<and> k_out ks' = k_out ks @ avail stc \<and> k_out kc' = k_out kc @ avail sts
      \<and> c_prompt c' = open_prompt ip port \<and> linked oss (v_dirs v) fd (opened v c) (v', c')"
proof -
  let ?v = "v\<lparr>v_socks := (v_socks v)(fd \<mapsto> ks\<lparr>k_in := sts\<rparr>)\<rparr>" and ?c = "c\<lparr>c_net := Some (kc\<lparr>k_in := stc\<rparr>) # net\<rparr>"
  have v: "server_wf oss ?v" "fd_ok ?v fd" "work_dir oss ?v fd = Some w" using serves_with_sock [OF assms(1,2,4,6)] by blast+
  have ks: "v_dft ?v \<noteq> []" "fd \<in> set (v_watch ?v)" "\<not> os_stat_error oss (v_dft ?v)" "v_socks ?v fd = Some (ks\<lparr>k_in := sts\<rparr>)" "all_sent (ks\<lparr>k_in := sts\<rparr>)"
    "avail (k_in (ks\<lparr>k_in := sts\<rparr>)) = post_wire OPEN_REQUEST 0 [] @ []" using assms(3,5,12,13) by (simp_all add: all_sent_def)
  from serve_open [OF v(1,2) ks(1-5) v(3) ks(6), of c] obtain v' ks' where
    v': "serve_request oss ?v fd = Inr v'" "v_socks v' fd = Some ks'" "k_out ks' = k_out ks @ avail stc"
      "avail (k_in ks') = []" "all_sent ks'" "server_shows oss (v_dirs v) fd (opened v c) v'"
    using assms(14) by (auto simp: opened_def)
  have kc: "c_net ?c = Some (kc\<lparr>k_in := stc\<rparr>) # net" "all_sent (kc\<lparr>k_in := stc\<rparr>)"
    "avail (k_in (kc\<lparr>k_in := stc\<rparr>)) = post_wire OPEN_REPLY 1 [] @ []" using assms(9,14) by (simp_all add: all_sent_def)
  from cl_open_runs [OF assms(10,11) kc assms(7)] obtain c' kc' where
    c': "parseline osc ?c (open_line ip port) = Inr (0, c')" "c_sock c' = Some kc'" "k_out kc' = k_out kc @ avail sts"
      "avail (k_in kc') = []" "all_sent kc'" "c_prompt c' = open_prompt ip port" "client_shows (opened v c) c'"
    using assms(13) by (auto simp: runs_def parseline_open client_shows_def opened_def)
  have "linked oss (v_dirs v) fd (opened v c) (v', c')" using v' c' by (simp add: linked_def)
  with v' c' show ?thesis by blast
qed

lemma open_begins_a_session_witness:
  "\<exists>v' c'. serve_request demo_unix ((demo_server [])\<lparr>v_socks := (v_socks (demo_server []))(5 \<mapsto>
         (demo_sock [])\<lparr>k_in := [Seg (post_wire OPEN_REQUEST 0 [])]\<rparr>)\<rparr>) 5 = Inr v'
     \<and> linked demo_unix [[47]] 5 (opened (demo_server []) (demo_client\<lparr>c_net := [Some (demo_sock [])]\<rparr>)) (v', c')"
proof -
  have w: "work_dir demo_unix (demo_server []) 5 = Some [47]"
    by (simp add: demo_server_def server_init_def work_dir_def fs_exists_def fd2ind_def MAXCONN_def null_path_def)
  have wf: "server_wf demo_unix (demo_server [])"
    by (simp add: demo_server_def server_init_def server_wf_def watched_def MAXCONN_def)
  have p: "length (open_prompt [49] [50]) < MAXLINE" by code_simp
  show ?thesis
    using open_begins_a_session [OF wf demo_server_simps(2) _ demo_server_simps(1) _ w, of demo_unix
        "demo_client\<lparr>c_net := [Some (demo_sock [])]\<rparr>" "demo_sock []" "[]" "[49]" "[50]"
        "[Seg (post_wire OPEN_REQUEST 0 [])]" "[Seg (post_wire OPEN_REPLY 1 [])]"] p
    by (auto simp: demo_server_def server_init_def)
qed

text \<open>\<open>quit\<close> ends a session. It brings the client back to its first prompt without a connection, and the server to a state
  in which the connection is neither open nor watched and its directory is forgotten; the files stay as they are.
\<close>

theorem quit_ends_a_session:
  assumes "linked oss dirs fd a (v, c)" and "length (os_junk osc) = MAXBUF" and "v_socks v fd = Some ks" and "c_sock c = Some kc"
    and "avail sts = post_wire QUIT_REQUEST 0 []" and "avail stc = post_wire QUIT_REPLY 0 []"
  shows "\<exists>v' c'. serve_request oss (v\<lparr>v_socks := (v_socks v)(fd \<mapsto> ks\<lparr>k_in := sts\<rparr>)\<rparr>) fd = Inr v'
      \<and> parseline osc (c\<lparr>c_sock := Some (kc\<lparr>k_in := stc\<rparr>)\<rparr>) (bytes_of ''quit'') = Inr (0, c')
      \<and> v_socks v' fd = None \<and> fd \<notin> set (v_watch v') \<and> cwd_get v' fd = Inr null_path \<and> v_files v' = remote_files a
      \<and> \<not> c_connected c' \<and> c_sock c' = None \<and> c_prompt c' = default_prompt \<and> c_files c' = local_files a
      \<and> c_printed c' = shown a @ bytes_of ''connection close ok'' @ [10]"
proof -
  let ?v = "v\<lparr>v_socks := (v_socks v)(fd \<mapsto> ks\<lparr>k_in := sts\<rparr>)\<rparr>" and ?c = "c\<lparr>c_sock := Some (kc\<lparr>k_in := stc\<rparr>)\<rparr>"
  have sh: "server_shows oss dirs fd a ?v" "client_shows a c" and con: "c_connected ?c"
    and all: "all_sent (ks\<lparr>k_in := sts\<rparr>)" "all_sent (kc\<lparr>k_in := stc\<rparr>)"
    using assms(1,3,4) by (auto simp: linked_def all_sent_def client_shows_def)
  have k: "v_socks ?v fd = Some (ks\<lparr>k_in := sts\<rparr>)" "avail (k_in (ks\<lparr>k_in := sts\<rparr>)) = post_wire QUIT_REQUEST 0 [] @ []"
    "c_sock ?c = Some (kc\<lparr>k_in := stc\<rparr>)" "avail (k_in (kc\<lparr>k_in := stc\<rparr>)) = post_wire QUIT_REPLY 0 [] @ []"
    using assms(5,6) by simp_all
  have wf: "server_wf oss ?v" "fd_ok ?v fd" "fd \<in> set (v_watch ?v)" using sh(1) by (simp_all add: server_shows_def)
  from serve_quit [OF wf k(1) all(1) server_shows_work_dir [OF sh(1)] k(2)] obtain v' where
    v': "serve_request oss ?v fd = Inr v'" "v_socks v' fd = None" "fd \<notin> set (v_watch v')" "cwd_get v' fd = Inr null_path"
      "v_files v' = v_files v" by auto
  have "v_files v = remote_files a" using sh(1) by (simp add: server_shows_def)
  moreover note cl_quit_runs [OF con k(3) all(2) k(4) assms(2), of None]
  ultimately show ?thesis using v' sh(2) by (auto simp: parseline_quit client_shows_def)
qed

lemma quit_ends_a_session_witness:
  "\<exists>v'. serve_request demo_unix (demo_open\<lparr>v_socks := (v_socks demo_open)(5 \<mapsto>
      (demo_sock [])\<lparr>k_in := [Seg (post_wire QUIT_REQUEST 0 [])]\<rparr>)\<rparr>) 5 = Inr v' \<and> v_socks v' 5 = None \<and> 5 \<notin> set (v_watch v')"
proof -
  have "v_socks demo_open 5 = Some (demo_sock [])" by (simp add: demo_open_def)
  from quit_ends_a_session [OF demo_linked demo_unix_simps(2) this demo_client_simps(2), of "[Seg (post_wire QUIT_REQUEST 0 [])]"
      "[Seg (post_wire QUIT_REPLY 0 [])]"]
  show ?thesis by auto
qed

lemma srv_put_bad_data:
  assumes k: "v_socks v fd = Some k" "all_sent k" and inp: "avail (k_in k) = post_wire t s d @ rest"
    and "t \<noteq> FILE_DATA" and d: "length d \<le> MAXBUF" and junk: "length (os_junk os) = MAXBUF"
  shows "\<exists>k'. srv_put os v fd args = Inr (-1, tell (v\<lparr>v_socks := (v_socks v)(fd \<mapsto> k')\<rparr>) (serror ''bad file data''))
    \<and> k_out k' = k_out k @ post_wire PUT_REPLY 0 [] \<and> avail (k_in k') = rest"
proof -
  obtain k1 where k1: "reply v fd PUT_REPLY [] 0 0 = Inr (0, v\<lparr>v_socks := (v_socks v)(fd \<mapsto> k1)\<rparr>)"
    "k_out k1 = k_out k @ post_wire PUT_REPLY 0 []" "k_in k1 = k_in k"
    using reply_nodata [OF k, of PUT_REPLY 0] by blast
  have "decode_post (avail (k_in k1)) = Some ((t, s, d), rest)" unfolding k1(3) inp by (rule decode_post_wire) (rule d)
  from recv_post_decode [OF this, of "os_junk os" "v_type v" 0] d junk obtain st where
    "recv_post k1 (os_junk os) (v_type v) 0 = Inr \<lparr>p_size = int (length d), p_buf = d @ drop (length d) (os_junk os),
       p_type = t, p_status = s, p_said = [], p_sock = k1\<lparr>k_in := st\<rparr>\<rparr>" "avail st = rest" by auto
  with k1 assms(4) show ?thesis
    by (intro exI [of _ "k1\<lparr>k_in := st\<rparr>"]) (simp add: srv_put_def receive_def srv_error_def)
qed

lemma cl_put_missing:
  assumes "c_connected c" and k: "c_sock c = Some k" "all_sent k" and junk: "length (os_junk os) = MAXBUF"
    and n: "length n + 1 < MAXBUF" and "avail (k_in k) = post_wire PUT_REPLY 0 [] @ rest"
    and none: "c_files c (os_resolve os (c_cwd c) n) = None"
  shows "runs cl_put os c (Some n) k (-1) (c_say c (serror ''open file error (r)'')) (post_wire PUT_REQUEST 0 (n @ [0])) rest"
proof -
  from c_exchange_name [OF k n assms(6) _ junk, of PUT_REQUEST] obtain k1 k2 where
    k12: "c_send c PUT_REQUEST (n @ [0]) (int (length n + 1)) = Inr (int (length n + 1), c\<lparr>c_sock := Some k1\<rparr>)"
      "c_recv (c\<lparr>c_sock := Some k1\<rparr>) (os_junk os) = Inr (0, os_junk os,
         c\<lparr>c_sock := Some k2, c_type := PUT_REPLY, c_status := 0\<rparr>)"
      "k_out k2 = k_out k @ post_wire PUT_REQUEST 0 (n @ [0])" "avail (k_in k2) = rest" "all_sent k2" by auto
  show ?thesis
    by (rule runsI [where t = PUT_REPLY and s = 0, OF _ k12(3-5)])
       (use assms(1) none k12(1,2) in \<open>simp add: cl_put_def the_arg_def ftp_read_file_def\<close>)
qed

text \<open>The two halves of a \<open>put\<close> whose file does not exist: what the client does, and what the server is about to do.\<close>

lemma missing_put_client:
  assumes "linked oss dirs fd a (v, c)" and "length (os_junk osc) = MAXBUF" and "name_ok n"
    and "local_files a (os_resolve osc (here a) n) = None"
    and "c_sock c = Some kc" and "avail stc = post_wire PUT_REPLY 0 []"
  shows "\<exists>c' kc'. parseline osc (c\<lparr>c_sock := Some (kc\<lparr>k_in := stc\<rparr>)\<rparr>) (command_line (Put n)) = Inr (-1, c')
    \<and> c_sock c' = Some kc' \<and> k_out kc' = k_out kc @ request_wire (Put n) \<and> c_connected c'"
proof -
  let ?c = "c\<lparr>c_sock := Some (kc\<lparr>k_in := stc\<rparr>)\<rparr>"
  have sh: "client_shows a ?c" and con: "c_connected ?c" and all: "all_sent (kc\<lparr>k_in := stc\<rparr>)"
    using assms(1,5) by (auto simp: linked_def all_sent_def client_shows_def)
  have n: "length n + 1 < MAXBUF" using assms(3) by (simp add: name_ok_def)
  have kc: "c_sock ?c = Some (kc\<lparr>k_in := stc\<rparr>)" "avail (k_in (kc\<lparr>k_in := stc\<rparr>)) = post_wire PUT_REPLY 0 [] @ []"
    "c_files ?c (os_resolve osc (c_cwd ?c) n) = None" using assms(4,6) sh by (simp_all add: client_shows_def)
  from cl_put_missing [OF con kc(1) all assms(2) n kc(2,3)] con show ?thesis
    by (auto simp: runs_def request_wire_def simp del: command_line.simps simp flip: parseline_command)
qed

lemma put_request_dispatch:
  assumes "linked oss dirs fd a (v, c)" and "v_socks v fd = Some ks" and "name_ok n"
    and "avail sts = request_wire (Put n) @ rest"
  shows "\<exists>st. let ks = ks\<lparr>k_in := st\<rparr>;
        w = v\<lparr>v_socks := (v_socks v)(fd \<mapsto> ks), v_type := PUT_REQUEST, v_cwd := there a\<rparr>
      in avail st = rest \<and> stalls st = stalls sts \<and> v_socks w fd = Some ks \<and> all_sent ks
       \<and> serve_request oss (v\<lparr>v_socks := (v_socks v)(fd \<mapsto> ks\<lparr>k_in := sts\<rparr>)\<rparr>) fd =
           bind_res (srv_put oss w fd (request_buf (n @ [0]))) (\<lambda>(scode, v). Inr (back_home oss v))"
proof -
  let ?v = "v\<lparr>v_socks := (v_socks v)(fd \<mapsto> ks\<lparr>k_in := sts\<rparr>)\<rparr>"
  have sh: "server_shows oss dirs fd a ?v" and all: "all_sent (ks\<lparr>k_in := st\<rparr>)" for st
    using assms(1,2) by (auto simp: linked_def all_sent_def)
  have n: "length (n @ [0]) < MAXBUF" using assms(3) by (simp add: name_ok_def)
  have ks: "v_socks ?v fd = Some (ks\<lparr>k_in := sts\<rparr>)" "fd_ok ?v fd" using sh by (simp_all add: server_shows_def)
  have dec: "decode_post (avail (k_in (ks\<lparr>k_in := sts\<rparr>))) = Some ((PUT_REQUEST, 0, n @ [0]), rest)"
    using assms(4) n decode_post_wire [of "n @ [0]" PUT_REQUEST 0] by (simp add: request_wire_def)
  from serve_request_dispatch_stalls [OF ks(1) dec n ks(2) server_shows_work_dir [OF sh]] all show ?thesis
    by (auto simp: Let_def)
qed

text \<open>C28: A \<open>put\<close> of a file that the client does not have puts the session out of step. The client has already sent the request
  when it finds that it cannot read the file, and returns without sending data. The server waits for the data and takes the
  user's next command for it: it consumes that request, finds that it is no file data, and sends one answer for the
  two requests, so that the next command is never executed and its answer never comes.
\<close>

theorem put_of_missing_file_desynchronises:
  assumes "linked oss dirs fd a (v, c)" and "os_ok oss" and "length (os_junk osc) = MAXBUF" and "name_ok n"
    and "local_files a (os_resolve osc (here a) n) = None"
    and "v_socks v fd = Some ks" and "c_sock c = Some kc" and "length (snd (request cmd)) \<le> MAXBUF"
    and "avail stc = post_wire PUT_REPLY 0 []" and "avail sts = request_wire (Put n) @ request_wire cmd @ rest"
  shows "(\<exists>c' kc'. parseline osc (c\<lparr>c_sock := Some (kc\<lparr>k_in := stc\<rparr>)\<rparr>) (command_line (Put n)) = Inr (-1, c')
      \<and> c_sock c' = Some kc' \<and> k_out kc' = k_out kc @ request_wire (Put n) \<and> c_connected c')
    \<and> (\<exists>v' ks'. serve_request oss (v\<lparr>v_socks := (v_socks v)(fd \<mapsto> ks\<lparr>k_in := sts\<rparr>)\<rparr>) fd = Inr v'
      \<and> v_socks v' fd = Some ks' \<and> k_out ks' = k_out ks @ avail stc \<and> avail (k_in ks') = rest \<and> v_files v' = v_files v
      \<and> v_cwds v' = v_cwds v)"
proof -
  obtain t d where td: "request cmd = (t, d)" by (cases "request cmd")
  have t: "t \<noteq> FILE_DATA" "length d \<le> MAXBUF" using td assms(8)
    by (cases cmd; simp add: FILE_DATA_def LIST_REQUEST_def CD_REQUEST_def GET_REQUEST_def PUT_REQUEST_def SHA_REQUEST_def; fail)+
  from put_request_dispatch [OF assms(1,6,4,10)] obtain st w where
    st: "avail st = post_wire t 0 d @ rest" "serve_request oss (v\<lparr>v_socks := (v_socks v)(fd \<mapsto> ks\<lparr>k_in := sts\<rparr>)\<rparr>) fd =
      bind_res (srv_put oss w fd (request_buf (n @ [0]))) (\<lambda>(scode, v). Inr (back_home oss v))"
    and w: "v_socks w fd = Some (ks\<lparr>k_in := st\<rparr>)" "all_sent (ks\<lparr>k_in := st\<rparr>)" "v_files w = v_files v" "v_cwds w = v_cwds v"
    using td by (fastforce simp: Let_def request_wire_def)
  have "length (os_junk oss) = MAXBUF" using assms(2) by (simp add: os_ok_def)
  with w(1,2) st(1) t srv_put_bad_data [of w fd "ks\<lparr>k_in := st\<rparr>" t 0 d rest oss "request_buf (n @ [0])"] obtain k' where
    "srv_put oss w fd (request_buf (n @ [0])) = Inr (-1, tell (w\<lparr>v_socks := (v_socks w)(fd \<mapsto> k')\<rparr>) (serror ''bad file data''))"
    "k_out k' = k_out ks @ post_wire PUT_REPLY 0 []" "avail (k_in k') = rest" by auto
  with st(2) w(3,4) missing_put_client [OF assms(1,3,4,5,7,9)] assms(9) show ?thesis by simp
qed

lemma put_of_missing_file_desynchronises_witness:
  "\<exists>v' ks'. serve_request demo_unix (demo_open\<lparr>v_socks := (v_socks demo_open)(5 \<mapsto>
        (demo_sock [])\<lparr>k_in := [Seg (request_wire (Put [99]) @ request_wire Ls @ [])]\<rparr>)\<rparr>) 5 = Inr v'
     \<and> v_socks v' 5 = Some ks' \<and> k_out ks' = post_wire PUT_REPLY 0 [] \<and> avail (k_in ks') = []"
proof -
  have "v_socks demo_open 5 = Some (demo_sock [])" by (simp add: demo_open_def)
  from put_of_missing_file_desynchronises [OF demo_linked demo_unix_ok demo_unix_simps(2) _ _ this demo_client_simps(2),
      of "[99]" Ls "[Seg (post_wire PUT_REPLY 0 [])]" "[Seg (request_wire (Put [99]) @ request_wire Ls @ [])]" "[]"]
  show ?thesis by (auto simp: name_ok_def MAXBUF_def demo_view_def)
qed

end
