(* ===== verification/Ftp_Users.thy ===== *)
theory Ftp_Users
  imports Ftp_Refine
begin

text \<open>
  Several users at once. The server handles the requests of all connections one after the other, in one thread, changing its
  process directory back and forth; the users share its files. Every interleaving of their exchanges refines the
  specification in which each user has a directory and a screen of his own.
\<close>

section \<open>The specification\<close>

definition share :: "int \<Rightarrow> view \<Rightarrow> (int \<Rightarrow> view) \<Rightarrow> int \<Rightarrow> view" where
  "share fd a u = (\<lambda>fd'. if fd' = fd then a else (u fd')\<lparr>remote_files := remote_files a\<rparr>)"

fun users_run :: "os \<Rightarrow> (int \<Rightarrow> os) \<Rightarrow> path list \<Rightarrow> (int \<Rightarrow> view) \<Rightarrow> (int \<times> ftp_command) list \<Rightarrow> int list \<times> (int \<Rightarrow> view)" where
  "users_run oss osc dirs u [] = ([], u)"
| "users_run oss osc dirs u ((fd, cmd) # cmds) =
     (case spec_step oss (osc fd) dirs (u fd) cmd of (r, a) \<Rightarrow>
        case users_run oss osc dirs (share fd a u) cmds of (rs, u) \<Rightarrow> (r # rs, u))"

fun users_ok :: "os \<Rightarrow> (int \<Rightarrow> os) \<Rightarrow> path list \<Rightarrow> (int \<Rightarrow> view) \<Rightarrow> (int \<times> ftp_command) list \<Rightarrow> bool" where
  "users_ok oss osc dirs u [] \<longleftrightarrow> True"
| "users_ok oss osc dirs u ((fd, cmd) # cmds) \<longleftrightarrow> spec_ok oss (osc fd) dirs (u fd) cmd
     \<and> users_ok oss osc dirs (share fd (snd (spec_step oss (osc fd) dirs (u fd) cmd)) u) cmds"

fun typed :: "(int \<times> ftp_command) list \<Rightarrow> (int \<times> u8 list) list" where
  "typed [] = []"
| "typed ((fd, cmd) # cmds) = (fd, command_line cmd) # typed cmds"

section \<open>The system\<close>

inductive users :: "os \<Rightarrow> (int \<Rightarrow> os) \<Rightarrow> server \<times> (int \<Rightarrow> client) \<Rightarrow> (int \<times> u8 list) list \<Rightarrow> int list \<Rightarrow>
    server \<times> (int \<Rightarrow> client) \<Rightarrow> bool" for oss osc where
  users_over: "users oss osc s [] [] s"
| users_go_on: "exchange oss (osc fd) fd (v, cs fd) line r (v', c') \<Longrightarrow> users oss osc (v', cs(fd := c')) lines rs s \<Longrightarrow>
    users oss osc (v, cs) ((fd, line) # lines) (r # rs) s"

inductive_cases users_NilE: "users oss osc s [] rs s'"
inductive_cases users_ConsE: "users oss osc (v, cs) ((fd, line) # lines) rs s'"

definition all_linked :: "os \<Rightarrow> path list \<Rightarrow> int set \<Rightarrow> (int \<Rightarrow> view) \<Rightarrow> server \<times> (int \<Rightarrow> client) \<Rightarrow> bool" where
  "all_linked oss dirs fds u s \<longleftrightarrow> (\<forall>fd \<in> fds. linked oss dirs fd (u fd) (fst s, snd s fd))"

section \<open>Refinement\<close>

text \<open>An exchange of one user shows the others nothing but the changed files.\<close>

lemma exchange_same_but:
  assumes "exchange oss osc fd (v, c) line r (v', c')" and "server_wf oss v"
  shows "same_but fd v v' \<and> server_wf oss v'"
proof -
  from assms(1) obtain ks sts where ks: "v_socks v fd = Some ks"
    and srv: "serve_request oss (v\<lparr>v_socks := (v_socks v)(fd \<mapsto> ks\<lparr>k_in := sts\<rparr>)\<rparr>) fd = Inr v'"
    by (auto elim: exchangeE)
  let ?v = "v\<lparr>v_socks := (v_socks v)(fd \<mapsto> ks\<lparr>k_in := sts\<rparr>)\<rparr>"
  have sm: "same_but fd v ?v" by (rule same_but_upd) (simp_all add: ks)
  then have wf: "server_wf oss ?v" using assms(2) by (rule same_but_wf)
  have "same_but fd ?v v'" by (rule returnsD [OF serve_request_same [OF wf] srv])
  with sm have "same_but fd v v'" by (rule same_but_trans)
  with assms(2) show ?thesis using same_but_wf by blast
qed

lemma linked_other:
  assumes l: "linked oss dirs fd' a (v, c)" and sm: "same_but fd v v'" and wf: "server_wf oss v'"
    and ne: "fd' \<noteq> fd" and files: "v_files v' = f"
  shows "linked oss dirs fd' (a\<lparr>remote_files := f\<rparr>) (v', c)"
proof -
  have sh: "server_wf oss v" "fd_ok v fd'" "fd' \<in> set (v_watch v)" "v_dirs v = dirs" "v_cwds v ! nat (fd2ind fd') = there a" "dir_ok oss dirs (there a)"
    using l by (simp_all add: linked_def server_shows_def)
  have "fd2ind fd' \<noteq> fd2ind fd" using ne by (simp add: fd2ind_def)
  then have "v_cwds v' ! nat (fd2ind fd') = there a" "fd_ok v' fd'"
    using sm sh(2,5) by (auto simp: same_but_def fd_ok_def)
  moreover have "v_dirs v' = dirs" "v_socks v' fd' = v_socks v fd'" using sm sh(4) ne by (simp_all add: same_but_def)
  moreover have "fd' \<in> set (v_watch v')" using same_but_watch [OF sm ne] sh(3) by simp
  ultimately show ?thesis using l wf files sh(6) by (auto simp: linked_def server_shows_def client_shows_def)
qed

lemma users_step_linked:
  assumes all: "all_linked oss dirs fds u (v, cs)" and fd: "fd \<in> fds"
    and e: "exchange oss oscl fd (v, cs fd) line r (v', c')" and l: "linked oss dirs fd a (v', c')"
  shows "all_linked oss dirs fds (share fd a u) (v', cs(fd := c'))"
  unfolding all_linked_def
proof
  fix fd' assume fd': "fd' \<in> fds"
  have wf: "server_wf oss v" using all fd by (simp add: all_linked_def linked_def server_shows_def)
  note sm = exchange_same_but [OF e wf]
  have files: "v_files v' = remote_files a" using l by (simp add: linked_def server_shows_def)
  show "linked oss dirs fd' (share fd a u fd') (fst (v', cs(fd := c')), snd (v', cs(fd := c')) fd')"
    using all fd' l sm linked_other [of oss dirs fd' "u fd'" v "cs fd'" fd v', OF _ _ _ _ files]
    by (auto simp: all_linked_def share_def)
qed

lemma users_refine:
  assumes "os_ok oss" and "\<And>fd. length (os_junk (osc fd)) = MAXBUF"
  shows "all_linked oss dirs fds u s \<Longrightarrow> fst ` set cmds \<subseteq> fds \<Longrightarrow> users_ok oss osc dirs u cmds \<Longrightarrow>
    users oss osc s (typed cmds) rs s' \<Longrightarrow>
    rs = fst (users_run oss osc dirs u cmds) \<and> all_linked oss dirs fds (snd (users_run oss osc dirs u cmds)) s'"
proof (induction cmds arbitrary: u s rs)
  case Nil
  then show ?case by (auto elim: users_NilE)
next
  case (Cons p cmds)
  obtain fd cmd where p: "p = (fd, cmd)" by (cases p)
  obtain v cs where s: "s = (v, cs)" by (cases s)
  from Cons.prems(4) obtain r rs' v' c' where
    e: "exchange oss (osc fd) fd (v, cs fd) (command_line cmd) r (v', c')"
      "users oss osc (v', cs(fd := c')) (typed cmds) rs' s'" "rs = r # rs'"
    by (auto simp: p s elim: users_ConsE)
  let ?a = "spec_step oss (osc fd) dirs (u fd) cmd"
  have ok: "spec_ok oss (osc fd) dirs (u fd) cmd" "users_ok oss osc dirs (share fd (snd ?a) u) cmds" "fd \<in> fds" "fst ` set cmds \<subseteq> fds"
    using Cons.prems(2,3) by (simp_all add: p)
  have l: "linked oss dirs fd (u fd) (v, cs fd)" using Cons.prems(1) ok(3) by (simp add: all_linked_def s)
  note step = exchange_refines [OF l assms(1,2) ok(1) e(1)]
  from users_step_linked [OF Cons.prems(1) [unfolded s] ok(3) e(1)] step
  have "all_linked oss dirs fds (share fd (snd ?a) u) (v', cs(fd := c'))" by blast
  from Cons.IH [OF this ok(4,2) e(2)] step e(3) show ?case by (simp add: p split_beta)
qed

lemma users_exist:
  assumes "os_ok oss" and "\<And>fd. length (os_junk (osc fd)) = MAXBUF"
  shows "all_linked oss dirs fds u s \<Longrightarrow> fst ` set cmds \<subseteq> fds \<Longrightarrow> users_ok oss osc dirs u cmds \<Longrightarrow>
    \<exists>s'. users oss osc s (typed cmds) (fst (users_run oss osc dirs u cmds)) s'"
proof (induction cmds arbitrary: u s)
  case Nil
  have "users oss osc s (typed []) (fst (users_run oss osc dirs u [])) s" by (simp add: users_over)
  then show ?case by blast
next
  case (Cons p cmds)
  obtain fd cmd where p: "p = (fd, cmd)" by (cases p)
  obtain v cs where s: "s = (v, cs)" by (cases s)
  let ?a = "spec_step oss (osc fd) dirs (u fd) cmd"
  have ok: "spec_ok oss (osc fd) dirs (u fd) cmd" "users_ok oss osc dirs (share fd (snd ?a) u) cmds" "fd \<in> fds" "fst ` set cmds \<subseteq> fds"
    using Cons.prems(2,3) by (simp_all add: p)
  have l: "linked oss dirs fd (u fd) (v, cs fd)" using Cons.prems(1) ok(3) by (simp add: all_linked_def s)
  from exchange_exists [OF l assms(1,2) ok(1)] obtain v' c' where
    e: "exchange oss (osc fd) fd (v, cs fd) (command_line cmd) (fst ?a) (v', c')" "linked oss dirs fd (snd ?a) (v', c')" by auto
  from Cons.IH [OF users_step_linked [OF Cons.prems(1) [unfolded s] ok(3) e] ok(4,2)] e(1)
  show ?case by (auto simp: p s split_beta intro: users_go_on)
qed

text \<open>C8: Several users who give well-behaved commands do not disturb each other. Every command is to be well-behaved
  (\<open>users_ok\<close>, which is \<open>spec_ok\<close> at every step) in the state in which its turn comes: names fit into the buffers, files are below
  2 GiB, the file of a \<open>put\<close> exists, \<open>cd\<close> does not name a regular file, \<open>get\<close> and \<open>put\<close> do not name a directory, targets can be
  written, names can be looked up, and the output of a shell command fits into the buffer. Then however the exchanges of any
  number of connected users are interleaved and however the network segments their streams, everybody gets the results that the specification says: he sees the files that
  the others have put, and his own directory and screen; and there is such a run. Neither the process directory that the server
  changes for every request nor its global variables carry anything from one user to another.
\<close>

theorem users_do_not_interfere:
  assumes "all_linked oss dirs fds u s" and "os_ok oss" and "\<forall>fd. length (os_junk (osc fd)) = MAXBUF"
    and "fst ` set cmds \<subseteq> fds" and "users_ok oss osc dirs u cmds"
  shows "(\<exists>s'. users oss osc s (typed cmds) (fst (users_run oss osc dirs u cmds)) s')
    \<and> (\<forall>rs s'. users oss osc s (typed cmds) rs s' \<longrightarrow>
         rs = fst (users_run oss osc dirs u cmds) \<and> all_linked oss dirs fds (snd (users_run oss osc dirs u cmds)) s')"
  using users_exist [OF assms(2) _ assms(1,4,5)] users_refine [OF assms(2) _ assms(1,4,5)] assms(3) by blast

text \<open>Two users at the start directory: what the first puts, the second gets.\<close>

definition demo_two :: server where
  "demo_two = demo_open\<lparr>v_socks := [5 \<mapsto> demo_sock [], 6 \<mapsto> demo_sock []], v_watch := [5, 6]\<rparr>"

definition demo_turns :: "(int \<times> ftp_command) list" where
  "demo_turns = [(6, Get [98]), (5, Put [98]), (6, Get [98]), (5, Ls)]"

lemma users_do_not_interfere_witness:
  "\<exists>s'. users demo_unix (\<lambda>fd. demo_unix) (demo_two, \<lambda>fd. demo_client) (typed demo_turns) [-1, 0, 0, 0] s'"
proof -
  have l: "all_linked demo_unix [[47]] {5, 6} (\<lambda>fd. demo_view) (demo_two, \<lambda>fd. demo_client)"
    by (simp add: all_linked_def linked_def server_shows_def client_shows_def demo_two_def demo_open_def demo_server_def
        server_init_def demo_client_def demo_view_def fd_ok_def fd2ind_def MAXCONN_def dir_ok_def server_wf_def watched_def)
  have ok: "users_ok demo_unix (\<lambda>fd. demo_unix) [[47]] (\<lambda>fd. demo_view) demo_turns"
    "fst (users_run demo_unix (\<lambda>fd. demo_unix) [[47]] (\<lambda>fd. demo_view) demo_turns) = [-1, 0, 0, 0]"
    by (simp_all add: demo_turns_def demo_view_def share_def carried_def name_ok_def MAXBUF_def INT_MAX_def display_def)
  show ?thesis
    using users_do_not_interfere [OF l demo_unix_ok, of "\<lambda>fd. demo_unix" demo_turns] ok by (auto simp: demo_turns_def)
qed

end
