(* ===== verification/Ftp_Main.thy ===== *)
theory Ftp_Main
  imports Ftp_Refine
begin

text \<open>
  The two programs, from the command line of the server and the first line that the user types. A user opens a connection,
  types commands, and ends the input; each program runs to the end on the bytes that the other one sends, and what both
  have done is what the specification says.
\<close>

section \<open>A whole session\<close>

fun requests :: "os \<Rightarrow> os \<Rightarrow> path list \<Rightarrow> view \<Rightarrow> ftp_command list \<Rightarrow> u8 list" where
  "requests oss osc dirs a [] = []"
| "requests oss osc dirs a (cmd # cmds) =
     request_wire cmd @ upload osc a cmd @ requests oss osc dirs (snd (spec_step oss osc dirs a cmd)) cmds"

fun replies :: "os \<Rightarrow> os \<Rightarrow> path list \<Rightarrow> view \<Rightarrow> ftp_command list \<Rightarrow> u8 list" where
  "replies oss osc dirs a [] = []"
| "replies oss osc dirs a (cmd # cmds) =
     answer oss dirs a cmd @ replies oss osc dirs (snd (spec_step oss osc dirs a cmd)) cmds"

text \<open>What the user sees: the prompt before each command, and once more, with a newline, at the end of the input.\<close>

fun prompted :: "os \<Rightarrow> os \<Rightarrow> path list \<Rightarrow> u8 list \<Rightarrow> view \<Rightarrow> ftp_command list \<Rightarrow> view" where
  "prompted oss osc dirs p a [] = display (display a p) [10]"
| "prompted oss osc dirs p a (cmd # cmds) = prompted oss osc dirs p (snd (spec_step oss osc dirs (display a p) cmd)) cmds"

text \<open>The screen has no influence on anything else.\<close>

definition same_state :: "view \<Rightarrow> view \<Rightarrow> bool" where
  "same_state a b \<longleftrightarrow> local_files b = local_files a \<and> remote_files b = remote_files a \<and> here b = here a \<and> there b = there a"

lemma same_state_simps [simp]: "same_state a a" "same_state a (display b t) = same_state a b"
  by (simp_all add: same_state_def)

lemma same_state_shell:
  assumes "same_state a b"
  shows "known oss dirs b n = known oss dirs a n" "shell_output oss b cmd = shell_output oss a cmd" "shell_ok oss b cmd = shell_ok oss a cmd"
    "sha_command oss b n = sha_command oss a n" "remote_files (after_shell oss b cmd) = remote_files (after_shell oss a cmd)"
  using assms
  by (simp_all add: same_state_def known_def shell_output_def shell_ok_def sha_command_def after_shell_def split: option.splits prod.splits)

lemma same_state_spec:
  assumes "same_state a b"
  shows "spec_ok oss osc dirs b cmd = spec_ok oss osc dirs a cmd" "answer oss dirs b cmd = answer oss dirs a cmd"
    "upload osc b cmd = upload osc a cmd" "fst (spec_step oss osc dirs b cmd) = fst (spec_step oss osc dirs a cmd)"
    "same_state (snd (spec_step oss osc dirs a cmd)) (snd (spec_step oss osc dirs b cmd))"
  using assms same_state_shell [OF assms]
  by (cases cmd; simp add: same_state_def Let_def split: option.splits)+

lemma same_state_run:
  "same_state a b \<Longrightarrow> run_ok oss osc dirs b cmds = run_ok oss osc dirs a cmds
    \<and> requests oss osc dirs b cmds = requests oss osc dirs a cmds \<and> replies oss osc dirs b cmds = replies oss osc dirs a cmds"
proof (induction cmds arbitrary: a b)
  case (Cons cmd cmds)
  from Cons.IH [OF same_state_spec(5) [OF Cons.prems]] show ?case by (simp add: same_state_spec(1-4) [OF Cons.prems])
qed simp

lemma prompted_state:
  "same_state a b \<Longrightarrow> same_state (snd (spec_run oss osc dirs a cmds)) (prompted oss osc dirs p b cmds)"
proof (induction cmds arbitrary: a b)
  case (Cons cmd cmds)
  have "same_state a (display b p)" using Cons.prems by simp
  from Cons.IH [OF same_state_spec(5) [OF this]] show ?case by (simp add: split_beta)
qed simp

section \<open>The loop of the client\<close>

definition line_ok :: "u8 list \<Rightarrow> bool" where
  "line_ok l \<longleftrightarrow> 10 \<notin> set l \<and> 0 \<notin> set l \<and> length l < MAXLINE - 1"

definition typed_lines :: "u8 list list \<Rightarrow> u8 list" where
  "typed_lines ls = concat (map (\<lambda>l. l @ [10]) ls)"

lemma fgets_line: "line_ok l \<Longrightarrow> fgets (l @ [10] @ rest) = (l @ [10], rest, False)"
proof -
  assume l: "line_ok l"
  then have "takeWhile (\<lambda>x. x \<noteq> 10) (l @ [10] @ rest) = l" by (subst takeWhile_append2) (auto simp: line_ok_def)
  with l show ?thesis by (simp add: fgets_def Let_def line_ok_def)
qed

lemma client_main_step:
  assumes "c_running c" and "line_ok l"
  shows "client_main os c (typed_lines (l # ls)) = bind_res (parseline os (c_say c (c_prompt c)) l)
    (\<lambda>(r, c). client_main os (if 0 < r then c_say c (serror ''command not supported'') else c) (typed_lines ls))"
proof -
  have "takeWhile (\<lambda>x. x \<noteq> 0) (l @ [10]) = l @ [10]" using assms(2) by (subst takeWhile_eq_all_conv) (auto simp: line_ok_def)
  with fgets_line [OF assms(2), of "typed_lines ls"] assms(1) show ?thesis
    by (subst client_main.simps) (simp add: typed_lines_def Let_def)
qed

lemma client_main_line:
  assumes "c_running c" and "line_ok l" and "parseline os (c_say c (c_prompt c)) l = Inr (r, c')" and "r \<le> 0"
  shows "client_main os c (typed_lines (l # ls)) = client_main os c' (typed_lines ls)"
  using assms by (simp add: client_main_step)

lemma client_main_ends: "c_running c \<Longrightarrow> client_main os c (typed_lines []) = Inr (c_say (c_say c (c_prompt c)) [10])"
  by (subst client_main.simps) (simp add: typed_lines_def fgets_def MAXLINE_def Let_def)

lemma client_shows_say: "client_shows a c \<Longrightarrow> client_shows (display a t) (c_say c t)"
  by (simp add: client_shows_def)

lemma spec_step_result: "fst (spec_step oss osc dirs a cmd) \<le> 0"
  by (cases cmd) (auto split: option.splits)

lemma client_main_runs:
  assumes junk: "length (os_junk osc) = MAXBUF"
  shows "client_shows a c \<Longrightarrow> c_running c \<Longrightarrow> c_sock c = Some k \<Longrightarrow> all_sent k \<Longrightarrow> run_ok oss osc dirs a cmds \<Longrightarrow>
    \<forall>cmd \<in> set cmds. line_ok (command_line cmd) \<Longrightarrow> avail (k_in k) = replies oss osc dirs a cmds @ rest \<Longrightarrow>
    \<exists>c' k'. client_main osc c (typed_lines (map command_line cmds)) = Inr c' \<and> c_sock c' = Some k'
      \<and> k_out k' = k_out k @ requests oss osc dirs a cmds \<and> avail (k_in k') = rest
      \<and> client_shows (prompted oss osc dirs (c_prompt c) a cmds) c'"
proof (induction cmds arbitrary: a c k)
  case Nil
  then show ?case by (auto simp: client_main_ends intro!: client_shows_say)
next
  case (Cons cmd cmds)
  let ?a = "display a (c_prompt c)" and ?c = "c_say c (c_prompt c)"
  let ?s = "spec_step oss osc dirs ?a cmd"
  have same: "same_state a ?a" by simp
  have ok: "spec_ok oss osc dirs ?a cmd" "run_ok oss osc dirs (snd ?s) cmds" "line_ok (command_line cmd)"
    "\<forall>cmd \<in> set cmds. line_ok (command_line cmd)"
    using Cons.prems(5,6) same_state_spec [OF same] same_state_run [OF same_state_spec(5) [OF same]] by simp_all
  have inp: "avail (k_in k) = answer oss dirs ?a cmd @ replies oss osc dirs (snd ?s) cmds @ rest"
    using Cons.prems(7) same_state_spec [OF same] same_state_run [OF same_state_spec(5) [OF same]] by simp
  have "client_shows ?a ?c" "c_sock ?c = Some k" using Cons.prems(1,3) by (simp_all add: client_shows_say)
  from client_step [OF this Cons.prems(4) junk ok(1) inp] obtain c' k' where
    c': "parseline osc ?c (command_line cmd) = Inr (fst ?s, c')" "c_sock c' = Some k'"
      "k_out k' = k_out k @ request_wire cmd @ upload osc ?a cmd" "avail (k_in k') = replies oss osc dirs (snd ?s) cmds @ rest"
      "all_sent k'" "client_shows (snd ?s) c'" "c_prompt c' = c_prompt c" "c_running c'" using Cons.prems(2) by auto
  have "client_main osc c (typed_lines (map command_line (cmd # cmds))) = client_main osc c' (typed_lines (map command_line cmds))"
    using client_main_line [OF Cons.prems(2) ok(3) c'(1) spec_step_result] by simp
  moreover from Cons.IH [OF c'(6,8,2,5) ok(2,4) c'(4)] c'(3,7) show ?case
    using same_state_spec [OF same] same_state_run [OF same_state_spec(5) [OF same]] calculation by auto
qed

section \<open>The loop of the server\<close>

lemma serve_events_runs:
  assumes "os_ok oss"
  shows "server_shows oss dirs fd a v \<Longrightarrow> v_socks v fd = Some k \<Longrightarrow> all_sent k \<Longrightarrow> run_ok oss osc dirs a cmds \<Longrightarrow>
    avail (k_in k) = requests oss osc dirs a cmds @ rest \<Longrightarrow>
    \<exists>v' k'. serve_events oss v (replicate (length cmds) (Readable fd)) = Inr v' \<and> v_socks v' fd = Some k'
      \<and> k_out k' = k_out k @ replies oss osc dirs a cmds \<and> avail (k_in k') = rest
      \<and> server_shows oss dirs fd (snd (spec_run oss osc dirs a cmds)) v'"
proof (induction cmds arbitrary: a v k)
  case (Cons cmd cmds)
  let ?s = "spec_step oss osc dirs a cmd"
  have ok: "spec_ok oss osc dirs a cmd" "run_ok oss osc dirs (snd ?s) cmds" using Cons.prems(4) by simp_all
  have inp: "avail (k_in k) = request_wire cmd @ upload osc a cmd @ requests oss osc dirs (snd ?s) cmds @ rest"
    using Cons.prems(5) by simp
  from server_step [OF Cons.prems(1-3) assms ok(1) inp] obtain v' k' where
    v': "serve_request oss v fd = Inr v'" "v_socks v' fd = Some k'" "k_out k' = k_out k @ answer oss dirs a cmd"
      "avail (k_in k') = requests oss osc dirs (snd ?s) cmds @ rest" "all_sent k'" "server_shows oss dirs fd (snd ?s) v'" by blast
  from Cons.IH [OF v'(6,2,5) ok(2) v'(4)] v'(1,3) show ?case by (auto simp: split_beta)
qed simp

section \<open>From the start\<close>

definition start_view :: "file_map \<Rightarrow> path \<Rightarrow> file_map \<Rightarrow> path \<Rightarrow> view" where
  "start_view lfiles lcwd rfiles rcwd = \<lparr>local_files = lfiles, remote_files = rfiles, here = lcwd, there = rcwd,
     shown = default_prompt @ bytes_of ''connection established'' @ [10]\<rparr>"

text \<open>The server can be started: its directory exists, is absolute and can be looked up, and holds nothing of the name \<open>NULL\<close>.\<close>

definition start_ok :: "os \<Rightarrow> file_map \<Rightarrow> path list \<Rightarrow> path \<Rightarrow> bool" where
  "start_ok oss files dirs cwd \<longleftrightarrow> dir_ok oss dirs cwd
     \<and> \<not> os_stat_error oss (os_resolve oss cwd null_path) \<and> files (os_resolve oss cwd null_path) = None \<and> os_resolve oss cwd null_path \<notin> set dirs"

lemma serve_first:
  assumes "os_ok oss" and start: "start_ok oss files dirs cwd" and fd: "0 \<le> fd2ind fd" "fd2ind fd < int MAXCONN"
    and k: "all_sent ks" "avail (k_in ks) = post_wire OPEN_REQUEST 0 [] @ rest"
  shows "\<exists>v ks'. serve_events oss (server_init files dirs cwd) (Accepted fd ks True # Readable fd # evs) = serve_events oss v evs
    \<and> v_socks v fd = Some ks' \<and> k_out ks' = k_out ks @ post_wire OPEN_REPLY 1 [] \<and> avail (k_in ks') = rest \<and> all_sent ks'
    \<and> server_shows oss dirs fd (start_view lfiles lcwd files cwd) v"
proof -
  let ?v = "(server_init files dirs cwd)\<lparr>v_socks := [fd \<mapsto> ks], v_watch := [fd]\<rparr>"
  have init: "serve_event oss (server_init files dirs cwd) (Accepted fd ks True) = Inr ?v" by (simp add: server_init_def)
  have d: "cwd \<in> set dirs" "\<not> os_stat_error oss cwd" "cwd \<noteq> []" "\<forall>p. os_resolve oss p cwd = cwd" using start by (simp_all add: start_ok_def dir_ok_def)
  then have wf: "server_wf oss ?v" "fd_ok ?v fd" "v_dft ?v \<noteq> []" "fd \<in> set (v_watch ?v)"
    "\<not> os_stat_error oss (v_dft ?v)"
    using fd by (auto simp: server_wf_def server_init_def watched_def fd_ok_def)
  have w: "work_dir oss ?v fd = Some cwd"
    using start fd by (simp add: work_dir_def fs_exists_def Let_def server_init_def start_ok_def nat_less_iff)
  let ?c = "c_say (client_init lfiles lcwd []) default_prompt"
  have "v_socks ?v fd = Some ks" by simp
  from serve_open [OF wf this k(1) w k(2), of ?c] obtain v ks' where
    v: "serve_request oss ?v fd = Inr v" "v_socks v fd = Some ks'" "k_out ks' = k_out ks @ post_wire OPEN_REPLY 1 []"
      "avail (k_in ks') = rest" "all_sent ks'" "server_shows oss (v_dirs ?v) fd (opened ?v ?c) v" by blast
  moreover have "opened ?v ?c = start_view lfiles lcwd files cwd" "v_dirs ?v = dirs"
    by (simp_all add: opened_def start_view_def client_init_def server_init_def)
  ultimately show ?thesis using init by (auto simp del: serve_event.simps(2))
qed

lemma client_first:
  assumes "32 \<notin> set ip" and "length (open_prompt ip port) < MAXLINE" and "line_ok (open_line ip port)" and "all_sent kc"
    and "avail (k_in kc) = post_wire OPEN_REPLY 1 [] @ rest" and "length (os_junk osc) = MAXBUF"
  shows "\<exists>c kc'. client_main osc (client_init lfiles lcwd [Some kc]) (typed_lines (open_line ip port # ls)) = client_main osc c (typed_lines ls)
    \<and> c_sock c = Some kc' \<and> k_out kc' = k_out kc @ post_wire OPEN_REQUEST 0 [] \<and> avail (k_in kc') = rest \<and> all_sent kc'
    \<and> c_running c \<and> c_prompt c = open_prompt ip port \<and> client_shows (start_view lfiles lcwd rfiles rcwd) c"
proof -
  let ?init = "client_init lfiles lcwd [Some kc]"
  let ?c = "c_say ?init (c_prompt ?init)"
  have "c_net ?c = Some kc # []" by (simp add: client_init_def)
  from cl_open_runs [OF assms(1,2) this assms(4-6)] obtain c kc' where
    c: "parseline osc ?c (open_line ip port) = Inr (0, c)" "c_sock c = Some kc'"
      "k_out kc' = k_out kc @ post_wire OPEN_REQUEST 0 []" "avail (k_in kc') = rest" "all_sent kc'" "c_running c"
      "c_prompt c = open_prompt ip port" "client_shows (start_view lfiles lcwd rfiles rcwd) c"
    by (auto simp: runs_def parseline_open client_shows_def start_view_def client_init_def)
  have "c_running ?init" by (simp add: client_init_def)
  from client_main_line [OF this assms(3) c(1)] c(2-8) show ?thesis by auto
qed

lemma programs_run:
  assumes "os_ok oss" and "length (os_junk osc) = MAXBUF" and "start_ok oss rfiles dirs rcwd"
    and "length argv = 3" and "pton (argv ! 1) = Some addr" and "bind_ok addr (of_int (atoi (argv ! 2)))"
    and "0 \<le> fd2ind fd" and "fd2ind fd < int MAXCONN" and "all_sent ks" and "all_sent kc"
    and "32 \<notin> set ip" and "length (open_prompt ip port) < MAXLINE" and "line_ok (open_line ip port)"
    and "run_ok oss osc dirs (start_view lfiles lcwd rfiles rcwd) cmds" and "\<forall>cmd \<in> set cmds. line_ok (command_line cmd)"
    and "avail (k_in ks) = post_wire OPEN_REQUEST 0 [] @ requests oss osc dirs (start_view lfiles lcwd rfiles rcwd) cmds"
    and "avail (k_in kc) = post_wire OPEN_REPLY 1 [] @ replies oss osc dirs (start_view lfiles lcwd rfiles rcwd) cmds"
  shows "\<exists>v c ks' kc'. let a = prompted oss osc dirs (open_prompt ip port) (start_view lfiles lcwd rfiles rcwd) cmds in
      server_main oss pton bind_ok True True rfiles dirs rcwd argv
        (Accepted fd ks True # replicate (Suc (length cmds)) (Readable fd)) = Inr (Inr v)
    \<and> client_main osc (client_init lfiles lcwd [Some kc]) (typed_lines (open_line ip port # map command_line cmds)) = Inr c
    \<and> v_files v = remote_files a \<and> c_files c = local_files a \<and> c_printed c = shown a
    \<and> v_socks v fd = Some ks' \<and> k_out ks' = k_out ks @ avail (k_in kc)
    \<and> c_sock c = Some kc' \<and> k_out kc' = k_out kc @ avail (k_in ks)"
proof -
  let ?a = "start_view lfiles lcwd rfiles rcwd"
  have sin: "avail (k_in ks) = post_wire OPEN_REQUEST 0 [] @ requests oss osc dirs ?a cmds @ []" using assms(16) by simp
  from serve_first [OF assms(1,3,7,8,9) sin, of "replicate (length cmds) (Readable fd)" lfiles lcwd] obtain v1 ks1 where
    v1: "serve_events oss (server_init rfiles dirs rcwd) (Accepted fd ks True # replicate (Suc (length cmds)) (Readable fd))
        = serve_events oss v1 (replicate (length cmds) (Readable fd))"
    "v_socks v1 fd = Some ks1" "k_out ks1 = k_out ks @ post_wire OPEN_REPLY 1 []"
    "avail (k_in ks1) = requests oss osc dirs ?a cmds @ []" "all_sent ks1" "server_shows oss dirs fd ?a v1"
    unfolding replicate_Suc by blast
  from serve_events_runs [OF assms(1) v1(6,2,5) assms(14) v1(4)] obtain v ks' where
    v: "serve_events oss v1 (replicate (length cmds) (Readable fd)) = Inr v" "v_socks v fd = Some ks'"
      "k_out ks' = k_out ks @ avail (k_in kc)" "server_shows oss dirs fd (snd (spec_run oss osc dirs ?a cmds)) v"
    using v1(3) assms(17) by auto
  have cin: "avail (k_in kc) = post_wire OPEN_REPLY 1 [] @ replies oss osc dirs ?a cmds @ []" using assms(17) by simp
  from client_first [OF assms(11-13,10) cin assms(2), of lfiles lcwd "map command_line cmds" rfiles rcwd] obtain c1 kc1 where
    c1: "client_main osc (client_init lfiles lcwd [Some kc]) (typed_lines (open_line ip port # map command_line cmds))
        = client_main osc c1 (typed_lines (map command_line cmds))"
      "c_sock c1 = Some kc1" "k_out kc1 = k_out kc @ post_wire OPEN_REQUEST 0 []"
      "avail (k_in kc1) = replies oss osc dirs ?a cmds @ []" "all_sent kc1" "c_running c1" "c_prompt c1 = open_prompt ip port"
      "client_shows ?a c1" by blast
  from client_main_runs [OF assms(2) c1(8,6,2,5) assms(14,15) c1(4)] obtain c kc' where
    c: "client_main osc c1 (typed_lines (map command_line cmds)) = Inr c" "c_sock c = Some kc'"
      "k_out kc' = k_out kc @ avail (k_in ks)" "client_shows (prompted oss osc dirs (open_prompt ip port) ?a cmds) c"
    using c1(3,7) assms(16) by auto
  have "same_state (snd (spec_run oss osc dirs ?a cmds)) (prompted oss osc dirs (open_prompt ip port) ?a cmds)"
    by (rule prompted_state) simp
  moreover have "server_main oss pton bind_ok True True rfiles dirs rcwd argv
      (Accepted fd ks True # replicate (Suc (length cmds)) (Readable fd)) = Inr (Inr v)"
    using v1(1) v(1) assms(4-6) by (simp add: server_main_def Let_def del: serve_events.simps(2))
  ultimately show ?thesis using v c1(1) c
    by (intro exI [of _ v] exI [of _ c] exI [of _ ks'] exI [of _ kc'])
       (simp add: Let_def server_shows_def client_shows_def same_state_def)
qed

section \<open>Properties\<close>

text \<open>C5: The two programs together. A user starts the server and the client, opens a connection, types any number of
  well-behaved commands and ends the input. If each program receives, in any segmentation, the bytes of the session that
  the specification describes, then \<open>main\<close> of the server handles one event per line and \<open>main\<close> of the client returns; the
  files on both machines and the text on the screen, prompts included, are what the specification says; and each program has
  sent exactly the bytes that the other one has received, so that the two streams are the two directions of one connection.
\<close>

theorem ftp_programs_run_a_session:
  assumes "os_ok oss" and "length (os_junk osc) = MAXBUF" and "start_ok oss rfiles dirs rcwd"
    and "length argv = 3" and "pton (argv ! 1) = Some addr" and "bind_ok addr (of_int (atoi (argv ! 2)))"
    and "0 \<le> fd2ind fd" and "fd2ind fd < int MAXCONN" and "all_sent ks" and "all_sent kc"
    and "32 \<notin> set ip" and "length (open_prompt ip port) < MAXLINE" and "line_ok (open_line ip port)"
    and "run_ok oss osc dirs (start_view lfiles lcwd rfiles rcwd) cmds" and "\<forall>cmd \<in> set cmds. line_ok (command_line cmd)"
    and "avail (k_in ks) = post_wire OPEN_REQUEST 0 [] @ requests oss osc dirs (start_view lfiles lcwd rfiles rcwd) cmds"
    and "avail (k_in kc) = post_wire OPEN_REPLY 1 [] @ replies oss osc dirs (start_view lfiles lcwd rfiles rcwd) cmds"
  shows "\<exists>v c ks' kc'. let a = prompted oss osc dirs (open_prompt ip port) (start_view lfiles lcwd rfiles rcwd) cmds in
      server_main oss pton bind_ok True True rfiles dirs rcwd argv
        (Accepted fd ks True # replicate (Suc (length cmds)) (Readable fd)) = Inr (Inr v)
    \<and> client_main osc (client_init lfiles lcwd [Some kc]) (typed_lines (open_line ip port # map command_line cmds)) = Inr c
    \<and> v_files v = remote_files a \<and> c_files c = local_files a \<and> c_printed c = shown a
    \<and> v_socks v fd = Some ks' \<and> k_out ks' = k_out ks @ avail (k_in kc)
    \<and> c_sock c = Some kc' \<and> k_out kc' = k_out kc @ avail (k_in ks)"
  by (rule programs_run [where argv = argv and pton = pton and bind_ok = bind_ok, OF assms])

text \<open>The user of the example lists the files, gets one, puts one, fails to change the directory, and gets his own file back.\<close>

definition demo_start :: view where
  "demo_start = start_view [[47, 98] \<mapsto> [7, 8]] [47] [[47, 97] \<mapsto> [1, 2, 3]] [47]"

definition demo_up :: sock where
  "demo_up = demo_sock (post_wire OPEN_REQUEST 0 [] @ requests demo_unix demo_unix [[47]] demo_start demo_commands)"

definition demo_down :: sock where
  "demo_down = demo_sock (post_wire OPEN_REPLY 1 [] @ replies demo_unix demo_unix [[47]] demo_start demo_commands)"

lemma demo_start_ok: "start_ok demo_unix [[47, 97] \<mapsto> [1, 2, 3]] [[47]] [47]"
  by (simp add: start_ok_def dir_ok_def null_path_def)

lemma demo_start_run: "run_ok demo_unix demo_unix [[47]] demo_start demo_commands"
  using same_state_run [of demo_view demo_start demo_unix demo_unix "[[47]]" demo_commands] demo_run(1)
  by (simp add: same_state_def demo_view_def demo_start_def start_view_def)

lemma demo_lines:
  "\<forall>cmd \<in> set demo_commands. line_ok (command_line cmd)" "line_ok (open_line [49] [50])"
  "length (open_prompt [49] [50]) < MAXLINE"
  by code_simp+

lemma demo_args: "length [''ftp_server'', ''x'', ''1''] = 3" "0 \<le> fd2ind 5" "fd2ind 5 < int MAXCONN" "32 \<notin> set [49 :: u8]"
  by (simp_all add: fd2ind_def MAXCONN_def)

lemma demo_socks: "all_sent demo_up" "all_sent demo_down"
  "avail (k_in demo_up) = post_wire OPEN_REQUEST 0 [] @ requests demo_unix demo_unix [[47]] demo_start demo_commands"
  "avail (k_in demo_down) = post_wire OPEN_REPLY 1 [] @ replies demo_unix demo_unix [[47]] demo_start demo_commands"
  by (simp_all only: demo_up_def demo_down_def demo_sock_simps)

lemma demo_session_result:
  "remote_files (prompted demo_unix demo_unix [[47]] p demo_start demo_commands) [47, 98] = Some [7, 8]"
  "local_files (prompted demo_unix demo_unix [[47]] p demo_start demo_commands) [47, 97] = Some [1, 2, 3]"
  by (simp_all add: demo_commands_def demo_start_def start_view_def known_def carried_def MAXBUF_def display_def)

lemma ftp_programs_run_a_session_witness:
  "\<exists>v c. server_main demo_unix (\<lambda>s. Some 1) (\<lambda>a p. True) True True [[47, 97] \<mapsto> [1, 2, 3]] [[47]] [47] [''ftp_server'', ''x'', ''1'']
      (Accepted 5 demo_up True # replicate (Suc (length demo_commands)) (Readable 5)) = Inr (Inr v)
    \<and> client_main demo_unix (client_init [[47, 98] \<mapsto> [7, 8]] [47] [Some demo_down])
        (typed_lines (open_line [49] [50] # map command_line demo_commands)) = Inr c
    \<and> v_files v [47, 98] = Some [7, 8] \<and> c_files c [47, 97] = Some [1, 2, 3]"
proof -
  have "\<exists>v c ks' kc'. let a = prompted demo_unix demo_unix [[47]] (open_prompt [49] [50]) demo_start demo_commands in
      server_main demo_unix (\<lambda>s. Some 1) (\<lambda>a p. True) True True [[47, 97] \<mapsto> [1, 2, 3]] [[47]] [47] [''ftp_server'', ''x'', ''1'']
        (Accepted 5 demo_up True # replicate (Suc (length demo_commands)) (Readable 5)) = Inr (Inr v)
    \<and> client_main demo_unix (client_init [[47, 98] \<mapsto> [7, 8]] [47] [Some demo_down])
        (typed_lines (open_line [49] [50] # map command_line demo_commands)) = Inr c
    \<and> v_files v = remote_files a \<and> c_files c = local_files a \<and> c_printed c = shown a
    \<and> v_socks v 5 = Some ks' \<and> k_out ks' = k_out demo_up @ avail (k_in demo_down)
    \<and> c_sock c = Some kc' \<and> k_out kc' = k_out demo_down @ avail (k_in demo_up)"
    unfolding demo_start_def
    by (rule ftp_programs_run_a_session [where pton = "\<lambda>s. Some 1" and bind_ok = "\<lambda>a p. True" and addr = 1,
        OF demo_unix_ok demo_unix_simps(2) demo_start_ok demo_args(1) refl TrueI demo_args(2,3) demo_socks(1,2) demo_args(4)
          demo_lines(3,2) demo_start_run [unfolded demo_start_def] demo_lines(1) demo_socks(3,4) [unfolded demo_start_def]])
  with demo_session_result [of "open_prompt [49] [50]"] show ?thesis unfolding Let_def by metis
qed

end
