(* ===== verification/Ftp_Programs.thy ===== *)
theory Ftp_Programs
  imports Ftp_Main
begin

text \<open>
  The two programs whatever arrives: if both run to the end and each has received exactly the bytes that the other one sent,
  then these are the bytes of the session that the specification describes. The proof follows the causal order of the
  posts: what a program sends first does not depend on what it receives later.
\<close>

section \<open>The server only adds to what it has sent\<close>

definition adds :: "u8 list \<Rightarrow> int \<Rightarrow> server \<Rightarrow> bool" where
  "adds base fd v \<longleftrightarrow> (\<forall>k. v_socks v fd = Some k \<longrightarrow> (\<exists>y. k_out k = base @ y))"

lemma adds_simps [simp]: "adds base fd (tell v m) = adds base fd v" "adds base fd (v\<lparr>v_cwd := w\<rparr>) = adds base fd v"
  "adds base fd (v\<lparr>v_type := t\<rparr>) = adds base fd v" "adds base fd (v\<lparr>v_files := f\<rparr>) = adds base fd v"
  "adds base fd (v\<lparr>v_watch := ws\<rparr>) = adds base fd v" "adds base fd (v\<lparr>v_cwds := ps\<rparr>) = adds base fd v"
  "adds base fd (back_home os v) = adds base fd v" "adds base fd (v\<lparr>v_socks := (v_socks v)(fd := None)\<rparr>)"
  "adds base fd (v\<lparr>v_watch := ws, v_socks := (v_socks v)(fd := None)\<rparr>)"
  "adds base fd (v\<lparr>v_socks := (v_socks v)(fd \<mapsto> k)\<rparr>) = (\<exists>y. k_out k = base @ y)"
  by (simp_all add: adds_def)

lemma adds_reply: "adds base fd v \<Longrightarrow> returns (\<lambda>(s, v'). adds base fd v') (reply v fd t buf len s)"
  by (cases "v_socks v fd") (auto simp: reply_def srv_error_def adds_def intro!: returns_bind [OF send_post_grows [of _ base]])

lemma adds_receive: "adds base fd v \<Longrightarrow> returns (\<lambda>(len, buf, t, v'). adds base fd v') (receive v fd buf)"
  by (cases "v_socks v fd") (auto simp: receive_def adds_def intro!: returns_bind [OF recv_post_out])

interpretation adds: handler_invariant "adds base fd" fd for base fd
  by unfold_locales (simp_all add: adds_reply adds_receive cwd_set_def)

lemma serve_request_adds: "adds base fd v \<Longrightarrow> returns (adds base fd) (serve_request os v fd)"
  unfolding serve_request_def Let_def
  by (rule returns_bind [OF adds_receive], assumption)
     (auto simp: chdir_def Let_def intro!: returns_bind [OF returns_True [of "cwd_get v fd" for v]]
       returns_bind [OF returns_True [of "fs_lookup os v p" for v p]] returns_bind [OF adds.dispatch_keeps])

lemma serve_events_adds: "adds base fd v \<Longrightarrow> returns (adds base fd) (serve_events os v (replicate n (Readable fd)))"
proof (induction n arbitrary: v)
  case (Suc n)
  show ?case using returns_bind [OF serve_request_adds [OF Suc.prems] Suc.IH] by simp
qed simp

section \<open>The client only adds to what it has sent\<close>

definition c_adds :: "u8 list \<Rightarrow> client \<Rightarrow> bool" where
  "c_adds base c \<longleftrightarrow> (\<forall>k. c_sock c = Some k \<longrightarrow> (\<exists>y. k_out k = base @ y))"

lemma c_adds_simps [simp]: "c_adds base (c_say c m) = c_adds base c" "c_adds base (c\<lparr>c_files := f\<rparr>) = c_adds base c"
  "c_adds base (c\<lparr>c_status := s\<rparr>) = c_adds base c"
  by (simp_all add: c_adds_def)

lemma grown_c_adds: "grown base c \<Longrightarrow> c_adds base c"
  by (auto simp: grown_def c_adds_def)

lemma c_error_adds [simp]: "returns (\<lambda>(r, c'). c_adds base c') (cl_error c msg) = c_adds base c"
  by (simp add: cl_error_def)

lemma c_send_adds: "c_adds base c \<Longrightarrow> returns (\<lambda>(r, c'). c_adds base c') (c_send c t buf len)"
  by (cases "c_sock c")
     (auto simp: c_adds_def c_send_def cl_error_def intro!: returns_bind [OF send_post_grows [of _ base]])

lemma c_recv_adds: "c_adds base c \<Longrightarrow> returns (\<lambda>(len, buf, c'). c_adds base c') (c_recv c buf)"
  by (cases "c_sock c") (auto simp: c_adds_def c_recv_def intro!: returns_bind [OF recv_post_out])

lemma c_recv_data_adds: "c_adds base c \<Longrightarrow> returns (\<lambda>(len, buf, c'). c_adds base c') (c_recv_data c buf)"
  unfolding c_recv_data_def by (rule returns_bind [OF c_recv_adds]) auto

lemmas client_adds = any_file returns_bind [OF c_recv_adds] returns_bind [OF c_recv_data_adds] returns_bind [OF c_send_adds]

lemma command_adds: "c_adds base c \<Longrightarrow> returns (\<lambda>(r, c'). c_adds base c') (parseline os c (command_line cmd))"
  by (cases cmd; simp only: parseline_command)
     (auto simp: cl_ls_def cl_cd_def cl_get_def cl_put_def cl_sha_def the_arg_def Let_def intro!: client_adds)

lemma client_main_adds:
  "c_adds base c \<Longrightarrow> \<forall>cmd \<in> set cmds. line_ok (command_line cmd) \<Longrightarrow>
   returns (c_adds base) (client_main os c (typed_lines (map command_line cmds)))"
proof (induction cmds arbitrary: c)
  case Nil
  then show ?case by (subst client_main.simps) (simp add: typed_lines_def fgets_def MAXLINE_def Let_def)
next
  case (Cons cmd cmds)
  show ?case
  proof (cases "c_running c")
    case True
    have "returns (\<lambda>(r, c'). c_adds base c') (parseline os (c_say c (c_prompt c)) (command_line cmd))"
      using Cons.prems(1) by (intro command_adds) simp
    then show ?thesis using Cons True by (auto simp: client_main_step elim!: returns_bind)
  next
    case False
    then show ?thesis using Cons.prems(1) by (subst client_main.simps) simp
  qed
qed

section \<open>The posts of the loops\<close>

text \<open>The answer to a request comes before anything that follows the request is read, a \<open>put\<close> included.\<close>

lemma answer_is_first:
  assumes sh: "server_shows oss dirs fd a v" and k: "v_socks v fd = Some ks" "all_sent ks"
    and ok: "os_ok oss" "spec_ok oss osc dirs a cmd" and inp: "avail (k_in ks) = request_wire cmd @ y"
    and serve: "serve_request oss v fd = Inr v1"
  shows "adds (k_out ks @ answer oss dirs a cmd) fd v1"
proof (cases "\<exists>n. cmd = Put n")
  case True
  then obtain n where cmd: "cmd = Put n" by blast
  with ok(2) inp have "name_ok n" "avail (k_in ks) = request_wire (Put n) @ y" by simp_all
  from returnsD [OF serve_put_replied [OF sh k this] serve] cmd show ?thesis by (auto simp: replied_def adds_def)
next
  case False
  then have "avail (k_in ks) = request_wire cmd @ upload osc a cmd @ y" using inp by (cases cmd) auto
  from server_step [OF sh k ok this] serve show ?thesis by (auto simp: adds_def)
qed

lemma loops_posts:
  assumes ok: "os_ok oss" "length (os_junk osc) = MAXBUF"
  shows "server_shows oss dirs fd a v \<Longrightarrow> v_socks v fd = Some ks \<Longrightarrow> all_sent ks \<Longrightarrow>
    client_shows b c \<Longrightarrow> same_state a b \<Longrightarrow> c_running c \<Longrightarrow> c_sock c = Some kc \<Longrightarrow> all_sent kc \<Longrightarrow>
    run_ok oss osc dirs a cmds \<Longrightarrow> \<forall>cmd \<in> set cmds. line_ok (command_line cmd) \<Longrightarrow>
    serve_events oss v (replicate (length cmds) (Readable fd)) = Inr v' \<Longrightarrow>
    client_main osc c (typed_lines (map command_line cmds)) = Inr c' \<Longrightarrow>
    v_socks v' fd = Some ks' \<Longrightarrow> k_out ks' = k_out ks @ avail (k_in kc) \<Longrightarrow>
    c_sock c' = Some kc' \<Longrightarrow> k_out kc' = k_out kc @ avail (k_in ks) \<Longrightarrow>
    avail (k_in kc) = replies oss osc dirs a cmds \<and> avail (k_in ks) = requests oss osc dirs a cmds"
proof (induction cmds arbitrary: a b v c ks kc)
  case Nil
  then show ?case by (auto simp: client_main_ends)
next
  case (Cons cmd cmds)
  note prem = Cons.prems
  let ?s = "spec_step oss osc dirs a cmd" and ?b = "display b (c_prompt c)" and ?c = "c_say c (c_prompt c)"
  have same: "same_state a ?b" using prem(5) by simp
  have spec: "spec_ok oss osc dirs a cmd" "run_ok oss osc dirs (snd ?s) cmds" "line_ok (command_line cmd)"
    "\<forall>cmd \<in> set cmds. line_ok (command_line cmd)" using prem(9,10) by simp_all
  have specb: "spec_ok oss osc dirs ?b cmd" using spec(1) same_state_spec(1) [OF same] by simp
  obtain v1 where v1: "serve_request oss v fd = Inr v1" "serve_events oss v1 (replicate (length cmds) (Readable fd)) = Inr v'"
    using prem(11) by (auto simp: bind_res_Inr)
  have shc: "client_shows ?b ?c" "c_sock ?c = Some kc" "c_connected ?c" using prem(4,7) by (simp_all add: client_shows_def)
  obtain r c1 where c1: "parseline osc ?c (command_line cmd) = Inr (r, c1)"
    "client_main osc (if 0 < r then c_say c1 (serror ''command not supported'') else c1) (typed_lines (map command_line cmds)) = Inr c'"
    using prem(6,12) spec(3) by (auto simp: client_main_step bind_res_Inr)
  have later: "\<exists>y. k_out kc' = base @ y" if "c_adds base c1" for base
  proof -
    have "c_adds base (if 0 < r then c_say c1 (serror ''command not supported'') else c1)" using that by simp
    from returnsD [OF client_main_adds [OF this spec(4)] c1(2)] prem(15) show ?thesis by (simp add: c_adds_def)
  qed
  from returnsD [OF command_sends_request [OF shc(3,2) prem(8) specb] c1(1)]
  have "c_adds (k_out kc @ request_wire cmd) c1" by (simp add: grown_c_adds)
  then obtain y where y: "avail (k_in ks) = request_wire cmd @ y" using later prem(16) by fastforce
  note answer_is_first [OF prem(1-3) ok(1) spec(1) y v1(1)]
  from returnsD [OF serve_events_adds [OF this] v1(2)] prem(13,14) obtain z where
    z: "avail (k_in kc) = answer oss dirs a cmd @ z" by (auto simp: adds_def)
  then have "avail (k_in kc) = answer oss dirs ?b cmd @ z" using same_state_spec(2) [OF same] by simp
  from client_step [OF shc(1,2) prem(8) ok(2) specb this] c1(1) obtain kc1 where
    c1': "r = fst (spec_step oss osc dirs ?b cmd)" "c_sock c1 = Some kc1" "k_out kc1 = k_out kc @ request_wire cmd @ upload osc a cmd"
      "avail (k_in kc1) = z" "all_sent kc1" "client_shows (snd (spec_step oss osc dirs ?b cmd)) c1" "c_running c1"
    using prem(6) same_state_spec(3) [OF same] by auto
  have "c_adds (k_out kc1) c1" using c1'(2) by (simp add: c_adds_def)
  then obtain y' where y': "avail (k_in ks) = request_wire cmd @ upload osc a cmd @ y'"
    using later prem(16) c1'(3) by fastforce
  from server_step [OF prem(1-3) ok(1) spec(1) y'] v1(1) obtain ks1 where
    v1': "v_socks v1 fd = Some ks1" "k_out ks1 = k_out ks @ answer oss dirs a cmd" "avail (k_in ks1) = y'" "all_sent ks1"
      "server_shows oss dirs fd (snd ?s) v1" by auto
  have "\<not> 0 < r" using c1'(1) spec_step_result by (metis not_less)
  then have cl: "client_main osc c1 (typed_lines (map command_line cmds)) = Inr c'" using c1(2) by simp
  have outs: "k_out ks' = k_out ks1 @ avail (k_in kc1)" "k_out kc' = k_out kc1 @ avail (k_in ks1)"
    using prem(14,16) v1'(2,3) c1'(3,4) y' z by simp_all
  from Cons.IH [OF v1'(5,1,4) c1'(6) same_state_spec(5) [OF same] c1'(7,2,5) spec(2,4) v1(2) cl prem(13) outs(1) prem(15) outs(2)]
  show ?case using c1'(4) v1'(3) y' z by simp
qed

section \<open>From the start\<close>

text \<open>The client sends the request to open a connection whatever it receives, and drops the connection if the reply is bad.\<close>

lemma open_sends_request:
  assumes "32 \<notin> set ip" and "c_net c = [Some kc]" and "all_sent kc" and "parseline osc c (open_line ip port) = Inr (r, c')"
  shows "c_adds (k_out kc @ post_wire OPEN_REQUEST 0 []) c'"
proof -
  let ?base = "k_out kc @ post_wire OPEN_REQUEST 0 []" and ?c = "c\<lparr>c_sock := Some kc, c_net := []\<rparr>"
  have "c_sock ?c = Some kc" by simp
  from c_send_request [OF this assms(3), of "[]" OPEN_REQUEST "[]"] obtain k1 where
    k1: "c_send ?c OPEN_REQUEST [] 0 = Inr (0, ?c\<lparr>c_sock := Some k1\<rparr>)" "k_out k1 = ?base" by auto
  then have sent: "c_adds ?base (c\<lparr>c_net := [], c_sock := Some k1\<rparr>)" by (simp add: c_adds_def)
  have none: "c_adds ?base (c\<lparr>c_sock := None\<rparr>)" for c by (simp add: c_adds_def)
  have set: "c_adds base (c\<lparr>c_connected := b, c_prompt := p, c_printed := t\<rparr>) = c_adds base c" for base c b p t
    by (simp add: c_adds_def)
  have mem: "(32 :: u8) \<in> set (ip @ [32] @ port)" by simp
  have "returns (\<lambda>(r, c'). c_adds ?base c') (cl_open osc c (Some (ip @ [32] @ port)))"
    using mem by (simp add: cl_open_def the_arg_def assms(2) k1(1) Let_def)
      (rule returns_bind [OF c_recv_adds [OF sent]], auto simp: none set cl_error_def Let_def)
  from returnsD [OF this] assms(4) show ?thesis by (simp add: parseline_open)
qed

lemma programs_posts:
  assumes ok: "os_ok oss" "length (os_junk osc) = MAXBUF" and start: "start_ok oss rfiles dirs rcwd"
    and fd: "0 \<le> fd2ind fd" "fd2ind fd < int MAXCONN" and all: "all_sent ks" "all_sent kc"
    and line: "32 \<notin> set ip" "length (open_prompt ip port) < MAXLINE" "line_ok (open_line ip port)"
    and cmds: "run_ok oss osc dirs (start_view lfiles lcwd rfiles rcwd) cmds" "\<forall>cmd \<in> set cmds. line_ok (command_line cmd)"
    and server: "serve_events oss (server_init rfiles dirs rcwd) (Accepted fd ks True # Readable fd # replicate (length cmds) (Readable fd)) = Inr v"
    and client: "client_main osc (client_init lfiles lcwd [Some kc]) (typed_lines (open_line ip port # map command_line cmds)) = Inr c"
    and socks: "v_socks v fd = Some ks'" "k_out ks' = k_out ks @ avail (k_in kc)"
      "c_sock c = Some kc'" "k_out kc' = k_out kc @ avail (k_in ks)"
  shows "avail (k_in ks) = post_wire OPEN_REQUEST 0 [] @ requests oss osc dirs (start_view lfiles lcwd rfiles rcwd) cmds
    \<and> avail (k_in kc) = post_wire OPEN_REPLY 1 [] @ replies oss osc dirs (start_view lfiles lcwd rfiles rcwd) cmds"
proof -
  let ?a = "start_view lfiles lcwd rfiles rcwd" and ?init = "client_init lfiles lcwd [Some kc]"
  have init: "c_running ?init" "c_net (c_say ?init (c_prompt ?init)) = [Some kc]" by (simp_all add: client_init_def)
  obtain r c1 where c1: "parseline osc (c_say ?init (c_prompt ?init)) (open_line ip port) = Inr (r, c1)"
    "client_main osc (if 0 < r then c_say c1 (serror ''command not supported'') else c1) (typed_lines (map command_line cmds)) = Inr c"
    using client init(1) line(3) by (auto simp: client_main_step bind_res_Inr)
  from open_sends_request [OF line(1) init(2) all(2) c1(1)]
  have "c_adds (k_out kc @ post_wire OPEN_REQUEST 0 []) (if 0 < r then c_say c1 (serror ''command not supported'') else c1)" by simp
  from returnsD [OF client_main_adds [OF this cmds(2)] c1(2)] socks(3,4) obtain y where
    y: "avail (k_in ks) = post_wire OPEN_REQUEST 0 [] @ y" by (auto simp: c_adds_def)
  from serve_first [OF ok(1) start fd all(1) y, of "replicate (length cmds) (Readable fd)" lfiles lcwd] server obtain v1 ks1 where
    v1: "serve_events oss v1 (replicate (length cmds) (Readable fd)) = Inr v" "v_socks v1 fd = Some ks1"
      "k_out ks1 = k_out ks @ post_wire OPEN_REPLY 1 []" "avail (k_in ks1) = y" "all_sent ks1" "server_shows oss dirs fd ?a v1"
    by metis
  have "adds (k_out ks1) fd v1" using v1(2) by (simp add: adds_def)
  from returnsD [OF serve_events_adds [OF this] v1(1)] socks(1,2) v1(3) obtain z where
    z: "avail (k_in kc) = post_wire OPEN_REPLY 1 [] @ z" by (auto simp: adds_def)
  from client_first [OF line all(2) z ok(2), of lfiles lcwd "map command_line cmds" rfiles rcwd] client obtain c1 kc1 where
    c1: "client_main osc c1 (typed_lines (map command_line cmds)) = Inr c" "c_sock c1 = Some kc1"
      "k_out kc1 = k_out kc @ post_wire OPEN_REQUEST 0 []" "avail (k_in kc1) = z" "all_sent kc1" "c_running c1"
      "client_shows ?a c1" by metis
  have outs: "k_out ks' = k_out ks1 @ avail (k_in kc1)" "k_out kc' = k_out kc1 @ avail (k_in ks1)"
    using socks(2,4) v1(3,4) c1(3,4) y z by simp_all
  from loops_posts [OF ok v1(6,2,5) c1(7) same_state_simps(1) c1(6,2,5) cmds v1(1) c1(1) socks(1) outs(1) socks(3) outs(2)]
  show ?thesis using y z v1(4) c1(4) by simp
qed

section \<open>Properties\<close>

text \<open>C4: Let the user type an \<open>open\<close> and any number of well-behaved commands (\<open>run_ok\<close>: names fit into the buffers, files are
  below 2 GiB, the file of a \<open>put\<close> exists, \<open>cd\<close> does not name a regular file, \<open>get\<close> and \<open>put\<close> do not name a directory, targets
  can be written, names can be looked up, the output of a shell command fits into the buffer), each in a line that fits the
  client's buffer, and let the server's table have room for the descriptor. If the two programs then run to the end on one
  connection, one event of the server per line, each having received the bytes that the other one has sent, cut into any
  segments, then what has happened is what the specification says: the files on both machines, of which \<open>get\<close> and \<open>put\<close> carry
  the first 2 MiB, and all that the user has seen, prompts and messages included. The hypothesis on the bytes is TCP's promise
  and the two programs being alone on the connection; nothing is assumed about what the bytes are.
\<close>

theorem ftp_programs_refine_specification:
  assumes "os_ok oss" and "length (os_junk osc) = MAXBUF" and "start_ok oss rfiles dirs rcwd"
    and "0 \<le> fd2ind fd" and "fd2ind fd < int MAXCONN" and "all_sent ks" and "all_sent kc"
    and "32 \<notin> set ip" and "length (open_prompt ip port) < MAXLINE" and "line_ok (open_line ip port)"
    and "run_ok oss osc dirs (start_view lfiles lcwd rfiles rcwd) cmds" and "\<forall>cmd \<in> set cmds. line_ok (command_line cmd)"
    and "server_main oss pton bind_ok True True rfiles dirs rcwd argv
      (Accepted fd ks True # replicate (Suc (length cmds)) (Readable fd)) = Inr (Inr v)"
    and "client_main osc (client_init lfiles lcwd [Some kc]) (typed_lines (open_line ip port # map command_line cmds)) = Inr c"
    and "v_socks v fd = Some ks'" and "k_out ks' = k_out ks @ avail (k_in kc)"
    and "c_sock c = Some kc'" and "k_out kc' = k_out kc @ avail (k_in ks)"
  shows "let a = prompted oss osc dirs (open_prompt ip port) (start_view lfiles lcwd rfiles rcwd) cmds
    in v_files v = remote_files a \<and> c_files c = local_files a \<and> c_printed c = shown a"
proof -
  obtain addr where argv: "length argv = 3" "pton (argv ! 1) = Some addr" "bind_ok addr (of_int (atoi (argv ! 2)))"
    and srv: "serve_events oss (server_init rfiles dirs rcwd) (Accepted fd ks True # Readable fd # replicate (length cmds) (Readable fd)) = Inr v"
    using assms(13) unfolding server_main_def replicate_Suc
    by (auto simp: bind_res_Inr Let_def split: if_splits option.splits simp del: serve_events.simps)
  from programs_posts [OF assms(1-12) srv assms(14-18)] have
    "avail (k_in ks) = post_wire OPEN_REQUEST 0 [] @ requests oss osc dirs (start_view lfiles lcwd rfiles rcwd) cmds"
    "avail (k_in kc) = post_wire OPEN_REPLY 1 [] @ replies oss osc dirs (start_view lfiles lcwd rfiles rcwd) cmds" by blast+
  from programs_run [where argv = argv and pton = pton and bind_ok = bind_ok, OF assms(1-3) argv assms(4-12) this] assms(13,14) show ?thesis by (auto simp only: Let_def prod.inject sum.inject)
qed

lemma ftp_programs_refine_specification_witness:
  "\<exists>v c. server_main demo_unix (\<lambda>s. Some 1) (\<lambda>a p. True) True True [[47, 97] \<mapsto> [1, 2, 3]] [[47]] [47] [''ftp_server'', ''x'', ''1'']
      (Accepted 5 demo_up True # replicate (Suc (length demo_commands)) (Readable 5)) = Inr (Inr v)
    \<and> client_main demo_unix (client_init [[47, 98] \<mapsto> [7, 8]] [47] [Some demo_down])
        (typed_lines (open_line [49] [50] # map command_line demo_commands)) = Inr c
    \<and> c_printed c = shown (prompted demo_unix demo_unix [[47]] (open_prompt [49] [50]) demo_start demo_commands)"
proof -
  have run: "\<exists>v c ks' kc'. let a = prompted demo_unix demo_unix [[47]] (open_prompt [49] [50]) demo_start demo_commands in
      server_main demo_unix (\<lambda>s. Some 1) (\<lambda>a p. True) True True [[47, 97] \<mapsto> [1, 2, 3]] [[47]] [47] [''ftp_server'', ''x'', ''1'']
        (Accepted 5 demo_up True # replicate (Suc (length demo_commands)) (Readable 5)) = Inr (Inr v)
    \<and> client_main demo_unix (client_init [[47, 98] \<mapsto> [7, 8]] [47] [Some demo_down])
        (typed_lines (open_line [49] [50] # map command_line demo_commands)) = Inr c
    \<and> v_files v = remote_files a \<and> c_files c = local_files a \<and> c_printed c = shown a
    \<and> v_socks v 5 = Some ks' \<and> k_out ks' = k_out demo_up @ avail (k_in demo_down)
    \<and> c_sock c = Some kc' \<and> k_out kc' = k_out demo_down @ avail (k_in demo_up)"
    unfolding demo_start_def
    by (rule programs_run [where pton = "\<lambda>s. Some 1" and bind_ok = "\<lambda>a p. True" and addr = 1,
        OF demo_unix_ok demo_unix_simps(2) demo_start_ok demo_args(1) refl TrueI demo_args(2,3) demo_socks(1,2) demo_args(4)
          demo_lines(3,2) demo_start_run [unfolded demo_start_def] demo_lines(1) demo_socks(3,4) [unfolded demo_start_def]])
  note result = ftp_programs_refine_specification [OF demo_unix_ok demo_unix_simps(2) demo_start_ok demo_args(2,3) demo_socks(1,2)
    demo_args(4) demo_lines(3,2) demo_start_run [unfolded demo_start_def] demo_lines(1), folded demo_start_def]
  from run obtain v c ks' kc' where
    r: "server_main demo_unix (\<lambda>s. Some 1) (\<lambda>a p. True) True True [[47, 97] \<mapsto> [1, 2, 3]] [[47]] [47] [''ftp_server'', ''x'', ''1'']
        (Accepted 5 demo_up True # replicate (Suc (length demo_commands)) (Readable 5)) = Inr (Inr v)"
      "client_main demo_unix (client_init [[47, 98] \<mapsto> [7, 8]] [47] [Some demo_down])
        (typed_lines (open_line [49] [50] # map command_line demo_commands)) = Inr c"
      "v_socks v 5 = Some ks'" "k_out ks' = k_out demo_up @ avail (k_in demo_down)"
      "c_sock c = Some kc'" "k_out kc' = k_out demo_down @ avail (k_in demo_up)"
    unfolding Let_def by metis
  from result [OF r] r(1,2) show ?thesis unfolding Let_def by metis
qed

end
