(* ===== verification/Ftp_Blocking.thy ===== *)
theory Ftp_Blocking
  imports Ftp_Refine
begin

text \<open>
  What one client can do to a server that handles all connections in one thread: \<open>recv\<close> and \<open>send\<close> block, a connection
  that is gone raises a signal, and a path that cannot be looked up an exception, and then nobody is served any more.
\<close>

section \<open>Receiving an incomplete post\<close>

lemma receive_incomplete:
  assumes k: "v_socks v fd = Some k" and none: "decode_post (avail (k_in k)) = None"
    and len: "length (avail (k_in k)) \<le> 12 + length buf" "length buf \<le> MAXBUF"
  shows "if stalls (k_in k) then receive v fd buf = Inl Blocked
    else \<exists>buf' t k' said. receive v fd buf = Inr (-1, buf', t, tell (v\<lparr>v_socks := (v_socks v)(fd \<mapsto> k')\<rparr>) said)
      \<and> k_out k' = k_out k"
proof (cases "stalls (k_in k)")
  case True
  then show ?thesis using recv_post_incomplete [OF none len, of "v_type v" 0] k by (simp add: receive_def)
next
  case False
  then obtain r where r: "recv_post k buf (v_type v) 0 = Inr r" "p_size r = -1"
    using recv_post_incomplete [OF none len, of "v_type v" 0] by auto
  moreover have "k_out (p_sock r) = k_out k" using r(1) by (rule returnsD [OF recv_post_out])
  ultimately show ?thesis using False k by (auto simp: receive_def)
qed

lemma serve_blocked: "serve_request os v fd = Inl e \<Longrightarrow> serve_events os v (Readable fd # evs) = Inl e"
  by simp

text \<open>When the data of a \<open>put\<close> never comes, the handler has answered and waits.\<close>

lemma srv_put_blocks:
  assumes "v_socks v fd = Some k" and "all_sent k" and "decode_post (avail (k_in k)) = None" and "stalls (k_in k)"
    and "length (avail (k_in k)) \<le> MAXBUF" and "length (os_junk os) = MAXBUF"
  shows "srv_put os v fd args = Inl Blocked"
proof -
  obtain k1 where k1: "reply v fd PUT_REPLY [] 0 0 = Inr (0, v\<lparr>v_socks := (v_socks v)(fd \<mapsto> k1)\<rparr>)" "k_in k1 = k_in k"
    using reply_nodata [OF assms(1,2), of PUT_REPLY 0] by blast
  have "receive (v\<lparr>v_socks := (v_socks v)(fd \<mapsto> k1)\<rparr>) fd (os_junk os) = Inl Blocked"
    using receive_incomplete [of "v\<lparr>v_socks := (v_socks v)(fd \<mapsto> k1)\<rparr>" fd k1 "os_junk os"] k1(2) assms(3-6) by simp
  with k1(1) show ?thesis by (simp add: srv_put_def)
qed

section \<open>Sending to a peer that does not read\<close>

text \<open>
  What is documented of a blocking socket whose peer reads nothing: a \<open>send\<close> takes some of the bytes while there is room, no
  more than \<open>room\<close> bytes in all, and does not return when there is none; or it raises \<open>SIGPIPE\<close> once the peer is known to have
  gone. Which of the two is the parameter \<open>e\<close>.
\<close>

definition taken :: "int res \<Rightarrow> nat" where
  "taken r = (case r of Inl e \<Rightarrow> 0 | Inr b \<Rightarrow> nat b)"

definition unread :: "fault \<Rightarrow> nat \<Rightarrow> sock \<Rightarrow> bool" where
  "unread e room k \<longleftrightarrow> (\<forall>i. k_accept k i = Inl e \<or> (\<exists>b > 0. k_accept k i = Inr b))
     \<and> (\<forall>n. (\<Sum>i<n. taken (k_accept k (k_calls k + i))) \<le> room)"

lemma unread_simps [simp]: "unread e room (k\<lparr>k_out := out\<rparr>) = unread e room k" "unread e room (k\<lparr>k_in := st\<rparr>) = unread e room k"
  by (simp_all add: unread_def)

lemma unread_mono: "unread e room k \<Longrightarrow> room \<le> room' \<Longrightarrow> unread e room' k"
  by (meson order_trans unread_def)

lemma unread_call:
  assumes "unread e room k" and "k_accept k (k_calls k) = Inr b"
  shows "nat b \<le> room \<and> unread e (room - nat b) (k\<lparr>k_calls := Suc (k_calls k)\<rparr>)"
proof -
  have sum: "nat b + (\<Sum>i<n. taken (k_accept k (Suc (k_calls k) + i))) \<le> room" for n
  proof -
    have "(\<Sum>i<Suc n. taken (k_accept k (k_calls k + i))) \<le> room" using assms(1) unfolding unread_def by blast
    then show ?thesis unfolding sum.lessThan_Suc_shift using assms(2) by (simp add: taken_def)
  qed
  have "nat b \<le> room" using sum [of 0] by simp
  moreover have "(\<Sum>i<n. taken (k_accept k (Suc (k_calls k) + i))) \<le> room - nat b" for n using sum [of n] by linarith
  ultimately show ?thesis using assms(1) by (simp add: unread_def)
qed

lemma ssend_loop_unread:
  assumes "unread e room k" and "ret \<le> n" and "n \<le> length buf"
  shows "ssend_loop k buf n ret = Inl e \<or> (\<exists>k'. ssend_loop k buf n ret = Inr (int_of_long (int n), [], k')
    \<and> n - ret \<le> room \<and> unread e (room - (n - ret)) k' \<and> k_in k' = k_in k)"
  using assms
proof (induction "n - ret" arbitrary: k ret room rule: less_induct)
  case less
  show ?case
  proof (cases "ret < n")
    case False
    then have "ssend_loop k buf n ret = Inr (int_of_long (int n), [], k)"
      using less.prems(2) by (subst ssend_loop.simps) simp
    with False less.prems(1) show ?thesis by simp
  next
    case True
    show ?thesis
    proof (cases "k_accept k (k_calls k) = Inl e")
      case fault: True
      then have "ssend_loop k buf n ret = Inl e" using True by (subst ssend_loop.simps) (simp add: send_call_def)
      then show ?thesis ..
    next
      case False
      then obtain b where b: "0 < b" "k_accept k (k_calls k) = Inr b" using less.prems(1) by (auto simp: unread_def)
      define m where "m = min (nat b) (n - ret)"
      have m: "0 < m" "m \<le> nat b" "m \<le> n - ret" using True b(1) by (simp_all add: m_def)
      let ?d = "take m (drop ret buf)"
      let ?k = "k\<lparr>k_calls := Suc (k_calls k), k_out := k_out k @ ?d\<rparr>"
      have "mem_read buf ret m = Inr ?d" using True m(3) less.prems(3) by (simp add: mem_read_def)
      then have eq: "ssend_loop k buf n ret = ssend_loop ?k buf n (ret + m)"
        using True b by (subst ssend_loop.simps) (simp add: send_call_def Let_def flip: m_def)
      from unread_call [OF less.prems(1) b(2)] have "nat b \<le> room" "unread e (room - nat b) ?k" by simp_all
      then have un: "m \<le> room" "unread e (room - m) ?k" using m(2) by (simp, elim unread_mono, simp)
      have "n - (ret + m) < n - ret" "ret + m \<le> n" using True m by simp_all
      from less.hyps [OF this(1) un(2) this(2) less.prems(3)] show ?thesis
      proof
        assume "ssend_loop ?k buf n (ret + m) = Inl e"
        with eq show ?thesis by simp
      next
        assume "\<exists>k'. ssend_loop ?k buf n (ret + m) = Inr (int_of_long (int n), [], k')
          \<and> n - (ret + m) \<le> room - m \<and> unread e (room - m - (n - (ret + m))) k' \<and> k_in k' = k_in ?k"
        then obtain k' where k': "ssend_loop ?k buf n (ret + m) = Inr (int_of_long (int n), [], k')"
          "n - (ret + m) \<le> room - m" "unread e (room - m - (n - (ret + m))) k'" "k_in k' = k_in k" by auto
        moreover have "room - m - (n - (ret + m)) = room - (n - ret)" "n - ret \<le> room" using m(3) un(1) k'(2) by simp_all
        ultimately show ?thesis using eq by simp
      qed
    qed
  qed
qed

lemma ssend_unread:
  assumes "unread e room k" and "n \<le> length buf" and "n \<le> INT_MAX"
  shows "ssend k buf (int n) = Inl e
    \<or> (\<exists>k'. ssend k buf (int n) = Inr (int n, [], k') \<and> n \<le> room \<and> unread e (room - n) k' \<and> k_in k' = k_in k)"
proof -
  have "int_of_long (int n) = int n" using assms(3) by (intro int_of_long_id) (simp_all add: INT_MAX_def)
  moreover have "size_t_of_int (int n) = n" using assms(3) by (intro size_t_of_int_nat) (simp add: INT_MAX_def)
  ultimately show ?thesis using ssend_loop_unread [OF assms(1), of 0 n buf] assms(2) by (simp add: ssend_def)
qed

lemma reply_unread:
  assumes k: "v_socks v fd = Some k" and un: "unread e room k" and d: "length d \<le> MAXBUF"
  shows "reply v fd t (d @ rest) (int (length d)) s = Inl e
    \<or> (\<exists>k'. reply v fd t (d @ rest) (int (length d)) s = Inr (int (length d), v\<lparr>v_socks := (v_socks v)(fd \<mapsto> k')\<rparr>)
       \<and> 12 + length d \<le> room \<and> unread e (room - (12 + length d)) k' \<and> k_in k' = k_in k)"
proof -
  let ?h = "ftp_image (new_ftp_header t (of_int (int HEADER_SIZE + int (length d))) s)"
  have h: "HEADER_SIZE \<le> length ?h" "HEADER_SIZE \<le> INT_MAX" by (simp_all add: new_ftp_header_def HEADER_SIZE_def INT_MAX_def)
  from ssend_unread [OF un h] show ?thesis
  proof
    assume "ssend k ?h (int HEADER_SIZE) = Inl e"
    then show ?thesis using k by (simp add: reply_def send_post_def Let_def)
  next
    assume "\<exists>k'. ssend k ?h (int HEADER_SIZE) = Inr (int HEADER_SIZE, [], k') \<and> HEADER_SIZE \<le> room
      \<and> unread e (room - HEADER_SIZE) k' \<and> k_in k' = k_in k"
    then obtain k1 where k1: "ssend k ?h (int HEADER_SIZE) = Inr (int HEADER_SIZE, [], k1)" "HEADER_SIZE \<le> room"
      "unread e (room - HEADER_SIZE) k1" "k_in k1 = k_in k" by blast
    have d': "length d \<le> length (d @ rest)" "length d \<le> INT_MAX" using MAXBUF_fits [OF d] by simp_all
    from ssend_unread [OF k1(3) d'] k k1(1,2,4) show ?thesis
      by (auto simp: reply_def send_post_def Let_def HEADER_SIZE_def diff_diff_left)
  qed
qed

text \<open>A \<open>get\<close> whose answer nobody reads: it takes up 24 bytes and the file, or the handler does not return.\<close>

definition gettable :: "os \<Rightarrow> view \<Rightarrow> path \<Rightarrow> bool" where
  "gettable oss a n \<longleftrightarrow> name_ok n \<and> \<not> os_stat_error oss (os_resolve oss (there a) n)
     \<and> (\<exists>content. remote_files a (os_resolve oss (there a) n) = Some content \<and> length content \<le> INT_MAX)"

definition answer_size :: "os \<Rightarrow> view \<Rightarrow> path \<Rightarrow> nat" where
  "answer_size oss a n = (case remote_files a (os_resolve oss (there a) n) of
     None \<Rightarrow> 12 | Some content \<Rightarrow> 24 + min (length content) MAXBUF)"

lemma srv_get_unread:
  assumes k: "v_socks v fd = Some k" and un: "unread e room k" and n: "0 \<notin> set n" "n \<noteq> []"
    and f: "v_files v (os_resolve os (v_cwd v) n) = Some content" "length content \<le> INT_MAX" "length (os_junk os) = MAXBUF"
      "\<not> os_stat_error os (os_resolve os (v_cwd v) n)"
  shows "srv_get os v fd (request_buf (n @ [0])) = Inl e
    \<or> (\<exists>k'. srv_get os v fd (request_buf (n @ [0])) = Inr (0, v\<lparr>v_socks := (v_socks v)(fd \<mapsto> k')\<rparr>)
       \<and> 24 + length (carried content) \<le> room \<and> unread e (room - (24 + length (carried content))) k' \<and> k_in k' = k_in k)"
proof -
  let ?c = "carried content"
  have ex: "fs_exists os v n" using n(2) f(1) by (simp add: fs_exists_def)
  note get = srv_get_def c_string_request [OF n(1)] fs_lookup_ok [OF f(4)] status_of_def ex
  have none: "length ([] :: u8 list) \<le> MAXBUF" by simp
  from reply_unread [OF k un none, of GET_REPLY "[]" 1] show ?thesis
  proof
    assume "reply v fd GET_REPLY ([] @ []) (int (length ([] :: u8 list))) 1 = Inl e"
    then show ?thesis by (simp add: get)
  next
    assume "\<exists>k'. reply v fd GET_REPLY ([] @ []) (int (length ([] :: u8 list))) 1
        = Inr (int (length ([] :: u8 list)), v\<lparr>v_socks := (v_socks v)(fd \<mapsto> k')\<rparr>)
      \<and> 12 + length ([] :: u8 list) \<le> room \<and> unread e (room - (12 + length ([] :: u8 list))) k' \<and> k_in k' = k_in k"
    then obtain k1 where k1: "reply v fd GET_REPLY [] 0 1 = Inr (0, v\<lparr>v_socks := (v_socks v)(fd \<mapsto> k1)\<rparr>)"
      "12 \<le> room" "unread e (room - 12) k1" "k_in k1 = k_in k" by auto
    let ?v1 = "v\<lparr>v_socks := (v_socks v)(fd \<mapsto> k1)\<rparr>"
    have "v_socks ?v1 fd = Some k1" by simp
    from reply_unread [OF this k1(3) length_carried, of FILE_DATA content "drop (length ?c) (os_junk os)" 0]
    show ?thesis using k1(1,2,4) f(1) ftp_read_file_carried [OF f(2,3)] by (auto simp: get diff_diff_left)
  qed
qed

lemma serve_get_unread:
  assumes sh: "server_shows oss dirs fd a v" and k: "v_socks v fd = Some k" and un: "unread e room k" and ok: "os_ok oss"
    and n: "gettable oss a n" and inp: "avail (k_in k) = request_wire (Get n) @ rest"
  shows "serve_request oss v fd = Inl e \<or> (\<exists>v' k'. serve_request oss v fd = Inr v' \<and> v_socks v' fd = Some k'
    \<and> answer_size oss a n \<le> room \<and> unread e (room - answer_size oss a n) k' \<and> avail (k_in k') = rest \<and> server_shows oss dirs fd a v')"
proof -
  from n obtain content where content: "remote_files a (os_resolve oss (there a) n) = Some content" "length content \<le> INT_MAX"
    and name: "0 \<notin> set n" "n \<noteq> []" "length (n @ [0]) < MAXBUF" "\<not> os_stat_error oss (os_resolve oss (there a) n)"
    by (auto simp: gettable_def name_ok_def)
  have size: "answer_size oss a n = 24 + length (carried content)" using content(1) by (simp add: answer_size_def carried_def)
  have dec: "decode_post (avail (k_in k)) = Some ((GET_REQUEST, 0, n @ [0]), rest)"
    unfolding inp request_wire_def request.simps prod.case by (rule decode_post_wire) (use name(3) in simp)
  have fd: "fd_ok v fd" using sh by (simp add: server_shows_def)
  from serve_request_dispatch [OF k dec name(3) fd server_shows_work_dir [OF sh]] obtain st where
    st: "avail st = rest" "serve_request oss v fd = bind_res (srv_get oss
       (v\<lparr>v_socks := (v_socks v)(fd \<mapsto> k\<lparr>k_in := st\<rparr>), v_type := GET_REQUEST, v_cwd := there a\<rparr>) fd (request_buf (n @ [0])))
       (\<lambda>(scode, v). Inr (back_home oss v))" by auto
  let ?v = "v\<lparr>v_socks := (v_socks v)(fd \<mapsto> k\<lparr>k_in := st\<rparr>), v_type := GET_REQUEST, v_cwd := there a\<rparr>"
  have "srv_get oss ?v fd (request_buf (n @ [0])) = Inl e
    \<or> (\<exists>k'. srv_get oss ?v fd (request_buf (n @ [0])) = Inr (0, ?v\<lparr>v_socks := (v_socks ?v)(fd \<mapsto> k')\<rparr>)
       \<and> 24 + length (carried content) \<le> room \<and> unread e (room - (24 + length (carried content))) k' \<and> k_in k' = k_in (k\<lparr>k_in := st\<rparr>))"
    by (rule srv_get_unread [OF _ _ name(1,2)]) (use un content name(4) sh ok in \<open>simp_all add: server_shows_def os_ok_def\<close>)
  then show ?thesis
  proof
    assume "\<exists>k'. srv_get oss ?v fd (request_buf (n @ [0])) = Inr (0, ?v\<lparr>v_socks := (v_socks ?v)(fd \<mapsto> k')\<rparr>)
       \<and> 24 + length (carried content) \<le> room \<and> unread e (room - (24 + length (carried content))) k' \<and> k_in k' = k_in (k\<lparr>k_in := st\<rparr>)"
    then obtain k' where k': "srv_get oss ?v fd (request_buf (n @ [0])) = Inr (0, ?v\<lparr>v_socks := (v_socks ?v)(fd \<mapsto> k')\<rparr>)"
      "answer_size oss a n \<le> room" "unread e (room - answer_size oss a n) k'" "k_in k' = st" unfolding size by auto
    let ?v' = "back_home oss (?v\<lparr>v_socks := (v_socks ?v)(fd \<mapsto> k')\<rparr>)"
    have serve: "serve_request oss v fd = Inr ?v'" using st(2) k'(1) by simp
    have wf: "server_wf oss ?v'" by (rule serve_request_wf [OF _ serve]) (use sh in \<open>simp add: server_shows_def\<close>)
    then have "server_shows oss dirs fd a ?v'" using sh by (simp add: server_shows_def fd_ok_def)
    with serve k'(2-4) st(1) show ?thesis by auto
  qed (use st(2) in simp)
qed

lemma gets_unread:
  "server_shows oss dirs fd a v \<Longrightarrow> v_socks v fd = Some k \<Longrightarrow> unread e room k \<Longrightarrow> os_ok oss \<Longrightarrow> \<forall>n \<in> set ns. gettable oss a n \<Longrightarrow>
   avail (k_in k) = concat (map (\<lambda>n. request_wire (Get n)) ns) @ rest \<Longrightarrow> room < sum_list (map (answer_size oss a) ns) \<Longrightarrow>
   serve_events oss v (replicate (length ns) (Readable fd) @ evs) = Inl e"
proof (induction ns arbitrary: v k room)
  case (Cons n ns)
  have "gettable oss a n" "avail (k_in k) = request_wire (Get n) @ concat (map (\<lambda>n. request_wire (Get n)) ns) @ rest"
    using Cons.prems(5,6) by simp_all
  from serve_get_unread [OF Cons.prems(1-4) this] show ?case
  proof
    assume "\<exists>v' k'. serve_request oss v fd = Inr v' \<and> v_socks v' fd = Some k' \<and> answer_size oss a n \<le> room
      \<and> unread e (room - answer_size oss a n) k' \<and> avail (k_in k') = concat (map (\<lambda>n. request_wire (Get n)) ns) @ rest
      \<and> server_shows oss dirs fd a v'"
    then obtain v' k' where v': "serve_request oss v fd = Inr v'" "v_socks v' fd = Some k'" "unread e (room - answer_size oss a n) k'"
      "avail (k_in k') = concat (map (\<lambda>n. request_wire (Get n)) ns) @ rest" "server_shows oss dirs fd a v'"
      "answer_size oss a n \<le> room" by blast
    have "room - answer_size oss a n < sum_list (map (answer_size oss a) ns)" using Cons.prems(7) v'(6) by simp
    from Cons.IH [OF v'(5,2,3) Cons.prems(4) _ v'(4) this] Cons.prems(5) v'(1) show ?thesis by simp
  qed simp
qed simp

section \<open>Properties\<close>

text \<open>C25: The server waits inside the handling of an event for a request to be complete. When a connection has brought a part of
  a post, of at most the size of the buffer, and then stays open and silent, the server never returns to its loop: no event
  on any connection is handled after that. When the stream ends or fails instead, the server goes on, having changed only the
  state of this connection, without an answer.
\<close>

theorem incomplete_request_stops_the_server:
  assumes "v_socks v fd = Some k" and "decode_post (avail (k_in k)) = None" and "length (avail (k_in k)) \<le> 12 + MAXBUF"
  shows "if stalls (k_in k) then \<forall>evs. serve_events os v (Readable fd # evs) = Inl Blocked
    else \<exists>v' k'. serve_request os v fd = Inr v' \<and> v_socks v' = (v_socks v)(fd \<mapsto> k') \<and> k_out k' = k_out k
      \<and> v_files v' = v_files v \<and> v_cwds v' = v_cwds v \<and> v_cwd v' = v_cwd v \<and> v_watch v' = v_watch v"
proof (cases "stalls (k_in k)")
  case True
  then have "serve_request os v fd = Inl Blocked"
    using receive_incomplete [OF assms(1,2), of "replicate MAXBUF 0"] assms(3) by (simp add: serve_request_def)
  then show ?thesis using True serve_blocked by simp
next
  case False
  then obtain buf t k' said where
    "receive v fd (replicate MAXBUF 0) = Inr (-1, buf, t, tell (v\<lparr>v_socks := (v_socks v)(fd \<mapsto> k')\<rparr>) said)"
    "k_out k' = k_out k" using receive_incomplete [OF assms(1,2), of "replicate MAXBUF 0"] assms(3) by auto
  then show ?thesis using False by (auto simp: serve_request_def Let_def)
qed

text \<open>A connection that has brought the first two bytes of a header and nothing else.\<close>

definition demo_silent :: server where
  "demo_silent = (demo_server [])\<lparr>v_socks := [5 \<mapsto> (demo_sock [])\<lparr>k_in := [Seg [0xC1, 0xA1], Silence]\<rparr>,
     6 \<mapsto> demo_sock (request_wire Ls)], v_watch := [5, 6]\<rparr>"

lemma incomplete_request_stops_the_server_witness:
  "serve_events demo_os demo_silent [Readable 5, Readable 6] = Inl Blocked"
proof -
  have "v_socks demo_silent 5 = Some ((demo_sock [])\<lparr>k_in := [Seg [0xC1, 0xA1], Silence]\<rparr>)" by (simp add: demo_silent_def)
  from incomplete_request_stops_the_server [OF this, of demo_os] show ?thesis
    by (simp add: decode_post_def del: serve_events.simps)
qed

text \<open>C26: A client that asks for files and does not read the answers stops the server for everybody. Let a connected user
  request any number of existing files, one request after the other, on a connection whose peer reads nothing: it has room
  for at most \<open>room\<close> bytes, and then a \<open>send\<close> blocks (or raises \<open>SIGPIPE\<close>, when the peer has gone). If the answers together, 24 bytes and up to 2 MiB
  of file each, do not fit, the server never returns to its loop, or is killed: no later event of any connection is handled.
\<close>

theorem unread_answer_stops_the_server:
  assumes "server_shows oss dirs fd a v" and "v_socks v fd = Some k" and "os_ok oss" and "unread e room k"
    and "\<forall>n \<in> set ns. gettable oss a n" and "avail (k_in k) = concat (map (\<lambda>n. request_wire (Get n)) ns) @ rest"
    and "room < sum_list (map (answer_size oss a) ns)"
  shows "serve_events oss v (replicate (length ns) (Readable fd) @ evs) = Inl e"
  by (rule gets_unread [OF assms(1,2,4,3,5-7)])

text \<open>A client that asks twice for a file of three bytes, over a connection with room for 40, and reads nothing.\<close>

definition demo_deaf :: server where
  "demo_deaf = demo_open\<lparr>v_socks := [5 \<mapsto> (demo_sock (request_wire (Get [97]) @ request_wire (Get [97])))
     \<lparr>k_accept := \<lambda>i. if i < 40 then Inr 1 else Inl Blocked\<rparr>]\<rparr>"

lemma demo_deaf_unread: "unread Blocked 40 ((demo_sock bs)\<lparr>k_accept := \<lambda>i. if i < 40 then Inr 1 else Inl Blocked\<rparr>)"
proof -
  have "(\<Sum>i<n. taken (if i < 40 then Inr 1 else Inl Blocked)) \<le> 40" for n :: nat
  proof -
    have "(\<Sum>i<n. taken (if i < 40 then Inr 1 else Inl Blocked)) = (\<Sum>i<n. if i < (40 :: nat) then 1 else 0)"
      by (rule sum.cong) (simp_all add: taken_def)
    also have "\<dots> = card ({..<n} \<inter> {i. i < 40})" by (simp add: sum.If_cases)
    also have "\<dots> \<le> card {..<40 :: nat}" by (rule card_mono) auto
    finally show ?thesis by simp
  qed
  then show ?thesis by (simp add: unread_def demo_sock_def)
qed

lemma unread_answer_stops_the_server_witness:
  "serve_events demo_unix demo_deaf [Readable 5, Readable 5, Readable 6] = Inl Blocked"
proof -
  let ?k = "(demo_sock (request_wire (Get [97]) @ request_wire (Get [97])))\<lparr>k_accept := \<lambda>i. if i < 40 then Inr 1 else Inl Blocked\<rparr>"
  have "server_shows demo_unix [[47]] 5 demo_view demo_open" using demo_linked by (simp add: linked_def)
  then have sh: "server_shows demo_unix [[47]] 5 demo_view demo_deaf"
    by (simp add: server_shows_def demo_deaf_def server_wf_def watched_def fd_ok_def demo_open_def demo_server_def server_init_def)
  have k: "v_socks demo_deaf 5 = Some ?k" "avail (k_in ?k) = concat (map (\<lambda>n. request_wire (Get n)) [[97], [97]]) @ []"
    by (simp_all add: demo_deaf_def)
  have "\<forall>n \<in> set [[97], [97]]. gettable demo_unix demo_view n" "40 < sum_list (map (answer_size demo_unix demo_view) [[97], [97]])"
    by (simp_all add: gettable_def answer_size_def demo_view_def name_ok_def MAXBUF_def INT_MAX_def)
  from unread_answer_stops_the_server [OF sh k(1) demo_unix_ok demo_deaf_unread this(1) k(2) this(2), of "[Readable 6]"]
  show ?thesis by (simp add: numeral_2_eq_2 del: serve_events.simps)
qed

text \<open>C27: A name that cannot be looked up ends the server. \<open>fs::exists\<close> throws when it fails for another reason than that
  nothing is there, such as a component of more than 255 bytes or a directory without permission, and nobody catches the
  exception: a \<open>cd\<close>, \<open>get\<close> or \<open>sha256\<close> of such a name ends the process for all connections.
\<close>

theorem failed_lookup_ends_the_server:
  assumes "v_socks v fd = Some k" and "decode_post (avail (k_in k)) = Some ((t, s, a @ [0]), rest)" and "length a + 1 < MAXBUF"
    and "fd_ok v fd" and "work_dir os v fd = Some w" and "t \<in> {CD_REQUEST, GET_REQUEST, SHA_REQUEST}"
    and "0 \<notin> set a" and "a \<noteq> []" and "os_stat_error os (os_resolve os w a)"
  shows "serve_events os v (Readable fd # evs) = Inl Uncaught"
proof -
  have "length (a @ [0]) < MAXBUF" using assms(3) by simp
  from serve_request_dispatch [OF assms(1,2) this assms(4,5)] obtain st where
    st: "serve_request os v fd = bind_res (dispatch os
       (v\<lparr>v_socks := (v_socks v)(fd \<mapsto> k\<lparr>k_in := st\<rparr>), v_type := t, v_cwd := w\<rparr>) fd (request_buf (a @ [0])) t)
       (\<lambda>(scode, v). Inr (back_home os v))" by blast
  have "fs_lookup os (v\<lparr>v_socks := f, v_type := t, v_cwd := w\<rparr>) a = Inl Uncaught" for f
    using assms(8,9) by (simp add: fs_lookup_def)
  then show ?thesis using st assms(6)
    by (auto simp: srv_cd_def srv_get_def srv_sha_def c_string_request [OF assms(7)])
qed

text \<open>A system on which names of more than 255 bytes cannot be looked up.\<close>

definition demo_limit :: os where
  "demo_limit = demo_os\<lparr>os_stat_error := \<lambda>p. 256 < length p\<rparr>"

definition demo_long :: "u8 list" where
  "demo_long = replicate 256 97"

lemma failed_lookup_ends_the_server_witness:
  "serve_events demo_limit (demo_server (post_wire CD_REQUEST 0 (demo_long @ [0]) @ [])) [Readable 5, Readable 6] = Inl Uncaught"
proof (rule failed_lookup_ends_the_server [where w = "[47]" and a = demo_long and t = CD_REQUEST and rest = "[]"])
  have len: "length demo_long = 256" by (simp add: demo_long_def)
  then show "length demo_long + 1 < MAXBUF" "demo_long \<noteq> []" by (auto simp: MAXBUF_def)
  show "decode_post (avail (k_in (demo_sock (post_wire CD_REQUEST 0 (demo_long @ [0]) @ [])))) = Some ((CD_REQUEST, 0, demo_long @ [0]), [])"
    using decode_post_wire [of "demo_long @ [0]" CD_REQUEST 0 "[]"] len by (simp add: MAXBUF_def)
  show "work_dir demo_limit (demo_server (post_wire CD_REQUEST 0 (demo_long @ [0]) @ [])) 5 = Some [47]"
    by (simp add: demo_limit_def demo_os_def demo_server_def server_init_def work_dir_def fs_exists_def fd2ind_def MAXCONN_def null_path_def)
  show "os_stat_error demo_limit (os_resolve demo_limit [47] demo_long)"
    by (simp add: demo_limit_def demo_os_def demo_long_def)
qed (simp_all add: demo_long_def)

text \<open>C24: A user who asks for the \<open>put\<close> of a file that does not exist, and types nothing more, stops the server for
  everybody. The client prints a message and is back at its prompt, connected; the server has answered and waits for the
  data, and handles no event of any connection any more.
\<close>

theorem put_of_missing_file_stops_the_server:
  assumes "linked oss dirs fd a (v, c)" and "os_ok oss" and "length (os_junk osc) = MAXBUF" and "name_ok n"
    and "local_files a (os_resolve osc (here a) n) = None"
    and "v_socks v fd = Some ks" and "c_sock c = Some kc"
    and "avail stc = post_wire PUT_REPLY 0 []" and "avail sts = request_wire (Put n)" and "stalls sts"
  shows "(\<exists>c' kc'. parseline osc (c\<lparr>c_sock := Some (kc\<lparr>k_in := stc\<rparr>)\<rparr>) (command_line (Put n)) = Inr (-1, c')
      \<and> c_sock c' = Some kc' \<and> k_out kc' = k_out kc @ avail sts \<and> c_connected c')
    \<and> (\<forall>evs. serve_events oss (v\<lparr>v_socks := (v_socks v)(fd \<mapsto> ks\<lparr>k_in := sts\<rparr>)\<rparr>) (Readable fd # evs) = Inl Blocked)"
proof -
  have "avail sts = request_wire (Put n) @ []" using assms(9) by simp
  from put_request_dispatch [OF assms(1,6,4) this] obtain st w where
    st: "avail st = []" "stalls st" "serve_request oss (v\<lparr>v_socks := (v_socks v)(fd \<mapsto> ks\<lparr>k_in := sts\<rparr>)\<rparr>) fd =
      bind_res (srv_put oss w fd (request_buf (n @ [0]))) (\<lambda>(scode, v). Inr (back_home oss v))"
    and w: "v_socks w fd = Some (ks\<lparr>k_in := st\<rparr>)" "all_sent (ks\<lparr>k_in := st\<rparr>)"
    using assms(10) by (fastforce simp: Let_def)
  have "srv_put oss w fd (request_buf (n @ [0])) = Inl Blocked"
    using st(1,2) assms(2) by (intro srv_put_blocks [OF w]) (simp_all add: os_ok_def decode_post_def)
  with st(3) missing_put_client [OF assms(1,3,4,5,7,8)] assms(9) show ?thesis by simp
qed

lemma put_of_missing_file_stops_the_server_witness:
  "serve_events demo_unix (demo_open\<lparr>v_socks := (v_socks demo_open)(5 \<mapsto>
      (demo_sock [])\<lparr>k_in := [Seg (request_wire (Put [99])), Silence]\<rparr>)\<rparr>) [Readable 5, Readable 6] = Inl Blocked"
proof -
  have "v_socks demo_open 5 = Some (demo_sock [])" by (simp add: demo_open_def)
  from put_of_missing_file_stops_the_server [OF demo_linked demo_unix_ok demo_unix_simps(2) _ _ this demo_client_simps(2),
      of "[99]" "[Seg (post_wire PUT_REPLY 0 [])]" "[Seg (request_wire (Put [99])), Silence]"]
  show ?thesis by (simp add: name_ok_def MAXBUF_def demo_view_def del: serve_events.simps)
qed

end
