(* ===== verification/Ns3.thy ===== *)
theory Ns3
  imports Args
begin

text \<open>
  The interface of the two ns-3 scripts of \<open>lab4\<close>. ns-3 is not in the repository: a script is a program that makes calls,
  which are recorded, newest first, and what a call returns is an arbitrary function of the calls made so far, in the record
  \<open>ns3\<close>. A node is named by its id, a device and an application container by a handle, a time is in nanoseconds.
\<close>

section \<open>Calls\<close>

type_synonym node = u32
type_synonym dev = nat
type_synonym apps = nat
type_synonym ipv4 = u32

datatype attr = Uint nat | Bool bool | Str string | Type_Id string | Queue_Size string

text \<open>A \<open>PointToPointHelper\<close> and a \<open>TrafficControlHelper\<close> are the settings that were made on them.\<close>

record p2p_helper =
  p2p_device :: "(string \<times> attr) list"
  p2p_channel :: "(string \<times> attr) list"

record tc_helper =
  tc_root :: "string option"
  tc_limits :: "string option"

datatype app =
    Bulk_Send string ipv4 u16 "(string \<times> attr) list"
  | Packet_Sink string ipv4 u16

datatype tcp_state = TIME_WAIT | Other_State nat

datatype cwnd_callback = Cwnd_Change string
datatype state_callback = State_Change u32

datatype scheduled =
    Trace_State u32 state_callback
  | Trace_Cwnd u32 u32 cwnd_callback

datatype call =
    Set_Default string attr
  | Create_Nodes nat
  | Install_Link p2p_helper node node
  | Stat string
  | System string
  | Enable_Pcap p2p_helper string dev bool
  | Install_Stack "node list"
  | Address_Helper string string
  | Assign "dev list"
  | New_Network
  | Populate_Routing
  | Get_Device node nat
  | Uninstall_Qdisc dev
  | Install_Qdisc tc_helper dev
  | Install_App app node
  | Start_Apps apps int
  | Stop_Apps apps int
  | Schedule int scheduled
  | Connect_State string state_callback
  | Connect_Cwnd string cwnd_callback
  | Sim_Stop int
  | Sim_Run
  | Sim_Destroy
  | Append_File string string

text \<open>
  What the simulator does to the script while it runs: a scheduled function is called, or a trace source to which the script
  connected fires. \<open>r_run\<close> gives these events, in order and with their times.
\<close>

datatype sim_event =
    Timer scheduled
  | Cwnd_Fires cwnd_callback u32 u32
  | State_Fires state_callback tcp_state tcp_state

record ns3 =
  has_type :: "string \<Rightarrow> bool"
  r_nodes :: "call list \<Rightarrow> node list"
  r_devs :: "call list \<Rightarrow> dev list"
  r_addrs :: "call list \<Rightarrow> ipv4 list"
  r_device :: "call list \<Rightarrow> dev"
  r_apps :: "call list \<Rightarrow> apps"
  r_stat :: "call list \<Rightarrow> bool"
  r_system :: "call list \<Rightarrow> int"
  r_run :: "call list \<Rightarrow> (int \<times> sim_event) list"
  any_addr :: ipv4
  cmd_value :: "string list \<Rightarrow> string \<Rightarrow> u32 option"
  ns_asserts :: bool

section \<open>Scripts\<close>

type_synonym 'a script = "call list \<Rightarrow> ('a \<times> call list) res"

definition give :: "'a \<Rightarrow> 'a script" where
  "give x w = Inr (x, w)"

definition andthen :: "'a script \<Rightarrow> ('a \<Rightarrow> 'b script) \<Rightarrow> 'b script" where
  "andthen m f w = bind_res (m w) (\<lambda>(x, w). f x w)"

definition perform :: "call \<Rightarrow> unit script" where
  "perform c w = Inr ((), c # w)"

definition ask :: "(call list \<Rightarrow> 'a) \<Rightarrow> call \<Rightarrow> 'a script" where
  "ask r c w = Inr (r (c # w), c # w)"

text \<open>\<open>NS_ABORT_MSG_UNLESS\<close> ends the program; a container's \<open>Get\<close> outside its range is undefined.\<close>

definition abort_unless :: "bool \<Rightarrow> unit script" where
  "abort_unless b w = (if b then Inr ((), w) else Inl Log_Fatal)"

definition element :: "'a list \<Rightarrow> nat \<Rightarrow> 'a script" where
  "element xs i w = (if i < length xs then Inr (xs ! i, w) else Inl Undef)"

fun for_each :: "nat list \<Rightarrow> (nat \<Rightarrow> 'a script) \<Rightarrow> 'a list script" where
  "for_each [] f = give []"
| "for_each (i # is) f = andthen (f i) (\<lambda>x. andthen (for_each is f) (\<lambda>xs. give (x # xs)))"

fun perform_all :: "call list \<Rightarrow> unit script" where
  "perform_all [] = give ()"
| "perform_all (c # cs) = andthen (perform c) (\<lambda>_. perform_all cs)"

named_theorems script "how the parts of a script run"

lemma give_run [script]: "give x w = Inr (x, w)"
  by (simp add: give_def)

lemma perform_run [script]: "perform c w = Inr ((), c # w)"
  by (simp add: perform_def)

lemma ask_run [script]: "ask r c w = Inr (r (c # w), c # w)"
  by (simp add: ask_def)

lemma andthen_run [script]: "m w = Inr (x, w') \<Longrightarrow> andthen m f w = f x w'"
  by (simp add: andthen_def)

lemma abort_unless_run [script]: "b \<Longrightarrow> abort_unless b w = Inr ((), w)"
  by (simp add: abort_unless_def)

lemma element_run [script]: "i < length xs \<Longrightarrow> element xs i w = Inr (xs ! i, w)"
  by (simp add: element_def)

lemma perform_all_run [script]: "perform_all cs w = Inr ((), rev cs @ w)"
  by (induction cs arbitrary: w) (simp_all add: script)

end
