(* ===== verification/Dumbbell.thy ===== *)
theory Dumbbell
  imports Ns3
begin

text \<open>
  \<open>lab4/dumbbell.cc\<close>: the callbacks, the two installers, and \<open>main\<close> in the sections that its comments name. The result of
  \<open>main\<close> is its exit status; everything else it does is in the calls.
\<close>

definition N1 :: nat where "N1 = 2"
definition N2 :: nat where "N2 = 2"
definition segmentSize :: u32 where "segmentSize = 1448"
definition startTime :: int where "startTime = 10 * 10 ^ 9"
definition stopTime :: int where "stopTime = 60 * 10 ^ 9"
definition dir :: string where "dir = ''lv1-results/''"

definition micro_seconds :: "int \<Rightarrow> int" where
  "micro_seconds t = (if 0 \<le> t then t div 1000 else - (- t div 1000))"

definition line :: "string \<Rightarrow> string" where
  "line s = s @ [CHR 0x0A]"

section \<open>Tracing\<close>

definition CwndChange :: "int \<Rightarrow> string \<Rightarrow> u32 \<Rightarrow> u32 \<Rightarrow> unit script" where
  "CwndChange now nodeId oldCwnd newCwnd =
     perform (Append_File (dir @ ''cwnd/n'' @ nodeId @ ''.dat'')
       (line (show_int (micro_seconds now) @ '' '' @ show_nat (unat (oldCwnd div segmentSize)) @ '' ''
              @ show_nat (unat (newCwnd div segmentSize)))))"

definition TraceCwnd :: "u32 \<Rightarrow> u32 \<Rightarrow> cwnd_callback \<Rightarrow> unit script" where
  "TraceCwnd node cwndWindow cb =
     perform (Connect_Cwnd (''/NodeList/'' @ show_nat (unat node) @ ''/$ns3::TcpL4Protocol/SocketList/''
       @ show_nat (unat cwndWindow) @ ''/CongestionWindow'') cb)"

definition StateChange :: "int \<Rightarrow> u32 \<Rightarrow> tcp_state \<Rightarrow> tcp_state \<Rightarrow> u32 list \<Rightarrow> u32 list res" where
  "StateChange now node_relative oldState newState fct =
     (if newState = TIME_WAIT
      then if unat node_relative < length fct
           then Inr (fct[unat node_relative := of_int (micro_seconds now - micro_seconds startTime)])
           else Inl Undef
      else Inr fct)"

definition TraceState :: "u32 \<Rightarrow> state_callback \<Rightarrow> unit script" where
  "TraceState node cb =
     perform (Connect_State (''/NodeList/'' @ show_nat (unat node) @ ''/$ns3::TcpL4Protocol/SocketList/0/State'') cb)"

section \<open>Applications\<close>

definition InstallBulkSend ::
    "ns3 \<Rightarrow> node \<Rightarrow> ipv4 \<Rightarrow> u16 \<Rightarrow> string \<Rightarrow> u32 \<Rightarrow> u32 \<Rightarrow> cwnd_callback \<Rightarrow> state_callback \<Rightarrow> unit script" where
  "InstallBulkSend ns node address port socketFactory flowSize cwndWindow cwnd_cb state_cb =
     andthen (ask (r_apps ns)
       (Install_App (Bulk_Send socketFactory address port [(''MaxBytes'', Uint (unat flowSize))]) node)) (\<lambda>sourceApps.
     perform_all
      [Start_Apps sourceApps startTime,
       Schedule (startTime + 1) (Trace_State node state_cb),
       Schedule (startTime + 1) (Trace_Cwnd node cwndWindow cwnd_cb),
       Stop_Apps sourceApps stopTime])"

definition InstallPacketSink :: "ns3 \<Rightarrow> node \<Rightarrow> u16 \<Rightarrow> string \<Rightarrow> unit script" where
  "InstallPacketSink ns node port socketFactory =
     andthen (ask (r_apps ns) (Install_App (Packet_Sink socketFactory (any_addr ns) port) node)) (\<lambda>sinkApps.
     perform_all [Start_Apps sinkApps startTime, Stop_Apps sinkApps stopTime])"

section \<open>The sections of \<open>main\<close>\<close>

definition socketFactory :: string where "socketFactory = ''ns3::TcpSocketFactory''"
definition tcpTypeId :: string where "tcpTypeId = ''ns3::TcpLinuxReno''"
definition qdiscTypeId :: string where "qdiscTypeId = ''ns3::FifoQueueDisc''"
definition recovery :: string where "recovery = ''ns3::TcpClassicRecovery''"

text \<open>\<open>flowSize\<close> is not initialised: an option that is not given leaves what was in the array.\<close>

definition flow_sizes :: "ns3 \<Rightarrow> string list \<Rightarrow> u32 list \<Rightarrow> u32 list" where
  "flow_sizes ns argv junk =
     map (\<lambda>i. case cmd_value ns argv (''flowSize'' @ show_nat i) of Some x \<Rightarrow> x | None \<Rightarrow> junk ! i) [0..<N1]"

definition check_types :: "ns3 \<Rightarrow> unit script" where
  "check_types ns =
     andthen (abort_unless (has_type ns qdiscTypeId)) (\<lambda>_.
     andthen (abort_unless (has_type ns tcpTypeId)) (\<lambda>_.
     andthen (abort_unless (ns_asserts ns \<longrightarrow> has_type ns recovery)) (\<lambda>_.
     perform_all
      [Set_Default ''ns3::TcpL4Protocol::RecoveryType'' (Type_Id recovery),
       Set_Default ''ns3::TcpL4Protocol::SocketType'' (Type_Id tcpTypeId)])))"

definition create_nodes :: "ns3 \<Rightarrow> (node list \<times> node list \<times> node list) script" where
  "create_nodes ns =
     andthen (ask (r_nodes ns) (Create_Nodes 2)) (\<lambda>routers.
     andthen (ask (r_nodes ns) (Create_Nodes N1)) (\<lambda>leftNodes.
     andthen (ask (r_nodes ns) (Create_Nodes N2)) (\<lambda>rightNodes.
     give (leftNodes, rightNodes, routers))))"

definition pointToPointRouter :: p2p_helper where
  "pointToPointRouter = \<lparr>p2p_device = [(''DataRate'', Str ''1Mbps'')], p2p_channel = [(''Delay'', Str ''10ms'')]\<rparr>"

definition pointToPointLeaf :: p2p_helper where
  "pointToPointLeaf = \<lparr>p2p_device = [(''DataRate'', Str ''10Mbps'')], p2p_channel = [(''Delay'', Str ''1ms'')]\<rparr>"

definition connect_nodes :: "ns3 \<Rightarrow> node list \<Rightarrow> node list \<Rightarrow> node list \<Rightarrow> (dev list \<times> dev list list \<times> dev list list) script" where
  "connect_nodes ns leftNodes rightNodes routers =
     andthen (element routers 0) (\<lambda>t0. andthen (element routers 1) (\<lambda>t1.
     andthen (ask (r_devs ns) (Install_Link pointToPointRouter t0 t1)) (\<lambda>routerToRouter.
     andthen (for_each [0..<N1] (\<lambda>i. andthen (element leftNodes i) (\<lambda>n.
                ask (r_devs ns) (Install_Link pointToPointLeaf n t0)))) (\<lambda>leftToRouter.
     andthen (for_each [0..<N2] (\<lambda>i. andthen (element rightNodes i) (\<lambda>n.
                ask (r_devs ns) (Install_Link pointToPointLeaf t1 n)))) (\<lambda>routerToRight.
     give (routerToRouter, leftToRouter, routerToRight))))))"

definition shell :: "ns3 \<Rightarrow> string \<Rightarrow> unit script" where
  "shell ns cmd = andthen (ask (r_system ns) (System cmd)) (\<lambda>retVal. abort_unless (ns_asserts ns \<longrightarrow> retVal = 0))"

definition create_directories :: "ns3 \<Rightarrow> unit script" where
  "create_directories ns =
     (let dirToSave = ''mkdir -p '' @ dir
      in andthen (ask (r_stat ns) (Stat dir)) (\<lambda>found.
         andthen (if found then shell ns (''rm -rf '' @ dir) else give ()) (\<lambda>_.
         andthen (shell ns dirToSave) (\<lambda>_.
         andthen (shell ns (dirToSave @ ''/pcap/'')) (\<lambda>_.
         andthen (shell ns (dirToSave @ ''/cwnd/'')) (\<lambda>_.
         shell ns (dirToSave @ ''/fct/'')))))))"

definition enable_pcap :: "dev list \<Rightarrow> dev list list \<Rightarrow> unit script" where
  "enable_pcap routerToRouter leftToRouter =
     andthen (element routerToRouter 0) (\<lambda>d. andthen (perform (Enable_Pcap pointToPointRouter (dir @ ''pcap/lv1'') d True)) (\<lambda>_.
     andthen (for_each [0..<N1] (\<lambda>i. andthen (element leftToRouter i) (\<lambda>ds. andthen (element ds 1) (\<lambda>d.
                perform (Enable_Pcap pointToPointLeaf (dir @ ''pcap/lv1'') d True))))) (\<lambda>_. give ())))"

definition assign_link :: "ns3 \<Rightarrow> dev list \<Rightarrow> ipv4 list script" where
  "assign_link ns ds = andthen (ask (r_addrs ns) (Assign ds)) (\<lambda>as. andthen (perform New_Network) (\<lambda>_. give as))"

definition assign_addresses :: "ns3 \<Rightarrow> dev list \<Rightarrow> dev list list \<Rightarrow> dev list list \<Rightarrow> ipv4 list list script" where
  "assign_addresses ns routerToRouter leftToRouter routerToRight =
     andthen (perform (Address_Helper ''10.0.0.0'' ''255.255.255.0'')) (\<lambda>_.
     andthen (assign_link ns routerToRouter) (\<lambda>_.
     andthen (for_each [0..<N1] (\<lambda>i. andthen (element leftToRouter i) (assign_link ns))) (\<lambda>_.
     andthen (for_each [0..<N2] (\<lambda>i. andthen (element routerToRight i) (assign_link ns))) (\<lambda>routerToRightIPAddress.
     andthen (perform Populate_Routing) (\<lambda>_. give routerToRightIPAddress)))))"

definition set_defaults :: "unit script" where
  "set_defaults = perform_all
     [Set_Default ''ns3::TcpSocket::SndBufSize'' (Uint (2 ^ 20)),
      Set_Default ''ns3::TcpSocket::RcvBufSize'' (Uint (2 ^ 20)),
      Set_Default ''ns3::TcpSocket::InitialCwnd'' (Uint 10),
      Set_Default ''ns3::TcpSocket::DelAckCount'' (Uint 1),
      Set_Default ''ns3::TcpSocket::SegmentSize'' (Uint (unat segmentSize)),
      Set_Default ''ns3::TcpSocketBase::Sack'' (Bool True),
      Set_Default (qdiscTypeId @ ''::MaxSize'') (Queue_Size ''100p'')]"

definition install_queue :: "ns3 \<Rightarrow> node list \<Rightarrow> tc_helper script" where
  "install_queue ns routers =
     (let tch = \<lparr>tc_root = Some qdiscTypeId, tc_limits = None\<rparr>
      in andthen (element routers 0) (\<lambda>t0.
         andthen (ask (r_device ns) (Get_Device t0 0)) (\<lambda>d.
         andthen (perform (Uninstall_Qdisc d)) (\<lambda>_.
         andthen (ask (r_device ns) (Get_Device t0 0)) (\<lambda>d.
         andthen (perform (Install_Qdisc tch d)) (\<lambda>_.
         give (tch\<lparr>tc_limits := Some ''ns3::DynamicQueueLimits''\<rparr>)))))))"

definition port_of :: "nat \<Rightarrow> u16" where
  "port_of i = of_nat (50000 + i)"

definition install_applications ::
    "ns3 \<Rightarrow> node list \<Rightarrow> node list \<Rightarrow> ipv4 list list \<Rightarrow> u32 list \<Rightarrow> unit script" where
  "install_applications ns leftNodes rightNodes routerToRightIPAddress flowSize =
     andthen (for_each [0..<N2] (\<lambda>i. andthen (element rightNodes i) (\<lambda>n.
                InstallPacketSink ns n (port_of i) ''ns3::TcpSocketFactory''))) (\<lambda>_.
     andthen (for_each [0..<N1] (\<lambda>i.
       andthen (element leftNodes i) (\<lambda>n.
       andthen (element leftNodes 0) (\<lambda>n0.
       andthen (element routerToRightIPAddress i) (\<lambda>as.
       andthen (element as 1) (\<lambda>address.
       andthen (element flowSize i) (\<lambda>size.
         InstallBulkSend ns n address (port_of i) socketFactory size 0
           (Cwnd_Change (show_nat (unat n))) (State_Change (n - n0))))))))) (\<lambda>_. give ()))"

section \<open>The simulation\<close>

fun sim_events :: "(int \<times> sim_event) list \<Rightarrow> u32 list \<Rightarrow> u32 list script" where
  "sim_events [] fct = give fct"
| "sim_events ((now, Timer (Trace_State n cb)) # evs) fct = andthen (TraceState n cb) (\<lambda>_. sim_events evs fct)"
| "sim_events ((now, Timer (Trace_Cwnd n window cb)) # evs) fct = andthen (TraceCwnd n window cb) (\<lambda>_. sim_events evs fct)"
| "sim_events ((now, Cwnd_Fires (Cwnd_Change nodeId) old new) # evs) fct =
     andthen (CwndChange now nodeId old new) (\<lambda>_. sim_events evs fct)"
| "sim_events ((now, State_Fires (State_Change n) old new) # evs) fct =
     (\<lambda>w. bind_res (StateChange now n old new fct) (\<lambda>fct. sim_events evs fct w))"

definition simulate :: "ns3 \<Rightarrow> u32 list script" where
  "simulate ns =
     andthen (perform (Sim_Stop stopTime)) (\<lambda>_.
     andthen (ask (r_run ns) Sim_Run) (\<lambda>evs.
     andthen (sim_events evs (replicate N1 0)) (\<lambda>fct.
     andthen (perform Sim_Destroy) (\<lambda>_. give fct))))"

definition write_fct :: "u32 list \<Rightarrow> unit script" where
  "write_fct fct = perform (Append_File (dir @ ''fct/fct.dat'') (concat (map (\<lambda>x. line (show_nat (unat x))) fct)))"

definition build_network :: "ns3 \<Rightarrow> u32 list \<Rightarrow> unit script" where
  "build_network ns flowSize =
     andthen (check_types ns) (\<lambda>_.
     andthen (create_nodes ns) (\<lambda>(leftNodes, rightNodes, routers).
     andthen (connect_nodes ns leftNodes rightNodes routers) (\<lambda>(routerToRouter, leftToRouter, routerToRight).
     andthen (create_directories ns) (\<lambda>_.
     andthen (enable_pcap routerToRouter leftToRouter) (\<lambda>_.
     andthen (perform_all [Install_Stack leftNodes, Install_Stack rightNodes, Install_Stack routers]) (\<lambda>_.
     andthen (assign_addresses ns routerToRouter leftToRouter routerToRight) (\<lambda>routerToRightIPAddress.
     andthen set_defaults (\<lambda>_.
     andthen (install_queue ns routers) (\<lambda>_.
     install_applications ns leftNodes rightNodes routerToRightIPAddress flowSize)))))))))"

definition dumbbell_main :: "ns3 \<Rightarrow> u32 list \<Rightarrow> string list \<Rightarrow> int script" where
  "dumbbell_main ns junk argv =
     andthen (build_network ns (flow_sizes ns argv junk)) (\<lambda>_.
     andthen (simulate ns) (\<lambda>fct.
     andthen (write_fct fct) (\<lambda>_. give 0)))"

end
