(* ===== verification/Dumbbell_Base.thy ===== *)
theory Dumbbell_Base
  imports Ns3
begin

text \<open>
  \<open>lab4/dumbbell-base.cc\<close>, the script from which \<open>dumbbell.cc\<close> was developed: the same network, unlimited flows, and no
  tracing. It is a program of its own, with its own constants and functions.
\<close>

definition base_N1 :: nat where "base_N1 = 2"
definition base_N2 :: nat where "base_N2 = 2"
definition base_segmentSize :: u32 where "base_segmentSize = 1448"
definition base_startTime :: int where "base_startTime = 10 * 10 ^ 9"
definition base_stopTime :: int where "base_stopTime = 60 * 10 ^ 9"

definition base_InstallBulkSend :: "ns3 \<Rightarrow> node \<Rightarrow> ipv4 \<Rightarrow> u16 \<Rightarrow> string \<Rightarrow> unit script" where
  "base_InstallBulkSend ns node address port socketFactory =
     andthen (ask (r_apps ns) (Install_App (Bulk_Send socketFactory address port [(''MaxBytes'', Uint 0)]) node)) (\<lambda>sourceApps.
     perform_all [Start_Apps sourceApps base_startTime, Stop_Apps sourceApps base_stopTime])"

definition base_InstallPacketSink :: "ns3 \<Rightarrow> node \<Rightarrow> u16 \<Rightarrow> string \<Rightarrow> unit script" where
  "base_InstallPacketSink ns node port socketFactory =
     andthen (ask (r_apps ns) (Install_App (Packet_Sink socketFactory (any_addr ns) port) node)) (\<lambda>sinkApps.
     perform_all [Start_Apps sinkApps base_startTime, Stop_Apps sinkApps base_stopTime])"

definition base_check_types :: "ns3 \<Rightarrow> unit script" where
  "base_check_types ns =
     andthen (abort_unless (has_type ns ''ns3::FifoQueueDisc'')) (\<lambda>_.
     andthen (abort_unless (has_type ns ''ns3::TcpLinuxReno'')) (\<lambda>_.
     andthen (abort_unless (ns_asserts ns \<longrightarrow> has_type ns ''ns3::TcpClassicRecovery'')) (\<lambda>_.
     perform_all
      [Set_Default ''ns3::TcpL4Protocol::RecoveryType'' (Type_Id ''ns3::TcpClassicRecovery''),
       Set_Default ''ns3::TcpL4Protocol::SocketType'' (Type_Id ''ns3::TcpLinuxReno'')])))"

definition base_create_nodes :: "ns3 \<Rightarrow> (node list \<times> node list \<times> node list) script" where
  "base_create_nodes ns =
     andthen (ask (r_nodes ns) (Create_Nodes 2)) (\<lambda>routers.
     andthen (ask (r_nodes ns) (Create_Nodes base_N1)) (\<lambda>leftNodes.
     andthen (ask (r_nodes ns) (Create_Nodes base_N2)) (\<lambda>rightNodes.
     give (leftNodes, rightNodes, routers))))"

definition base_connect_nodes ::
    "ns3 \<Rightarrow> node list \<Rightarrow> node list \<Rightarrow> node list \<Rightarrow> (dev list \<times> dev list list \<times> dev list list) script" where
  "base_connect_nodes ns leftNodes rightNodes routers =
     (let router = \<lparr>p2p_device = [(''DataRate'', Str ''1Mbps'')], p2p_channel = [(''Delay'', Str ''10ms'')]\<rparr>;
          leaf = \<lparr>p2p_device = [(''DataRate'', Str ''10Mbps'')], p2p_channel = [(''Delay'', Str ''1ms'')]\<rparr>
      in andthen (element routers 0) (\<lambda>t0. andthen (element routers 1) (\<lambda>t1.
         andthen (ask (r_devs ns) (Install_Link router t0 t1)) (\<lambda>routerToRouter.
         andthen (for_each [0..<base_N1] (\<lambda>i. andthen (element leftNodes i) (\<lambda>n.
                    ask (r_devs ns) (Install_Link leaf n t0)))) (\<lambda>leftToRouter.
         andthen (for_each [0..<base_N2] (\<lambda>i. andthen (element rightNodes i) (\<lambda>n.
                    ask (r_devs ns) (Install_Link leaf t1 n)))) (\<lambda>routerToRight.
         give (routerToRouter, leftToRouter, routerToRight)))))))"

definition base_assign_link :: "ns3 \<Rightarrow> dev list \<Rightarrow> ipv4 list script" where
  "base_assign_link ns ds =
     andthen (ask (r_addrs ns) (Assign ds)) (\<lambda>as. andthen (perform New_Network) (\<lambda>_. give as))"

definition base_assign_addresses :: "ns3 \<Rightarrow> dev list \<Rightarrow> dev list list \<Rightarrow> dev list list \<Rightarrow> ipv4 list list script" where
  "base_assign_addresses ns routerToRouter leftToRouter routerToRight =
     andthen (perform (Address_Helper ''10.0.0.0'' ''255.255.255.0'')) (\<lambda>_.
     andthen (base_assign_link ns routerToRouter) (\<lambda>_.
     andthen (for_each [0..<base_N1] (\<lambda>i. andthen (element leftToRouter i) (base_assign_link ns))) (\<lambda>_.
     andthen (for_each [0..<base_N2] (\<lambda>i. andthen (element routerToRight i) (base_assign_link ns))) (\<lambda>routerToRightIPAddress.
     andthen (perform Populate_Routing) (\<lambda>_. give routerToRightIPAddress)))))"

definition base_set_defaults :: "unit script" where
  "base_set_defaults = perform_all
     [Set_Default ''ns3::TcpSocket::SndBufSize'' (Uint (2 ^ 20)),
      Set_Default ''ns3::TcpSocket::RcvBufSize'' (Uint (2 ^ 20)),
      Set_Default ''ns3::TcpSocket::InitialCwnd'' (Uint 10),
      Set_Default ''ns3::TcpSocket::DelAckCount'' (Uint 1),
      Set_Default ''ns3::TcpSocket::SegmentSize'' (Uint (unat base_segmentSize)),
      Set_Default ''ns3::TcpSocketBase::Sack'' (Bool True),
      Set_Default (''ns3::FifoQueueDisc'' @ ''::MaxSize'') (Queue_Size ''100p'')]"

definition base_install_queue :: "ns3 \<Rightarrow> node list \<Rightarrow> tc_helper script" where
  "base_install_queue ns routers =
     (let tch = \<lparr>tc_root = Some ''ns3::FifoQueueDisc'', tc_limits = None\<rparr>
      in andthen (element routers 0) (\<lambda>t0.
         andthen (ask (r_device ns) (Get_Device t0 0)) (\<lambda>d.
         andthen (perform (Uninstall_Qdisc d)) (\<lambda>_.
         andthen (ask (r_device ns) (Get_Device t0 0)) (\<lambda>d.
         andthen (perform (Install_Qdisc tch d)) (\<lambda>_.
         give (tch\<lparr>tc_limits := Some ''ns3::DynamicQueueLimits''\<rparr>)))))))"

definition base_install_applications :: "ns3 \<Rightarrow> node list \<Rightarrow> node list \<Rightarrow> ipv4 list list \<Rightarrow> unit script" where
  "base_install_applications ns leftNodes rightNodes routerToRightIPAddress =
     andthen (for_each [0..<base_N2] (\<lambda>i. andthen (element rightNodes i) (\<lambda>n.
                base_InstallPacketSink ns n (of_nat (50000 + i)) ''ns3::TcpSocketFactory''))) (\<lambda>_.
     andthen (for_each [0..<base_N1] (\<lambda>i.
       andthen (element leftNodes i) (\<lambda>n.
       andthen (element routerToRightIPAddress i) (\<lambda>as.
       andthen (element as 1) (\<lambda>address.
         base_InstallBulkSend ns n address (of_nat (50000 + i)) ''ns3::TcpSocketFactory''))))) (\<lambda>_. give ()))"

definition base_build_network :: "ns3 \<Rightarrow> unit script" where
  "base_build_network ns =
     andthen (base_check_types ns) (\<lambda>_.
     andthen (base_create_nodes ns) (\<lambda>(leftNodes, rightNodes, routers).
     andthen (base_connect_nodes ns leftNodes rightNodes routers) (\<lambda>(routerToRouter, leftToRouter, routerToRight).
     andthen (perform_all [Install_Stack leftNodes, Install_Stack rightNodes, Install_Stack routers]) (\<lambda>_.
     andthen (base_assign_addresses ns routerToRouter leftToRouter routerToRight) (\<lambda>routerToRightIPAddress.
     andthen base_set_defaults (\<lambda>_.
     andthen (base_install_queue ns routers) (\<lambda>_.
     base_install_applications ns leftNodes rightNodes routerToRightIPAddress)))))))"

definition base_main :: "ns3 \<Rightarrow> int script" where
  "base_main ns =
     andthen (base_build_network ns) (\<lambda>_.
     andthen (perform_all [Sim_Stop base_stopTime, Sim_Run, Sim_Destroy]) (\<lambda>_. give 0))"

end
