(* ===== verification/Experiment.thy ===== *)
theory Experiment
  imports Dumbbell Dumbbell_Base
begin

text \<open>
  What the ns-3 scripts set up, under the documented behaviour of ns-3: node ids and handles are handed out in order, a link has
  one device at each end, and addresses are assigned in the order of the devices, one network after the other.
\<close>

section \<open>Documented behaviour of ns-3\<close>

fun node_count :: "call list \<Rightarrow> nat" where
  "node_count [] = 0"
| "node_count (Create_Nodes n # w) = node_count w + n"
| "node_count (c # w) = node_count w"

text \<open>The devices of links, newest first, as the node at which each one is.\<close>

fun dev_nodes :: "call list \<Rightarrow> node list" where
  "dev_nodes [] = []"
| "dev_nodes (Install_Link h a b # w) = b # a # dev_nodes w"
| "dev_nodes (c # w) = dev_nodes w"

definition node_devs :: "call list \<Rightarrow> node \<Rightarrow> dev list" where
  "node_devs w n = (let ns = rev (dev_nodes w) in filter (\<lambda>d. ns ! d = n) [0..<length ns])"

text \<open>
  Addresses are stated only for what the scripts do: the helper was made with base 10.0.0.0 and mask 255.255.255.0, and each
  \<open>Assign\<close> is the first one in its network.
\<close>

fun net_given :: "call list \<Rightarrow> bool" where
  "net_given [] = False"
| "net_given (Address_Helper a m # w) = (a = ''10.0.0.0'' \<and> m = ''255.255.255.0'')"
| "net_given (c # w) = net_given w"

fun net_fresh :: "call list \<Rightarrow> bool" where
  "net_fresh [] = False"
| "net_fresh (Address_Helper a m # w) = True"
| "net_fresh (New_Network # w) = True"
| "net_fresh (Assign ds # w) = False"
| "net_fresh (c # w) = net_fresh w"

text \<open>The base address of the current network, when \<open>net_given\<close>.\<close>

fun net_base :: "call list \<Rightarrow> ipv4" where
  "net_base [] = 0"
| "net_base (Address_Helper a m # w) = 0x0A000000"
| "net_base (New_Network # w) = net_base w + 256"
| "net_base (c # w) = net_base w"

fun app_count :: "call list \<Rightarrow> nat" where
  "app_count [] = 0"
| "app_count (Install_App a n # w) = Suc (app_count w)"
| "app_count (c # w) = app_count w"

definition ns_laws :: "ns3 \<Rightarrow> bool" where
  "ns_laws ns \<longleftrightarrow>
     (\<forall>n w. r_nodes ns (Create_Nodes n # w) = map of_nat [node_count w..<node_count w + n])
   \<and> (\<forall>h a b w. r_devs ns (Install_Link h a b # w) = [length (dev_nodes w), Suc (length (dev_nodes w))])
   \<and> (\<forall>ds w. net_given w \<and> net_fresh w \<and> length ds < 255 \<longrightarrow>
        r_addrs ns (Assign ds # w) = map (\<lambda>j. net_base w + of_nat j) [1..<Suc (length ds)])
   \<and> (\<forall>n i w. i < length (node_devs w n) \<longrightarrow> r_device ns (Get_Device n i # w) = node_devs w n ! i)
   \<and> (\<forall>a n w. r_apps ns (Install_App a n # w) = app_count w)"

text \<open>The installation has the types that the scripts name, and the shell commands succeed.\<close>

definition ns_ready :: "ns3 \<Rightarrow> bool" where
  "ns_ready ns \<longleftrightarrow> has_type ns qdiscTypeId \<and> has_type ns tcpTypeId \<and> has_type ns recovery \<and> (\<forall>c w. r_system ns (System c # w) = 0)"

lemmas laws = ns_laws_def [THEN iffD1, THEN conjunct1, rule_format]
  ns_laws_def [THEN iffD1, THEN conjunct2, THEN conjunct1, rule_format]
  ns_laws_def [THEN iffD1, THEN conjunct2, THEN conjunct2, THEN conjunct1, rule_format]
  ns_laws_def [THEN iffD1, THEN conjunct2, THEN conjunct2, THEN conjunct2, THEN conjunct1, rule_format]
  ns_laws_def [THEN iffD1, THEN conjunct2, THEN conjunct2, THEN conjunct2, THEN conjunct2, rule_format]

section \<open>The calls of the scripts\<close>

declare One_nat_def [simp del]

lemma upt_2 [simp]: "[0..<2] = [0, 1 :: nat]"
  by (simp add: numeral_2_eq_2)

lemma check_types_run [script]:
  "ns_ready ns \<Longrightarrow> check_types ns w = Inr ((), Set_Default ''ns3::TcpL4Protocol::SocketType'' (Type_Id tcpTypeId)
     # Set_Default ''ns3::TcpL4Protocol::RecoveryType'' (Type_Id recovery) # w)"
  by (simp add: check_types_def ns_ready_def script)

lemma create_nodes_run [script]:
  "ns_laws ns \<Longrightarrow> node_count w = 0 \<Longrightarrow>
   create_nodes ns w = Inr (([2, 3], [4, 5], [0, 1]), Create_Nodes 2 # Create_Nodes 2 # Create_Nodes 2 # w)"
  by (simp add: create_nodes_def script laws N1_def N2_def upt_rec [of _ "Suc _"] upt_rec [of _ "numeral _"])

definition link_calls :: "call list" where
  "link_calls =
     [Install_Link pointToPointLeaf 1 5, Install_Link pointToPointLeaf 1 4, Install_Link pointToPointLeaf 3 0,
      Install_Link pointToPointLeaf 2 0, Install_Link pointToPointRouter 0 1]"

lemma connect_nodes_run [script]:
  "ns_laws ns \<Longrightarrow> dev_nodes w = [] \<Longrightarrow>
   connect_nodes ns [2, 3] [4, 5] [0, 1] w = Inr (([0, 1], [[2, 3], [4, 5]], [[6, 7], [8, 9]]), link_calls @ w)"
  by (simp add: connect_nodes_def script laws N1_def N2_def link_calls_def)

definition dir_calls :: "bool \<Rightarrow> call list" where
  "dir_calls found =
     [System ''mkdir -p lv1-results//fct/'', System ''mkdir -p lv1-results//cwnd/'', System ''mkdir -p lv1-results//pcap/'',
      System ''mkdir -p lv1-results/''] @ (if found then [System ''rm -rf lv1-results/''] else []) @ [Stat dir]"

lemma create_directories_run [script]:
  "ns_ready ns \<Longrightarrow> create_directories ns w = Inr ((), dir_calls (r_stat ns (Stat dir # w)) @ w)"
  by (cases "r_stat ns (Stat dir # w)")
     (simp_all add: create_directories_def shell_def script ns_ready_def dir_calls_def dir_def Let_def)

definition pcap_calls :: "call list" where
  "pcap_calls = map (\<lambda>(h, d). Enable_Pcap h (dir @ ''pcap/lv1'') d True)
     [(pointToPointLeaf, 5), (pointToPointLeaf, 3), (pointToPointRouter, 0)]"

lemma enable_pcap_run [script]:
  "enable_pcap [0, 1] [[2, 3], [4, 5]] w = Inr ((), pcap_calls @ w)"
  by (simp add: enable_pcap_def script N1_def pcap_calls_def)

definition address_calls :: "call list" where
  "address_calls = Populate_Routing # concat (map (\<lambda>ds. [New_Network, Assign ds]) [[8, 9], [6, 7], [4, 5], [2, 3], [0, 1]])
     @ [Address_Helper ''10.0.0.0'' ''255.255.255.0'']"

lemma assign_addresses_run [script]:
  "ns_laws ns \<Longrightarrow> assign_addresses ns [0, 1] [[2, 3], [4, 5]] [[6, 7], [8, 9]] w
     = Inr ([[0x0A000301, 0x0A000302], [0x0A000401, 0x0A000402]], address_calls @ w)"
  by (simp add: assign_addresses_def assign_link_def script laws N1_def N2_def address_calls_def)

lemma set_defaults_run [script]: "set_defaults w = Inr ((), rev
     [Set_Default ''ns3::TcpSocket::SndBufSize'' (Uint (2 ^ 20)), Set_Default ''ns3::TcpSocket::RcvBufSize'' (Uint (2 ^ 20)),
      Set_Default ''ns3::TcpSocket::InitialCwnd'' (Uint 10), Set_Default ''ns3::TcpSocket::DelAckCount'' (Uint 1),
      Set_Default ''ns3::TcpSocket::SegmentSize'' (Uint (unat segmentSize)), Set_Default ''ns3::TcpSocketBase::Sack'' (Bool True),
      Set_Default (qdiscTypeId @ ''::MaxSize'') (Queue_Size ''100p'')] @ w)"
  unfolding set_defaults_def by (rule perform_all_run)

definition queue_calls :: "call list" where
  "queue_calls = [Install_Qdisc \<lparr>tc_root = Some qdiscTypeId, tc_limits = None\<rparr> 0, Get_Device 0 0, Uninstall_Qdisc 0, Get_Device 0 0]"

lemma install_queue_run [script]:
  "ns_laws ns \<Longrightarrow> dev_nodes w = [5, 1, 4, 1, 0, 3, 0, 2, 1, 0] \<Longrightarrow>
   install_queue ns [0, 1] w = Inr (\<lparr>tc_root = Some qdiscTypeId, tc_limits = Some ''ns3::DynamicQueueLimits''\<rparr>, queue_calls @ w)"
  by (simp add: install_queue_def script laws queue_calls_def node_devs_def Let_def upt_rec [of _ "numeral _"] upt_rec [of _ "Suc _"])

definition sink_calls :: "ns3 \<Rightarrow> nat \<Rightarrow> node \<Rightarrow> u16 \<Rightarrow> call list" where
  "sink_calls ns a n port =
     [Stop_Apps a stopTime, Start_Apps a startTime, Install_App (Packet_Sink socketFactory (any_addr ns) port) n]"

definition bulk_calls :: "nat \<Rightarrow> node \<Rightarrow> ipv4 \<Rightarrow> u16 \<Rightarrow> u32 \<Rightarrow> string \<Rightarrow> u32 \<Rightarrow> call list" where
  "bulk_calls a n address port bytes label flow =
     [Stop_Apps a stopTime, Schedule (startTime + 1) (Trace_Cwnd n 0 (Cwnd_Change label)),
      Schedule (startTime + 1) (Trace_State n (State_Change flow)), Start_Apps a startTime,
      Install_App (Bulk_Send socketFactory address port [(''MaxBytes'', Uint (unat bytes))]) n]"

definition app_calls :: "ns3 \<Rightarrow> u32 \<Rightarrow> u32 \<Rightarrow> call list" where
  "app_calls ns f0 f1 =
     bulk_calls 3 3 0x0A000402 50001 f1 ''3'' 1 @ bulk_calls 2 2 0x0A000302 50000 f0 ''2'' 0
     @ sink_calls ns 1 5 50001 @ sink_calls ns 0 4 50000"

lemma show_nat_2_3 [simp]: "show_nat 2 = ''2''" "show_nat 3 = ''3''"
  by code_simp+

lemma InstallPacketSink_run [script]:
  "ns_laws ns \<Longrightarrow> InstallPacketSink ns n port ''ns3::TcpSocketFactory'' w = Inr ((), sink_calls ns (app_count w) n port @ w)"
  by (simp add: InstallPacketSink_def script laws sink_calls_def socketFactory_def)

lemma InstallBulkSend_run [script]:
  "ns_laws ns \<Longrightarrow> InstallBulkSend ns n address port socketFactory bytes 0 (Cwnd_Change label) (State_Change flow) w
     = Inr ((), bulk_calls (app_count w) n address port bytes label flow @ w)"
  by (simp add: InstallBulkSend_def script laws bulk_calls_def)

lemma app_count_calls [simp]:
  "app_count (sink_calls ns a n port @ w) = app_count w + 1"
  "app_count (bulk_calls a n address port bytes label flow @ w) = app_count w + 1"
  by (simp_all add: sink_calls_def bulk_calls_def)

lemma install_applications_run [script]:
  "ns_laws ns \<Longrightarrow> app_count w = 0 \<Longrightarrow>
   install_applications ns [2, 3] [4, 5] [[0x0A000301, 0x0A000302], [0x0A000401, 0x0A000402]] [f0, f1] w
     = Inr ((), app_calls ns f0 f1 @ w)"
  by (simp add: install_applications_def script N1_def N2_def app_calls_def port_of_def)

definition network_calls :: "ns3 \<Rightarrow> u32 \<Rightarrow> u32 \<Rightarrow> call list" where
  "network_calls ns f0 f1 =
     (let w = link_calls @ [Create_Nodes 2, Create_Nodes 2, Create_Nodes 2,
                Set_Default ''ns3::TcpL4Protocol::SocketType'' (Type_Id tcpTypeId),
                Set_Default ''ns3::TcpL4Protocol::RecoveryType'' (Type_Id recovery)]
      in app_calls ns f0 f1 @ queue_calls
         @ [Set_Default (qdiscTypeId @ ''::MaxSize'') (Queue_Size ''100p''), Set_Default ''ns3::TcpSocketBase::Sack'' (Bool True),
            Set_Default ''ns3::TcpSocket::SegmentSize'' (Uint (unat segmentSize)), Set_Default ''ns3::TcpSocket::DelAckCount'' (Uint 1),
            Set_Default ''ns3::TcpSocket::InitialCwnd'' (Uint 10), Set_Default ''ns3::TcpSocket::RcvBufSize'' (Uint (2 ^ 20)),
            Set_Default ''ns3::TcpSocket::SndBufSize'' (Uint (2 ^ 20))]
         @ address_calls @ [Install_Stack [0, 1], Install_Stack [4, 5], Install_Stack [2, 3]]
         @ pcap_calls @ dir_calls (r_stat ns (Stat dir # w)) @ w)"

lemma no_nodes [simp]:
  "node_count (Set_Default a x # w) = node_count w" "dev_nodes (link_calls @ w) = [5, 1, 4, 1, 0, 3, 0, 2, 1, 0] @ dev_nodes w"
  "dev_nodes (pcap_calls @ w) = dev_nodes w" "dev_nodes (dir_calls found @ w) = dev_nodes w"
  "dev_nodes (address_calls @ w) = dev_nodes w"
  "app_count (link_calls @ w) = app_count w" "app_count (pcap_calls @ w) = app_count w" "app_count (dir_calls found @ w) = app_count w"
  "app_count (address_calls @ w) = app_count w" "app_count (queue_calls @ w) = app_count w"
  by (simp_all add: link_calls_def pcap_calls_def dir_calls_def address_calls_def queue_calls_def)

lemma build_network_run:
  "ns_laws ns \<Longrightarrow> ns_ready ns \<Longrightarrow> build_network ns [f0, f1] [] = Inr ((), network_calls ns f0 f1)"
  by (simp add: build_network_def script network_calls_def Let_def)

section \<open>What was built\<close>

fun links :: "call list \<Rightarrow> (p2p_helper \<times> node \<times> node) list" where
  "links [] = []"
| "links (Install_Link h a b # w) = links w @ [(h, a, b)]"
| "links (c # w) = links w"

text \<open>The addresses that were assigned, with the device of each.\<close>

fun addressed :: "ns3 \<Rightarrow> call list \<Rightarrow> (ipv4 \<times> dev) list" where
  "addressed ns [] = []"
| "addressed ns (Assign ds # w) = addressed ns w @ zip (r_addrs ns (Assign ds # w)) ds"
| "addressed ns (c # w) = addressed ns w"

definition owner :: "ns3 \<Rightarrow> call list \<Rightarrow> ipv4 \<Rightarrow> node option" where
  "owner ns w a = map_option (\<lambda>d. rev (dev_nodes w) ! d) (map_of (addressed ns w) a)"

fun sinks :: "call list \<Rightarrow> (node \<times> u16) list" where
  "sinks [] = []"
| "sinks (Install_App (Packet_Sink f a p) n # w) = sinks w @ [(n, p)]"
| "sinks (c # w) = sinks w"

fun sources :: "call list \<Rightarrow> (node \<times> ipv4 \<times> u16 \<times> (string \<times> attr) list) list" where
  "sources [] = []"
| "sources (Install_App (Bulk_Send f a p as) n # w) = sources w @ [(n, a, p, as)]"
| "sources (c # w) = sources w"

fun queues :: "call list \<Rightarrow> (dev \<times> tc_helper) list" where
  "queues [] = []"
| "queues (Install_Qdisc h d # w) = queues w @ [(d, h)]"
| "queues (c # w) = queues w"

lemmas call_defs = network_calls_def link_calls_def dir_calls_def pcap_calls_def address_calls_def queue_calls_def app_calls_def
  sink_calls_def bulk_calls_def Let_def

text \<open>C19: The script builds the dumbbell that its comment draws: one link of 1 Mbps and 10 ms between the routers, four of
  10 Mbps and 1 ms to the hosts, all addresses different; a sink on the first right host at port 50000 and on the second at 50001; and one sender on each
  left host, whose remote address belongs to the right host opposite to it, at that host's port and with the number of bytes from
  the command line.
\<close>

theorem dumbbell_network:
  assumes "ns_laws ns" and "ns_ready ns"
  shows "\<exists>w. build_network ns [f0, f1] [] = Inr ((), w)
    \<and> (let slow = \<lparr>p2p_device = [(''DataRate'', Str ''1Mbps'')], p2p_channel = [(''Delay'', Str ''10ms'')]\<rparr>;
           fast = \<lparr>p2p_device = [(''DataRate'', Str ''10Mbps'')], p2p_channel = [(''Delay'', Str ''1ms'')]\<rparr>
       in links w = [(slow, 0, 1), (fast, 2, 0), (fast, 3, 0), (fast, 1, 4), (fast, 1, 5)])
    \<and> distinct (map fst (addressed ns w))
    \<and> sinks w = [(4, 50000), (5, 50001)]
    \<and> map (\<lambda>(n, a, p, as). (n, owner ns w a, p, as)) (sources w)
        = [(2, Some 4, 50000, [(''MaxBytes'', Uint (unat f0))]), (3, Some 5, 50001, [(''MaxBytes'', Uint (unat f1))])]"
proof -
  let ?w = "network_calls ns f0 f1"
  have "links ?w = [(pointToPointRouter, 0, 1), (pointToPointLeaf, 2, 0), (pointToPointLeaf, 3, 0), (pointToPointLeaf, 1, 4),
                 (pointToPointLeaf, 1, 5)]" by (simp add: call_defs)
  moreover have "sinks ?w = [(4, 50000), (5, 50001)]" by (simp add: call_defs)
  moreover have "addressed ns ?w = [(0x0A000001, 0), (0x0A000002, 1), (0x0A000101, 2), (0x0A000102, 3), (0x0A000201, 4),
      (0x0A000202, 5), (0x0A000301, 6), (0x0A000302, 7), (0x0A000401, 8), (0x0A000402, 9)]" (is "_ = ?a")
    by (simp add: call_defs laws [OF assms(1)])
  moreover have "sources ?w = [(2, 0x0A000302, 50000, [(''MaxBytes'', Uint (unat f0))]),
      (3, 0x0A000402, 50001, [(''MaxBytes'', Uint (unat f1))])]" by (simp add: call_defs)
  moreover have "rev (dev_nodes ?w) = [0, 1, 2, 0, 3, 0, 1, 4, 1, 5]" by (simp add: call_defs)
  ultimately show ?thesis using build_network_run [OF assms] by (intro exI [of _ ?w]) (simp add: owner_def pointToPointRouter_def pointToPointLeaf_def)
qed

text \<open>The queue discipline is installed on the first device of the left router, which is its end of the slow link, after the
  limit of 100 packets was made the default; but the byte queue limits that the script enables afterwards are in no installed
  queue discipline, because the helper is changed after its only use.
\<close>

theorem bottleneck_queue_has_no_limits:
  assumes "ns_laws ns" and "ns_ready ns"
  shows "\<exists>w. build_network ns [f0, f1] [] = Inr ((), w)
    \<and> queues w = [(0, \<lparr>tc_root = Some ''ns3::FifoQueueDisc'', tc_limits = None\<rparr>)] \<and> node_devs w 0 ! 0 = 0
    \<and> Set_Default ''ns3::FifoQueueDisc::MaxSize'' (Queue_Size ''100p'') \<in> set w"
proof -
  let ?w = "network_calls ns f0 f1"
  have "queues ?w = [(0, \<lparr>tc_root = Some ''ns3::FifoQueueDisc'', tc_limits = None\<rparr>)]"
    by (simp add: call_defs qdiscTypeId_def)
  moreover have "rev (dev_nodes ?w) = [0, 1, 2, 0, 3, 0, 1, 4, 1, 5]" by (simp add: call_defs)
  then have "node_devs ?w 0 ! 0 = 0" by (simp add: node_devs_def Let_def upt_rec [of _ "numeral _"] upt_rec [of _ "Suc _"])
  moreover have "Set_Default ''ns3::FifoQueueDisc::MaxSize'' (Queue_Size ''100p'') \<in> set ?w"
    by (simp add: call_defs qdiscTypeId_def)
  ultimately show ?thesis using build_network_run [OF assms] by blast
qed

section \<open>The base script\<close>

text \<open>Calls that set something up, not those that look at the experiment.\<close>

fun configures :: "call \<Rightarrow> bool" where
  "configures (Stat d) = False"
| "configures (System c) = False"
| "configures (Enable_Pcap h f d p) = False"
| "configures (Schedule t s) = False"
| "configures c = True"

lemma base_assign_link [script]: "base_assign_link ns = assign_link ns"
  by (simp add: fun_eq_iff base_assign_link_def assign_link_def)

lemma base_sections [script]:
  "base_check_types ns = check_types ns" "base_create_nodes ns = create_nodes ns" "base_connect_nodes ns = connect_nodes ns"
  "base_assign_addresses ns = assign_addresses ns" "base_set_defaults = set_defaults" "base_install_queue ns = install_queue ns"
  "base_InstallPacketSink ns = InstallPacketSink ns"
  by (simp_all add: fun_eq_iff base_check_types_def check_types_def base_create_nodes_def create_nodes_def base_connect_nodes_def
      connect_nodes_def base_assign_addresses_def assign_addresses_def base_assign_link
      base_set_defaults_def set_defaults_def base_install_queue_def install_queue_def base_InstallPacketSink_def
      InstallPacketSink_def qdiscTypeId_def tcpTypeId_def recovery_def base_N1_def base_N2_def N1_def N2_def
      pointToPointRouter_def pointToPointLeaf_def base_segmentSize_def segmentSize_def base_startTime_def startTime_def
      base_stopTime_def stopTime_def Let_def)

definition base_bulk_calls :: "nat \<Rightarrow> node \<Rightarrow> ipv4 \<Rightarrow> u16 \<Rightarrow> call list" where
  "base_bulk_calls a n address port =
     [Stop_Apps a stopTime, Start_Apps a startTime, Install_App (Bulk_Send socketFactory address port [(''MaxBytes'', Uint 0)]) n]"

lemma base_InstallBulkSend_run [script]:
  "ns_laws ns \<Longrightarrow> base_InstallBulkSend ns n address port ''ns3::TcpSocketFactory'' w
     = Inr ((), base_bulk_calls (app_count w) n address port @ w)"
  by (simp add: base_InstallBulkSend_def script laws base_bulk_calls_def socketFactory_def base_startTime_def startTime_def
      base_stopTime_def stopTime_def)

lemma base_bulk_count [simp]: "app_count (base_bulk_calls a n address port @ w) = app_count w + 1"
  by (simp add: base_bulk_calls_def)

definition base_app_calls :: "ns3 \<Rightarrow> call list" where
  "base_app_calls ns = base_bulk_calls 3 3 0x0A000402 50001 @ base_bulk_calls 2 2 0x0A000302 50000
     @ sink_calls ns 1 5 50001 @ sink_calls ns 0 4 50000"

lemma base_install_applications_run [script]:
  "ns_laws ns \<Longrightarrow> app_count w = 0 \<Longrightarrow>
   base_install_applications ns [2, 3] [4, 5] [[0x0A000301, 0x0A000302], [0x0A000401, 0x0A000402]] w
     = Inr ((), base_app_calls ns @ w)"
  by (simp add: base_install_applications_def script base_N1_def base_N2_def base_app_calls_def)

text \<open>C21: With both flow sizes 0, which means no limit, \<open>dumbbell.cc\<close> sets up exactly what \<open>dumbbell-base.cc\<close> sets up: the
  same calls with the same arguments in the same order, but for those that trace the experiment.
\<close>

theorem base_is_dumbbell_untraced:
  assumes "ns_laws ns" and "ns_ready ns"
  shows "\<exists>w w'. build_network ns [0, 0] [] = Inr ((), w) \<and> base_build_network ns [] = Inr ((), w')
    \<and> filter configures w = w'"
proof -
  let ?w = "filter configures (network_calls ns 0 0)"
  have "base_build_network ns [] = Inr ((), ?w)"
    by (simp add: base_build_network_def script assms) (simp add: call_defs base_app_calls_def base_bulk_calls_def)
  then show ?thesis using build_network_run [OF assms] by blast
qed

section \<open>Flow completion times\<close>

text \<open>The last time at which a flow entered \<open>TIME_WAIT\<close>.\<close>

fun finished :: "nat \<Rightarrow> (int \<times> sim_event) list \<Rightarrow> int option" where
  "finished i [] = None"
| "finished i ((t, State_Fires (State_Change n) old new) # evs) =
     (case finished i evs of
        Some t' \<Rightarrow> Some t'
      | None \<Rightarrow> if unat n = i \<and> new = TIME_WAIT then Some t else None)"
| "finished i (ev # evs) = finished i evs"

text \<open>
  The simulator stops at the stop time, and a callback on the state of a connection is one that the script has scheduled to be
  connected, and fires after that.
\<close>

definition run_ok :: "ns3 \<Rightarrow> bool" where
  "run_ok ns \<longleftrightarrow> (\<forall>w t ev. (t, ev) \<in> set (r_run ns (Sim_Run # w)) \<longrightarrow> (\<forall>T. Sim_Stop T \<in> set w \<longrightarrow> t \<le> T)
     \<and> (\<forall>cb old new. ev = State_Fires cb old new \<longrightarrow> (\<exists>t0 p. Schedule t0 (Trace_State p cb) \<in> set w \<and> t0 \<le> t)))"

lemma sim_events_fct:
  assumes "\<forall>t n old new. (t, State_Fires (State_Change n) old new) \<in> set evs \<longrightarrow> unat n < length fct"
  shows "\<exists>fct' w'. sim_events evs fct w = Inr (fct', w' @ w) \<and> length fct' = length fct
    \<and> (\<forall>i < length fct. fct' ! i = (case finished i evs of None \<Rightarrow> fct ! i
         | Some t \<Rightarrow> of_int (micro_seconds t - micro_seconds startTime)))"
  using assms
proof (induction evs fct arbitrary: w rule: sim_events.induct)
  case (2 now n cb evs fct)
  from "2.prems" have "\<forall>t n old new. (t, State_Fires (State_Change n) old new) \<in> set evs \<longrightarrow> unat n < length fct" by auto
  note ih = "2.IH" [OF this]
  obtain c where c: "sim_events ((now, Timer (Trace_State n cb)) # evs) fct w = sim_events evs fct (c # w)"
    by (simp add: TraceState_def script)
  from ih [of "c # w"] obtain fct' w' where
    "sim_events evs fct (c # w) = Inr (fct', w' @ c # w)" "length fct' = length fct"
    "\<forall>i < length fct. fct' ! i = (case finished i evs of None \<Rightarrow> fct ! i
         | Some t \<Rightarrow> of_int (micro_seconds t - micro_seconds startTime))" by blast
  with c show ?case by (intro exI [of _ fct'] exI [of _ "w' @ [c]"]) simp
next
  case (3 now n window cb evs fct)
  from "3.prems" have "\<forall>t n old new. (t, State_Fires (State_Change n) old new) \<in> set evs \<longrightarrow> unat n < length fct" by auto
  note ih = "3.IH" [OF this]
  obtain c where c: "sim_events ((now, Timer (Trace_Cwnd n window cb)) # evs) fct w = sim_events evs fct (c # w)"
    by (simp add: TraceCwnd_def script)
  from ih [of "c # w"] obtain fct' w' where
    "sim_events evs fct (c # w) = Inr (fct', w' @ c # w)" "length fct' = length fct"
    "\<forall>i < length fct. fct' ! i = (case finished i evs of None \<Rightarrow> fct ! i
         | Some t \<Rightarrow> of_int (micro_seconds t - micro_seconds startTime))" by blast
  with c show ?case by (intro exI [of _ fct'] exI [of _ "w' @ [c]"]) simp
next
  case (4 now nodeId old new evs fct)
  from "4.prems" have "\<forall>t n old new. (t, State_Fires (State_Change n) old new) \<in> set evs \<longrightarrow> unat n < length fct" by auto
  note ih = "4.IH" [OF this]
  obtain c where c: "sim_events ((now, Cwnd_Fires (Cwnd_Change nodeId) old new) # evs) fct w = sim_events evs fct (c # w)"
    by (simp add: CwndChange_def script)
  from ih [of "c # w"] obtain fct' w' where
    "sim_events evs fct (c # w) = Inr (fct', w' @ c # w)" "length fct' = length fct"
    "\<forall>i < length fct. fct' ! i = (case finished i evs of None \<Rightarrow> fct ! i
         | Some t \<Rightarrow> of_int (micro_seconds t - micro_seconds startTime))" by blast
  with c show ?case by (intro exI [of _ fct'] exI [of _ "w' @ [c]"]) simp
next
  case (5 now n old new evs fct)
  obtain fct1 where f1: "StateChange now n old new fct = Inr fct1" "length fct1 = length fct"
    "fct1 = (if new = TIME_WAIT then fct[unat n := of_int (micro_seconds now - micro_seconds startTime)] else fct)"
    using "5.prems" by (auto simp: StateChange_def)
  from "5.prems" f1(2) have "\<forall>t n old new. (t, State_Fires (State_Change n) old new) \<in> set evs \<longrightarrow> unat n < length fct1" by auto
  from "5.IH" [OF this, of w] obtain fct2 w' where
    f2: "sim_events evs fct1 w = Inr (fct2, w' @ w)" "length fct2 = length fct1"
      "\<forall>i < length fct1. fct2 ! i = (case finished i evs of None \<Rightarrow> fct1 ! i
         | Some t \<Rightarrow> of_int (micro_seconds t - micro_seconds startTime))" by blast
  have "fct2 ! i = (case finished i ((now, State_Fires (State_Change n) old new) # evs) of None \<Rightarrow> fct ! i
         | Some t \<Rightarrow> of_int (micro_seconds t - micro_seconds startTime))" if "i < length fct" for i
    using f2(3) f1(2,3) that by (auto simp: nth_list_update split: option.splits)
  with f1 f2 show ?case by auto
qed (simp add: script)

lemma finished_mem: "finished i evs = Some t \<Longrightarrow> \<exists>n old. (t, State_Fires (State_Change n) old TIME_WAIT) \<in> set evs"
  by (induction i evs rule: finished.induct) (auto split: option.splits if_splits)

lemma state_callbacks:
  "Schedule t0 (Trace_State p cb) \<in> set (Sim_Stop stopTime # network_calls ns f0 f1) \<Longrightarrow>
   t0 = startTime + 1 \<and> (cb = State_Change 0 \<or> cb = State_Change 1)"
  by (auto simp: call_defs split: if_splits)

lemma micro_seconds_fct:
  assumes "startTime \<le> t" and "t \<le> stopTime"
  shows "unat (of_int (micro_seconds t - micro_seconds startTime) :: u32) = nat (t div 1000) - 10000000"
proof -
  have "micro_seconds t - micro_seconds startTime = int (nat (t div 1000) - 10000000)"
    using assms by (simp add: micro_seconds_def startTime_def of_nat_diff)
  moreover have "nat (t div 1000) - 10000000 < 2 ^ 32" using assms by (simp add: stopTime_def)
  ultimately show ?thesis by (simp add: unat_of_nat take_bit_nat_eq_self)
qed

text \<open>C20: The script ends with status 0 and \<open>fct.dat\<close> holds, for the two flows in order, the microseconds from the start to
  the last time at which the flow entered \<open>TIME_WAIT\<close>, and 0 for a flow that did not; the 32 bits of \<open>fct\<close> are enough and
  the index that is bound to the callback is inside the array. The simulator is assumed to stop at the stop time and to fire only
  callbacks that the script scheduled.
\<close>

theorem completion_times_are_exact:
  assumes "ns_laws ns" and "ns_ready ns" and "run_ok ns"
  shows "\<exists>w0 w1. dumbbell_main ns junk argv [] = Inr (0, Append_File ''lv1-results/fct/fct.dat''
    (concat (map (\<lambda>i. line (show_nat (case finished i (r_run ns (Sim_Run # w0)) of
        None \<Rightarrow> 0 | Some t \<Rightarrow> nat (t div 1000) - 10000000))) [0, 1])) # Sim_Destroy # w1 @ Sim_Run # w0)"
proof -
  obtain f0 f1 where f: "flow_sizes ns argv junk = [f0, f1]" by (simp add: flow_sizes_def N1_def)
  let ?w0 = "Sim_Stop stopTime # network_calls ns f0 f1"
  let ?evs = "r_run ns (Sim_Run # ?w0)"
  have ev: "startTime \<le> t \<and> t \<le> stopTime \<and> unat n < 2"
    if mem: "(t, State_Fires (State_Change n) old new) \<in> set ?evs" for t n old new
  proof -
    from assms(3) mem have "t \<le> stopTime"
      "\<exists>t0 p. Schedule t0 (Trace_State p (State_Change n)) \<in> set ?w0 \<and> t0 \<le> t" unfolding run_ok_def by fastforce+
    then obtain t0 p where "Schedule t0 (Trace_State p (State_Change n)) \<in> set ?w0" "t0 \<le> t" "t \<le> stopTime" by blast
    with state_callbacks [of t0 p "State_Change n" ns f0 f1] show ?thesis by auto
  qed
  then have "\<forall>t n old new. (t, State_Fires (State_Change n) old new) \<in> set ?evs \<longrightarrow> unat n < length (replicate N1 (0 :: u32))"
    unfolding N1_def length_replicate by blast
  from sim_events_fct [OF this, of "Sim_Run # ?w0"] obtain fct w1 where
    run: "sim_events ?evs (replicate N1 0) (Sim_Run # ?w0) = Inr (fct, w1 @ Sim_Run # ?w0)" "length fct = N1"
      "\<forall>i < N1. fct ! i = (case finished i ?evs of None \<Rightarrow> replicate N1 0 ! i
         | Some t \<Rightarrow> of_int (micro_seconds t - micro_seconds startTime))"
    unfolding length_replicate by blast
  have len: "length fct = 2" using run(2) by (simp add: N1_def)
  have val: "fct ! i = (case finished i ?evs of None \<Rightarrow> 0 | Some t \<Rightarrow> of_int (micro_seconds t - micro_seconds startTime))"
    if "i < 2" for i using run(3) that by (simp add: N1_def cong: option.case_cong)
  have un: "unat (fct ! i) = (case finished i ?evs of None \<Rightarrow> 0 | Some t \<Rightarrow> nat (t div 1000) - 10000000)" if "i < 2" for i
  proof (cases "finished i ?evs")
    case (Some t)
    then show ?thesis using val [OF that] ev micro_seconds_fct finished_mem [OF Some] by fastforce
  qed (use val [OF that] in simp)
  have "fct = [fct ! 0, fct ! 1]" using len by (intro nth_equalityI) (auto simp: less_2_cases_iff One_nat_def)
  then have "map (\<lambda>x. line (show_nat (unat x))) fct = map (\<lambda>x. line (show_nat (unat x))) [fct ! 0, fct ! 1]" by simp
  also have "\<dots> = map (\<lambda>i. line (show_nat (case finished i ?evs of
        None \<Rightarrow> 0 | Some t \<Rightarrow> nat (t div 1000) - 10000000))) [0, 1]"
    using un [of 0] un [of 1] by simp
  finally have fcts: "map (\<lambda>x. line (show_nat (unat x))) fct = map (\<lambda>i. line (show_nat (case finished i ?evs of
        None \<Rightarrow> 0 | Some t \<Rightarrow> nat (t div 1000) - 10000000))) [0, 1]" .
  have "dumbbell_main ns junk argv [] = Inr (0, Append_File ''lv1-results/fct/fct.dat''
    (concat (map (\<lambda>i. line (show_nat (case finished i ?evs of
        None \<Rightarrow> 0 | Some t \<Rightarrow> nat (t div 1000) - 10000000))) [0, 1])) # Sim_Destroy # w1 @ Sim_Run # ?w0)"
    using run(1) by (simp only: fcts [symmetric]) (simp add: dumbbell_main_def f build_network_run [OF assms(1,2)] simulate_def script write_fct_def dir_def)
  then show ?thesis by blast
qed

section \<open>An example installation\<close>

definition demo_event :: "int \<times> sim_event" where
  "demo_event = (12 * 10 ^ 9, State_Fires (State_Change 0) (Other_State 0) TIME_WAIT)"

definition demo_ns :: ns3 where
  "demo_ns =
     \<lparr>has_type = (\<lambda>t. True),
      r_nodes = (\<lambda>w. case w of Create_Nodes n # w \<Rightarrow> map of_nat [node_count w..<node_count w + n] | _ \<Rightarrow> []),
      r_devs = (\<lambda>w. [length (dev_nodes (tl w)), Suc (length (dev_nodes (tl w)))]),
      r_addrs = (\<lambda>w. case w of Assign ds # w \<Rightarrow> map (\<lambda>j. net_base w + of_nat j) [1..<Suc (length ds)] | _ \<Rightarrow> []),
      r_device = (\<lambda>w. case w of Get_Device n i # w \<Rightarrow> node_devs w n ! i | _ \<Rightarrow> 0),
      r_apps = (\<lambda>w. app_count (tl w)), r_stat = (\<lambda>w. False), r_system = (\<lambda>w. 0),
      r_run = (\<lambda>w. if Schedule (startTime + 1) (Trace_State 2 (State_Change 0)) \<in> set w \<and> (\<forall>T. Sim_Stop T \<in> set w \<longrightarrow> stopTime \<le> T)
                    then [demo_event] else []),
      any_addr = 0, cmd_value = (\<lambda>argv opt. None), ns_asserts = True\<rparr>"

lemma demo_ns_ok: "ns_laws demo_ns" "ns_ready demo_ns" "run_ok demo_ns"
  by (auto simp: ns_laws_def ns_ready_def run_ok_def demo_ns_def demo_event_def startTime_def stopTime_def)

lemma dumbbell_network_witness:
  "\<exists>w. build_network demo_ns [10, 20] [] = Inr ((), w)
    \<and> (let slow = \<lparr>p2p_device = [(''DataRate'', Str ''1Mbps'')], p2p_channel = [(''Delay'', Str ''10ms'')]\<rparr>;
           fast = \<lparr>p2p_device = [(''DataRate'', Str ''10Mbps'')], p2p_channel = [(''Delay'', Str ''1ms'')]\<rparr>
       in links w = [(slow, 0, 1), (fast, 2, 0), (fast, 3, 0), (fast, 1, 4), (fast, 1, 5)])
    \<and> distinct (map fst (addressed demo_ns w))
    \<and> sinks w = [(4, 50000), (5, 50001)]
    \<and> map (\<lambda>(n, a, p, as). (n, owner demo_ns w a, p, as)) (sources w)
        = [(2, Some 4, 50000, [(''MaxBytes'', Uint 10)]), (3, Some 5, 50001, [(''MaxBytes'', Uint 20)])]"
  using dumbbell_network [OF demo_ns_ok(1,2), of 10 20] by simp

lemma bottleneck_queue_has_no_limits_witness:
  "\<exists>w. build_network demo_ns [10, 20] [] = Inr ((), w)
    \<and> queues w = [(0, \<lparr>tc_root = Some ''ns3::FifoQueueDisc'', tc_limits = None\<rparr>)] \<and> node_devs w 0 ! 0 = 0
    \<and> Set_Default ''ns3::FifoQueueDisc::MaxSize'' (Queue_Size ''100p'') \<in> set w"
  by (rule bottleneck_queue_has_no_limits [OF demo_ns_ok(1,2)])

lemma base_is_dumbbell_untraced_witness:
  "\<exists>w w'. build_network demo_ns [0, 0] [] = Inr ((), w) \<and> base_build_network demo_ns [] = Inr ((), w')
    \<and> filter configures w = w'"
  by (rule base_is_dumbbell_untraced [OF demo_ns_ok(1,2)])

lemma completion_times_are_exact_witness:
  "\<exists>w0 w1. dumbbell_main demo_ns [7, 8] [''dumbbell''] [] = Inr (0, Append_File ''lv1-results/fct/fct.dat''
    (concat (map (\<lambda>i. line (show_nat (case finished i (r_run demo_ns (Sim_Run # w0)) of
        None \<Rightarrow> 0 | Some t \<Rightarrow> nat (t div 1000) - 10000000))) [0, 1])) # Sim_Destroy # w1 @ Sim_Run # w0)"
  by (rule completion_times_are_exact [OF demo_ns_ok])

end
