(* ===== verification/Hello.thy ===== *)
theory Hello
  imports Args
begin

text \<open>
  \<open>lab0/hellonetwork.cpp\<close>: what the program prints to its two outputs, and its exit status, for the strings of its command
  line.
\<close>

definition hello_main :: "string list \<Rightarrow> string \<times> string \<times> int" where
  "hello_main argv =
     (let option = (if length argv = 2 then atoi (argv ! 1) else 0)
      in if option = 0 then (''TA is saying hello'' @ [CHR 0x0A], [], 0)
         else if option = 1 then (''Hello Network Hello PKU'' @ [CHR 0x0A], [], 0)
         else ([], ''No such option'' @ [CHR 0x0A], 1))"

lemma hello_main_status: "snd (snd (hello_main argv)) = (if fst (hello_main argv) = [] then 1 else 0)"
  by (simp add: hello_main_def Let_def)

lemma hello_main_examples:
  "fst (hello_main [''hello'']) = ''TA is saying hello'' @ [CHR 0x0A]"
  "fst (hello_main [''hello'', ''1'']) = ''Hello Network Hello PKU'' @ [CHR 0x0A]"
  "fst (hello_main [''hello'', '' +01x'']) = ''Hello Network Hello PKU'' @ [CHR 0x0A]"
  "fst (hello_main [''hello'', ''x'']) = ''TA is saying hello'' @ [CHR 0x0A]"
  by code_simp+

end
