(* ===== verification/Compiler_Id.thy ===== *)
theory Compiler_Id
  imports Args
begin

text \<open>
  \<open>CMakeCCompilerId.c\<close>, the program that CMake puts into a build directory to identify the compiler: the preprocessor picks
  the first branch whose macros are defined, and the strings that result are searched for in the object file. The macros are
  an argument: their numbers and their texts. A macro that is used as a number without being tested counts as 0, as in a
  condition of the preprocessor; compilers that define the macro of a branch define the others, too.
\<close>

record macros =
  mac_number :: "string \<Rightarrow> nat option"
  mac_text :: "string \<Rightarrow> string"

definition defd :: "macros \<Rightarrow> string \<Rightarrow> bool" where
  "defd m x \<longleftrightarrow> mac_number m x \<noteq> None"

definition num :: "macros \<Rightarrow> string \<Rightarrow> nat" where
  "num m x = (case mac_number m x of Some n \<Rightarrow> n | None \<Rightarrow> 0)"

definition text_of :: "macros \<Rightarrow> string \<Rightarrow> string" where
  "text_of m x = mac_text m x"

record ident =
  compiler_id :: string
  simulate_id :: "string option"
  version_text :: "string option"
  version_major :: "string option"
  version_minor :: "string option"
  version_patch :: "string option"
  version_tweak :: "string option"
  version_internal :: "string option"
  version_internal_text :: "string option"
  simulate_major :: "string option"
  simulate_minor :: "string option"
  simulate_patch :: "string option"

definition new_ident :: "string \<Rightarrow> ident" where
  "new_ident name =
     \<lparr>compiler_id = name, simulate_id = None, version_text = None, version_major = None, version_minor = None,
      version_patch = None, version_tweak = None, version_internal = None, version_internal_text = None,
      simulate_major = None, simulate_minor = None, simulate_patch = None\<rparr>"

section \<open>Digits\<close>

text \<open>\<open>DEC\<close> and \<open>HEX\<close> write eight digits; a hexadecimal digit above 9 is a character after \<open>9\<close>.\<close>

definition dec_digits :: "nat \<Rightarrow> string" where
  "dec_digits n = map (\<lambda>k. char_of (48 + (n div k) mod 10))
     [10000000, 1000000, 100000, 10000, 1000, 100, 10, 1]"

definition hex_digits :: "nat \<Rightarrow> string" where
  "hex_digits n = map (\<lambda>k. char_of (48 + (drop_bit k n AND 15))) [28, 24, 20, 16, 12, 8, 4, 0]"

section \<open>The compiler\<close>

definition ident_Intel :: "macros \<Rightarrow> ident" where
  "ident_Intel m =
     (let i = new_ident ''Intel'';
          i = (if defd m ''_MSC_VER''
              then i\<lparr>simulate_id := Some ''MSVC''\<rparr>
              else i);
          i = (if defd m ''__GNUC__''
              then i\<lparr>simulate_id := Some ''GNU''\<rparr>
              else i);
          i = (if num m ''__INTEL_COMPILER'' < 2021 \<or> num m ''__INTEL_COMPILER'' = 202110 \<or> num m ''__INTEL_COMPILER'' = 202111
              then (let i = i\<lparr>version_major := Some (dec_digits (num m ''__INTEL_COMPILER'' div 100)),
                             version_minor := Some (dec_digits (num m ''__INTEL_COMPILER'' div 10 mod 10))\<rparr>
                   in (if defd m ''__INTEL_COMPILER_UPDATE''
                        then i\<lparr>version_patch := Some (dec_digits (num m ''__INTEL_COMPILER_UPDATE''))\<rparr>
                        else i\<lparr>version_patch := Some (dec_digits (num m ''__INTEL_COMPILER'' mod 10))\<rparr>))
              else i\<lparr>version_major := Some (dec_digits (num m ''__INTEL_COMPILER'')),
                             version_minor := Some (dec_digits (num m ''__INTEL_COMPILER_UPDATE'')),
                             version_patch := Some (dec_digits 0)\<rparr>);
          i = (if defd m ''__INTEL_COMPILER_BUILD_DATE''
              then i\<lparr>version_tweak := Some (dec_digits (num m ''__INTEL_COMPILER_BUILD_DATE''))\<rparr>
              else i);
          i = (if defd m ''_MSC_VER''
              then i\<lparr>simulate_major := Some (dec_digits (num m ''_MSC_VER'' div 100)),
                             simulate_minor := Some (dec_digits (num m ''_MSC_VER'' mod 100))\<rparr>
              else i);
          i = (if defd m ''__GNUC__''
              then i\<lparr>simulate_major := Some (dec_digits (num m ''__GNUC__''))\<rparr>
              else if defd m ''__GNUG__''
              then i\<lparr>simulate_major := Some (dec_digits (num m ''__GNUG__''))\<rparr>
              else i);
          i = (if defd m ''__GNUC_MINOR__''
              then i\<lparr>simulate_minor := Some (dec_digits (num m ''__GNUC_MINOR__''))\<rparr>
              else i)
      in (if defd m ''__GNUC_PATCHLEVEL__''
              then i\<lparr>simulate_patch := Some (dec_digits (num m ''__GNUC_PATCHLEVEL__''))\<rparr>
              else i))"

definition ident_IntelLLVM :: "macros \<Rightarrow> ident" where
  "ident_IntelLLVM m =
     (let i = new_ident ''IntelLLVM'';
          i = (if defd m ''_MSC_VER''
              then i\<lparr>simulate_id := Some ''MSVC''\<rparr>
              else i);
          i = (if defd m ''__GNUC__''
              then i\<lparr>simulate_id := Some ''GNU''\<rparr>
              else i);
          i = (if num m ''__INTEL_LLVM_COMPILER'' < 1000000
              then i\<lparr>version_major := Some (dec_digits (num m ''__INTEL_LLVM_COMPILER'' div 100)),
                             version_minor := Some (dec_digits (num m ''__INTEL_LLVM_COMPILER'' div 10 mod 10)),
                             version_patch := Some (dec_digits (num m ''__INTEL_LLVM_COMPILER'' mod 10))\<rparr>
              else i\<lparr>version_major := Some (dec_digits (num m ''__INTEL_LLVM_COMPILER'' div 10000)),
                             version_minor := Some (dec_digits (num m ''__INTEL_LLVM_COMPILER'' div 100 mod 100)),
                             version_patch := Some (dec_digits (num m ''__INTEL_LLVM_COMPILER'' mod 100))\<rparr>);
          i = (if defd m ''_MSC_VER''
              then i\<lparr>simulate_major := Some (dec_digits (num m ''_MSC_VER'' div 100)),
                             simulate_minor := Some (dec_digits (num m ''_MSC_VER'' mod 100))\<rparr>
              else i);
          i = (if defd m ''__GNUC__''
              then i\<lparr>simulate_major := Some (dec_digits (num m ''__GNUC__''))\<rparr>
              else if defd m ''__GNUG__''
              then i\<lparr>simulate_major := Some (dec_digits (num m ''__GNUG__''))\<rparr>
              else i);
          i = (if defd m ''__GNUC_MINOR__''
              then i\<lparr>simulate_minor := Some (dec_digits (num m ''__GNUC_MINOR__''))\<rparr>
              else i)
      in (if defd m ''__GNUC_PATCHLEVEL__''
              then i\<lparr>simulate_patch := Some (dec_digits (num m ''__GNUC_PATCHLEVEL__''))\<rparr>
              else i))"

definition ident_PathScale :: "macros \<Rightarrow> ident" where
  "ident_PathScale m =
     (let i = new_ident ''PathScale'';
          i = i\<lparr>version_major := Some (dec_digits (num m ''__PATHCC__'')),
                   version_minor := Some (dec_digits (num m ''__PATHCC_MINOR__''))\<rparr>
      in (if defd m ''__PATHCC_PATCHLEVEL__''
              then i\<lparr>version_patch := Some (dec_digits (num m ''__PATHCC_PATCHLEVEL__''))\<rparr>
              else i))"

definition ident_Embarcadero :: "macros \<Rightarrow> ident" where
  "ident_Embarcadero m =
     (let i = new_ident ''Embarcadero''
      in i\<lparr>version_major := Some (hex_digits ((drop_bit 24 (num m ''__CODEGEARC_VERSION__'') AND 255))),
                   version_minor := Some (hex_digits ((drop_bit 16 (num m ''__CODEGEARC_VERSION__'') AND 255))),
                   version_patch := Some (dec_digits ((num m ''__CODEGEARC_VERSION__'' AND 65535)))\<rparr>)"

definition ident_Borland :: "macros \<Rightarrow> ident" where
  "ident_Borland m =
     (let i = new_ident ''Borland''
      in i\<lparr>version_major := Some (hex_digits (drop_bit 8 (num m ''__BORLANDC__''))),
                   version_minor := Some (hex_digits ((num m ''__BORLANDC__'' AND 255)))\<rparr>)"

definition ident_Watcom :: "macros \<Rightarrow> ident" where
  "ident_Watcom m =
     (let i = new_ident ''Watcom'';
          i = i\<lparr>version_major := Some (dec_digits (num m ''__WATCOMC__'' div 100)),
                   version_minor := Some (dec_digits ((num m ''__WATCOMC__'' div 10) mod 10))\<rparr>
      in (if 0 < (num m ''__WATCOMC__'' mod 10)
              then i\<lparr>version_patch := Some (dec_digits (num m ''__WATCOMC__'' mod 10))\<rparr>
              else i))"

definition ident_OpenWatcom :: "macros \<Rightarrow> ident" where
  "ident_OpenWatcom m =
     (let i = new_ident ''OpenWatcom'';
          i = i\<lparr>version_major := Some (dec_digits ((num m ''__WATCOMC__'' - 1100) div 100)),
                   version_minor := Some (dec_digits ((num m ''__WATCOMC__'' div 10) mod 10))\<rparr>
      in (if 0 < (num m ''__WATCOMC__'' mod 10)
              then i\<lparr>version_patch := Some (dec_digits (num m ''__WATCOMC__'' mod 10))\<rparr>
              else i))"

definition ident_SunPro :: "macros \<Rightarrow> ident" where
  "ident_SunPro m =
     (let i = new_ident ''SunPro''
      in (if 20736 \<le> num m ''__SUNPRO_C''
              then i\<lparr>version_major := Some (hex_digits (drop_bit 12 (num m ''__SUNPRO_C''))),
                             version_minor := Some (hex_digits ((drop_bit 4 (num m ''__SUNPRO_C'') AND 255))),
                             version_patch := Some (hex_digits ((num m ''__SUNPRO_C'' AND 15)))\<rparr>
              else i\<lparr>version_major := Some (hex_digits (drop_bit 8 (num m ''__SUNPRO_C''))),
                             version_minor := Some (hex_digits ((drop_bit 4 (num m ''__SUNPRO_C'') AND 15))),
                             version_patch := Some (hex_digits ((num m ''__SUNPRO_C'' AND 15)))\<rparr>))"

definition ident_HP :: "macros \<Rightarrow> ident" where
  "ident_HP m =
     (let i = new_ident ''HP''
      in i\<lparr>version_major := Some (dec_digits (num m ''__HP_cc'' div 10000)),
                   version_minor := Some (dec_digits (num m ''__HP_cc'' div 100 mod 100)),
                   version_patch := Some (dec_digits (num m ''__HP_cc'' mod 100))\<rparr>)"

definition ident_Compaq :: "macros \<Rightarrow> ident" where
  "ident_Compaq m =
     (let i = new_ident ''Compaq''
      in i\<lparr>version_major := Some (dec_digits (num m ''__DECC_VER'' div 10000000)),
                   version_minor := Some (dec_digits (num m ''__DECC_VER'' div 100000 mod 100)),
                   version_patch := Some (dec_digits (num m ''__DECC_VER'' mod 10000))\<rparr>)"

definition ident_zOS :: "macros \<Rightarrow> ident" where
  "ident_zOS m =
     (let i = new_ident ''zOS''
      in i\<lparr>version_major := Some (dec_digits (num m ''__IBMC__'' div 100)),
                   version_minor := Some (dec_digits (num m ''__IBMC__'' div 10 mod 10)),
                   version_patch := Some (dec_digits (num m ''__IBMC__'' mod 10))\<rparr>)"

definition ident_XLClang :: "macros \<Rightarrow> ident" where
  "ident_XLClang m =
     (let i = new_ident ''XLClang''
      in i\<lparr>version_major := Some (dec_digits (num m ''__ibmxl_version__'')),
                   version_minor := Some (dec_digits (num m ''__ibmxl_release__'')),
                   version_patch := Some (dec_digits (num m ''__ibmxl_modification__'')),
                   version_tweak := Some (dec_digits (num m ''__ibmxl_ptf_fix_level__''))\<rparr>)"

definition ident_XL :: "macros \<Rightarrow> ident" where
  "ident_XL m =
     (let i = new_ident ''XL''
      in i\<lparr>version_major := Some (dec_digits (num m ''__IBMC__'' div 100)),
                   version_minor := Some (dec_digits (num m ''__IBMC__'' div 10 mod 10)),
                   version_patch := Some (dec_digits (num m ''__IBMC__'' mod 10))\<rparr>)"

definition ident_VisualAge :: "macros \<Rightarrow> ident" where
  "ident_VisualAge m =
     (let i = new_ident ''VisualAge''
      in i\<lparr>version_major := Some (dec_digits (num m ''__IBMC__'' div 100)),
                   version_minor := Some (dec_digits (num m ''__IBMC__'' div 10 mod 10)),
                   version_patch := Some (dec_digits (num m ''__IBMC__'' mod 10))\<rparr>)"

definition ident_NVHPC :: "macros \<Rightarrow> ident" where
  "ident_NVHPC m =
     (let i = new_ident ''NVHPC'';
          i = i\<lparr>version_major := Some (dec_digits (num m ''__NVCOMPILER_MAJOR__'')),
                   version_minor := Some (dec_digits (num m ''__NVCOMPILER_MINOR__''))\<rparr>
      in (if defd m ''__NVCOMPILER_PATCHLEVEL__''
              then i\<lparr>version_patch := Some (dec_digits (num m ''__NVCOMPILER_PATCHLEVEL__''))\<rparr>
              else i))"

definition ident_PGI :: "macros \<Rightarrow> ident" where
  "ident_PGI m =
     (let i = new_ident ''PGI'';
          i = i\<lparr>version_major := Some (dec_digits (num m ''__PGIC__'')),
                   version_minor := Some (dec_digits (num m ''__PGIC_MINOR__''))\<rparr>
      in (if defd m ''__PGIC_PATCHLEVEL__''
              then i\<lparr>version_patch := Some (dec_digits (num m ''__PGIC_PATCHLEVEL__''))\<rparr>
              else i))"

definition ident_Cray :: "macros \<Rightarrow> ident" where
  "ident_Cray m =
     (let i = new_ident ''Cray''
      in i\<lparr>version_major := Some (dec_digits (num m ''_RELEASE_MAJOR'')),
                   version_minor := Some (dec_digits (num m ''_RELEASE_MINOR''))\<rparr>)"

definition ident_TI :: "macros \<Rightarrow> ident" where
  "ident_TI m =
     (let i = new_ident ''TI''
      in i\<lparr>version_major := Some (dec_digits (num m ''__TI_COMPILER_VERSION__'' div 1000000)),
                   version_minor := Some (dec_digits (num m ''__TI_COMPILER_VERSION__'' div 1000 mod 1000)),
                   version_patch := Some (dec_digits (num m ''__TI_COMPILER_VERSION__'' mod 1000))\<rparr>)"

definition ident_FujitsuClang :: "macros \<Rightarrow> ident" where
  "ident_FujitsuClang m =
     (let i = new_ident ''FujitsuClang''
      in i\<lparr>version_major := Some (dec_digits (num m ''__FCC_major__'')),
                   version_minor := Some (dec_digits (num m ''__FCC_minor__'')),
                   version_patch := Some (dec_digits (num m ''__FCC_patchlevel__'')),
                   version_internal_text := Some (text_of m ''__clang_version__'')\<rparr>)"

definition ident_Fujitsu :: "macros \<Rightarrow> ident" where
  "ident_Fujitsu m =
     (let i = new_ident ''Fujitsu'';
          i = (if defd m ''__FCC_version__''
              then i\<lparr>version_text := Some (text_of m ''__FCC_version__'')\<rparr>
              else if defd m ''__FCC_major__''
              then i\<lparr>version_major := Some (dec_digits (num m ''__FCC_major__'')),
                             version_minor := Some (dec_digits (num m ''__FCC_minor__'')),
                             version_patch := Some (dec_digits (num m ''__FCC_patchlevel__''))\<rparr>
              else i)
      in (if defd m ''__fcc_version''
              then i\<lparr>version_internal := Some (dec_digits (num m ''__fcc_version''))\<rparr>
              else if defd m ''__FCC_VERSION''
              then i\<lparr>version_internal := Some (dec_digits (num m ''__FCC_VERSION''))\<rparr>
              else i))"

definition ident_GHS :: "macros \<Rightarrow> ident" where
  "ident_GHS m =
     (let i = new_ident ''GHS''
      in (if defd m ''__GHS_VERSION_NUMBER''
              then i\<lparr>version_major := Some (dec_digits (num m ''__GHS_VERSION_NUMBER'' div 100)),
                             version_minor := Some (dec_digits (num m ''__GHS_VERSION_NUMBER'' div 10 mod 10)),
                             version_patch := Some (dec_digits (num m ''__GHS_VERSION_NUMBER'' mod 10))\<rparr>
              else i))"

definition ident_ARMCC :: "macros \<Rightarrow> ident" where
  "ident_ARMCC m =
     (let i = new_ident ''ARMCC''
      in (if 1000000 \<le> num m ''__ARMCC_VERSION''
              then i\<lparr>version_major := Some (dec_digits (num m ''__ARMCC_VERSION'' div 1000000)),
                             version_minor := Some (dec_digits (num m ''__ARMCC_VERSION'' div 10000 mod 100)),
                             version_patch := Some (dec_digits (num m ''__ARMCC_VERSION'' mod 10000))\<rparr>
              else i\<lparr>version_major := Some (dec_digits (num m ''__ARMCC_VERSION'' div 100000)),
                             version_minor := Some (dec_digits (num m ''__ARMCC_VERSION'' div 10000 mod 10)),
                             version_patch := Some (dec_digits (num m ''__ARMCC_VERSION'' mod 10000))\<rparr>))"

definition ident_AppleClang :: "macros \<Rightarrow> ident" where
  "ident_AppleClang m =
     (let i = new_ident ''AppleClang'';
          i = (if defd m ''_MSC_VER''
              then i\<lparr>simulate_id := Some ''MSVC''\<rparr>
              else i);
          i = i\<lparr>version_major := Some (dec_digits (num m ''__clang_major__'')),
                   version_minor := Some (dec_digits (num m ''__clang_minor__'')),
                   version_patch := Some (dec_digits (num m ''__clang_patchlevel__''))\<rparr>;
          i = (if defd m ''_MSC_VER''
              then i\<lparr>simulate_major := Some (dec_digits (num m ''_MSC_VER'' div 100)),
                             simulate_minor := Some (dec_digits (num m ''_MSC_VER'' mod 100))\<rparr>
              else i)
      in i\<lparr>version_tweak := Some (dec_digits (num m ''__apple_build_version__''))\<rparr>)"

definition ident_ARMClang :: "macros \<Rightarrow> ident" where
  "ident_ARMClang m =
     (let i = new_ident ''ARMClang''
      in i\<lparr>version_major := Some (dec_digits (num m ''__ARMCOMPILER_VERSION'' div 1000000)),
                   version_minor := Some (dec_digits (num m ''__ARMCOMPILER_VERSION'' div 10000 mod 100)),
                   version_patch := Some (dec_digits (num m ''__ARMCOMPILER_VERSION'' mod 10000)),
                   version_internal := Some (dec_digits (num m ''__ARMCOMPILER_VERSION''))\<rparr>)"

definition ident_Clang :: "macros \<Rightarrow> ident" where
  "ident_Clang m =
     (let i = new_ident ''Clang'';
          i = (if defd m ''_MSC_VER''
              then i\<lparr>simulate_id := Some ''MSVC''\<rparr>
              else i);
          i = i\<lparr>version_major := Some (dec_digits (num m ''__clang_major__'')),
                   version_minor := Some (dec_digits (num m ''__clang_minor__'')),
                   version_patch := Some (dec_digits (num m ''__clang_patchlevel__''))\<rparr>
      in (if defd m ''_MSC_VER''
              then i\<lparr>simulate_major := Some (dec_digits (num m ''_MSC_VER'' div 100)),
                             simulate_minor := Some (dec_digits (num m ''_MSC_VER'' mod 100))\<rparr>
              else i))"

definition ident_GNU :: "macros \<Rightarrow> ident" where
  "ident_GNU m =
     (let i = new_ident ''GNU'';
          i = i\<lparr>version_major := Some (dec_digits (num m ''__GNUC__''))\<rparr>;
          i = (if defd m ''__GNUC_MINOR__''
              then i\<lparr>version_minor := Some (dec_digits (num m ''__GNUC_MINOR__''))\<rparr>
              else i)
      in (if defd m ''__GNUC_PATCHLEVEL__''
              then i\<lparr>version_patch := Some (dec_digits (num m ''__GNUC_PATCHLEVEL__''))\<rparr>
              else i))"

definition ident_MSVC :: "macros \<Rightarrow> ident" where
  "ident_MSVC m =
     (let i = new_ident ''MSVC'';
          i = i\<lparr>version_major := Some (dec_digits (num m ''_MSC_VER'' div 100)),
                   version_minor := Some (dec_digits (num m ''_MSC_VER'' mod 100))\<rparr>;
          i = (if defd m ''_MSC_FULL_VER''
              then (if 1400 \<le> num m ''_MSC_VER''
                        then i\<lparr>version_patch := Some (dec_digits (num m ''_MSC_FULL_VER'' mod 100000))\<rparr>
                        else i\<lparr>version_patch := Some (dec_digits (num m ''_MSC_FULL_VER'' mod 10000))\<rparr>)
              else i)
      in (if defd m ''_MSC_BUILD''
              then i\<lparr>version_tweak := Some (dec_digits (num m ''_MSC_BUILD''))\<rparr>
              else i))"

definition ident_ADSP :: "macros \<Rightarrow> ident" where
  "ident_ADSP m =
     (let i = new_ident ''ADSP''
      in (if defd m ''__VISUALDSPVERSION__''
              then i\<lparr>version_major := Some (hex_digits (drop_bit 24 (num m ''__VISUALDSPVERSION__''))),
                             version_minor := Some (hex_digits ((drop_bit 16 (num m ''__VISUALDSPVERSION__'') AND 255))),
                             version_patch := Some (hex_digits ((drop_bit 8 (num m ''__VISUALDSPVERSION__'') AND 255)))\<rparr>
              else i))"

definition ident_IAR :: "macros \<Rightarrow> ident" where
  "ident_IAR m =
     (let i = new_ident ''IAR''
      in (if defd m ''__VER__'' \<and> defd m ''__ICCARM__''
              then i\<lparr>version_major := Some (dec_digits (num m ''__VER__'' div 1000000)),
                             version_minor := Some (dec_digits ((num m ''__VER__'' div 1000) mod 1000)),
                             version_patch := Some (dec_digits (num m ''__VER__'' mod 1000)),
                             version_internal := Some (dec_digits (num m ''__IAR_SYSTEMS_ICC__''))\<rparr>
              else if defd m ''__VER__'' \<and> (defd m ''__ICCAVR__'' \<or> defd m ''__ICCRX__'' \<or> defd m ''__ICCRH850__'' \<or> defd m ''__ICCRL78__'' \<or> defd m ''__ICC430__'' \<or> defd m ''__ICCRISCV__'' \<or> defd m ''__ICCV850__'' \<or> defd m ''__ICC8051__'' \<or> defd m ''__ICCSTM8__'')
              then i\<lparr>version_major := Some (dec_digits (num m ''__VER__'' div 100)),
                             version_minor := Some (dec_digits (num m ''__VER__'' - ((num m ''__VER__'' div 100) * 100))),
                             version_patch := Some (dec_digits (num m ''__SUBVERSION__'')),
                             version_internal := Some (dec_digits (num m ''__IAR_SYSTEMS_ICC__''))\<rparr>
              else i))"

definition ident_SDCC :: "macros \<Rightarrow> ident" where
  "ident_SDCC m =
     (let i = new_ident ''SDCC''
      in (if defd m ''__SDCC_VERSION_MAJOR''
              then i\<lparr>version_major := Some (dec_digits (num m ''__SDCC_VERSION_MAJOR'')),
                             version_minor := Some (dec_digits (num m ''__SDCC_VERSION_MINOR'')),
                             version_patch := Some (dec_digits (num m ''__SDCC_VERSION_PATCH''))\<rparr>
              else i\<lparr>version_major := Some (dec_digits (num m ''SDCC'' div 100)),
                             version_minor := Some (dec_digits (num m ''SDCC'' div 10 mod 10)),
                             version_patch := Some (dec_digits (num m ''SDCC'' mod 10))\<rparr>))"

definition compiler_ident :: "macros \<Rightarrow> ident" where
  "compiler_ident m =
     (if defd m ''__INTEL_COMPILER'' \<or> defd m ''__ICC'' then ident_Intel m
      else if (defd m ''__clang__'' \<and> defd m ''__INTEL_CLANG_COMPILER'') \<or> defd m ''__INTEL_LLVM_COMPILER'' then ident_IntelLLVM m
      else if defd m ''__PATHCC__'' then ident_PathScale m
      else if defd m ''__BORLANDC__'' \<and> defd m ''__CODEGEARC_VERSION__'' then ident_Embarcadero m
      else if defd m ''__BORLANDC__'' then ident_Borland m
      else if defd m ''__WATCOMC__'' \<and> num m ''__WATCOMC__'' < 1200 then ident_Watcom m
      else if defd m ''__WATCOMC__'' then ident_OpenWatcom m
      else if defd m ''__SUNPRO_C'' then ident_SunPro m
      else if defd m ''__HP_cc'' then ident_HP m
      else if defd m ''__DECC'' then ident_Compaq m
      else if defd m ''__IBMC__'' \<and> defd m ''__COMPILER_VER__'' then ident_zOS m
      else if defd m ''__ibmxl__'' \<and> defd m ''__clang__'' then ident_XLClang m
      else if defd m ''__IBMC__'' \<and> \<not> defd m ''__COMPILER_VER__'' \<and> 800 \<le> num m ''__IBMC__'' then ident_XL m
      else if defd m ''__IBMC__'' \<and> \<not> defd m ''__COMPILER_VER__'' \<and> num m ''__IBMC__'' < 800 then ident_VisualAge m
      else if defd m ''__NVCOMPILER'' then ident_NVHPC m
      else if defd m ''__PGI'' then ident_PGI m
      else if defd m ''_CRAYC'' then ident_Cray m
      else if defd m ''__TI_COMPILER_VERSION__'' then ident_TI m
      else if defd m ''__CLANG_FUJITSU'' then ident_FujitsuClang m
      else if defd m ''__FUJITSU'' then ident_Fujitsu m
      else if defd m ''__ghs__'' then ident_GHS m
      else if defd m ''__TINYC__'' then new_ident ''TinyCC''
      else if defd m ''__BCC__'' then new_ident ''Bruce''
      else if defd m ''__SCO_VERSION__'' then new_ident ''SCO''
      else if defd m ''__ARMCC_VERSION'' \<and> \<not> defd m ''__clang__'' then ident_ARMCC m
      else if defd m ''__clang__'' \<and> defd m ''__apple_build_version__'' then ident_AppleClang m
      else if defd m ''__clang__'' \<and> defd m ''__ARMCOMPILER_VERSION'' then ident_ARMClang m
      else if defd m ''__clang__'' then ident_Clang m
      else if defd m ''__GNUC__'' then ident_GNU m
      else if defd m ''_MSC_VER'' then ident_MSVC m
      else if defd m ''__VISUALDSPVERSION__'' \<or> defd m ''__ADSPBLACKFIN__'' \<or> defd m ''__ADSPTS__'' \<or> defd m ''__ADSP21000__'' then ident_ADSP m
      else if defd m ''__IAR_SYSTEMS_ICC__'' \<or> defd m ''__IAR_SYSTEMS_ICC'' then ident_IAR m
      else if defd m ''__SDCC_VERSION_MAJOR'' \<or> defd m ''SDCC'' then ident_SDCC m
      else if defd m ''__hpux'' \<or> defd m ''__hpua'' then new_ident ''HP''
      else new_ident '''')"

section \<open>Platform and architecture\<close>

definition platform_id :: "macros \<Rightarrow> string" where
  "platform_id m =
     (if defd m ''__linux'' \<or> defd m ''__linux__'' \<or> defd m ''linux'' then ''Linux''
      else if defd m ''__MSYS__'' then ''MSYS''
      else if defd m ''__CYGWIN__'' then ''Cygwin''
      else if defd m ''__MINGW32__'' then ''MinGW''
      else if defd m ''__APPLE__'' then ''Darwin''
      else if defd m ''_WIN32'' \<or> defd m ''__WIN32__'' \<or> defd m ''WIN32'' then ''Windows''
      else if defd m ''__FreeBSD__'' \<or> defd m ''__FreeBSD'' then ''FreeBSD''
      else if defd m ''__NetBSD__'' \<or> defd m ''__NetBSD'' then ''NetBSD''
      else if defd m ''__OpenBSD__'' \<or> defd m ''__OPENBSD'' then ''OpenBSD''
      else if defd m ''__sun'' \<or> defd m ''sun'' then ''SunOS''
      else if defd m ''_AIX'' \<or> defd m ''__AIX'' \<or> defd m ''__AIX__'' \<or> defd m ''__aix'' \<or> defd m ''__aix__'' then ''AIX''
      else if defd m ''__hpux'' \<or> defd m ''__hpux__'' then ''HP-UX''
      else if defd m ''__HAIKU__'' then ''Haiku''
      else if defd m ''__BeOS'' \<or> defd m ''__BEOS__'' \<or> defd m ''_BEOS'' then ''BeOS''
      else if defd m ''__QNX__'' \<or> defd m ''__QNXNTO__'' then ''QNX''
      else if defd m ''__tru64'' \<or> defd m ''_tru64'' \<or> defd m ''__TRU64__'' then ''Tru64''
      else if defd m ''__riscos'' \<or> defd m ''__riscos__'' then ''RISCos''
      else if defd m ''__sinix'' \<or> defd m ''__sinix__'' \<or> defd m ''__SINIX__'' then ''SINIX''
      else if defd m ''__UNIX_SV__'' then ''UNIX_SV''
      else if defd m ''__bsdos__'' then ''BSDOS''
      else if defd m ''_MPRAS'' \<or> defd m ''MPRAS'' then ''MP-RAS''
      else if defd m ''__osf'' \<or> defd m ''__osf__'' then ''OSF1''
      else if defd m ''_SCO_SV'' \<or> defd m ''SCO_SV'' \<or> defd m ''sco_sv'' then ''SCO_SV''
      else if defd m ''__ultrix'' \<or> defd m ''__ultrix__'' \<or> defd m ''_ULTRIX'' then ''ULTRIX''
      else if defd m ''__XENIX__'' \<or> defd m ''_XENIX'' \<or> defd m ''XENIX'' then ''Xenix''
      else if defd m ''__WATCOMC__'' then (if defd m ''__LINUX__'' then ''Linux''
         else if defd m ''__DOS__'' then ''DOS''
         else if defd m ''__OS2__'' then ''OS2''
         else if defd m ''__WINDOWS__'' then ''Windows3x''
         else if defd m ''__VXWORKS__'' then ''VxWorks''
         else '''')
      else if defd m ''__INTEGRITY'' then (if defd m ''INT_178B'' then ''Integrity178''
         else ''Integrity'')
      else '''')"

definition architecture_id :: "macros \<Rightarrow> string" where
  "architecture_id m =
     (if defd m ''_WIN32'' \<and> defd m ''_MSC_VER'' then (if defd m ''_M_IA64'' then ''IA64''
         else if defd m ''_M_ARM64EC'' then ''ARM64EC''
         else if defd m ''_M_X64'' \<or> defd m ''_M_AMD64'' then ''x64''
         else if defd m ''_M_IX86'' then ''X86''
         else if defd m ''_M_ARM64'' then ''ARM64''
         else if defd m ''_M_ARM'' then (if num m ''_M_ARM'' = 4 then ''ARMV4I''
            else if num m ''_M_ARM'' = 5 then ''ARMV5I''
            else ''ARMV'' @ text_of m ''_M_ARM'')
         else if defd m ''_M_MIPS'' then ''MIPS''
         else if defd m ''_M_SH'' then ''SHx''
         else '''')
      else if defd m ''__WATCOMC__'' then (if defd m ''_M_I86'' then ''I86''
         else if defd m ''_M_IX86'' then ''X86''
         else '''')
      else if defd m ''__IAR_SYSTEMS_ICC__'' \<or> defd m ''__IAR_SYSTEMS_ICC'' then (if defd m ''__ICCARM__'' then ''ARM''
         else if defd m ''__ICCRX__'' then ''RX''
         else if defd m ''__ICCRH850__'' then ''RH850''
         else if defd m ''__ICCRL78__'' then ''RL78''
         else if defd m ''__ICCRISCV__'' then ''RISCV''
         else if defd m ''__ICCAVR__'' then ''AVR''
         else if defd m ''__ICC430__'' then ''MSP430''
         else if defd m ''__ICCV850__'' then ''V850''
         else if defd m ''__ICC8051__'' then ''8051''
         else if defd m ''__ICCSTM8__'' then ''STM8''
         else '''')
      else if defd m ''__ghs__'' then (if defd m ''__PPC64__'' then ''PPC64''
         else if defd m ''__ppc__'' then ''PPC''
         else if defd m ''__ARM__'' then ''ARM''
         else if defd m ''__x86_64__'' then ''x64''
         else if defd m ''__i386__'' then ''X86''
         else '''')
      else if defd m ''__TI_COMPILER_VERSION__'' then (if defd m ''__TI_ARM__'' then ''ARM''
         else if defd m ''__MSP430__'' then ''MSP430''
         else if defd m ''__TMS320C28XX__'' then ''TMS320C28x''
         else if defd m ''__TMS320C6X__'' \<or> defd m ''_TMS320C6X'' then ''TMS320C6x''
         else '''')
      else '''')"

section \<open>The strings\<close>

text \<open>What is said about the compiler is a function of its identification.\<close>

definition info :: "string \<Rightarrow> string \<Rightarrow> string" where
  "info label s = ''INFO:'' @ label @ ''['' @ s @ '']''"

definition info_compiler :: "ident \<Rightarrow> string" where
  "info_compiler i = info ''compiler'' (compiler_id i)"

definition info_simulate :: "ident \<Rightarrow> string option" where
  "info_simulate i = map_option (info ''simulate'') (simulate_id i)"

definition info_cray :: "macros \<Rightarrow> string option" where
  "info_cray m = (if defd m ''__CRAYXT_COMPUTE_LINUX_TARGET'' then Some (info ''compiler_wrapper'' ''CrayPrgEnv'') else None)"

fun dotted :: "string option list \<Rightarrow> string" where
  "dotted (Some x # xs) = ''.'' @ x @ dotted xs"
| "dotted xs = []"

definition info_version :: "ident \<Rightarrow> string option" where
  "info_version i =
     (case version_text i of
        Some s \<Rightarrow> Some (info ''compiler_version'' s)
      | None \<Rightarrow> map_option (\<lambda>x. info ''compiler_version'' (x @ dotted [version_minor i, version_patch i, version_tweak i]))
          (version_major i))"

definition info_version_internal :: "ident \<Rightarrow> string option" where
  "info_version_internal i =
     (case version_internal i of
        Some x \<Rightarrow> Some (info ''compiler_version_internal'' x)
      | None \<Rightarrow> map_option (info ''compiler_version_internal'') (version_internal_text i))"

definition info_simulate_version :: "ident \<Rightarrow> string option" where
  "info_simulate_version i =
     map_option (\<lambda>x. info ''simulate_version'' (x @ dotted [simulate_minor i, simulate_patch i])) (simulate_major i)"

definition info_platform :: "macros \<Rightarrow> string" where
  "info_platform m = info ''platform'' (platform_id m)"

definition info_arch :: "macros \<Rightarrow> string" where
  "info_arch m = info ''arch'' (architecture_id m)"

definition c_version :: "macros \<Rightarrow> string" where
  "c_version m =
     (if \<not> defd m ''__STDC__'' \<and> \<not> defd m ''__clang__''
      then if defd m ''_MSC_VER'' \<or> defd m ''__ibmxl__'' \<or> defd m ''__IBMC__'' then ''90'' else []
      else if 201710 < num m ''__STDC_VERSION__'' then ''23''
      else if 201710 \<le> num m ''__STDC_VERSION__'' then ''17''
      else if 201000 \<le> num m ''__STDC_VERSION__'' then ''11''
      else if 199901 \<le> num m ''__STDC_VERSION__'' then ''99''
      else ''90'')"

definition info_language_standard_default :: "macros \<Rightarrow> string" where
  "info_language_standard_default m = info ''standard_default'' (c_version m)"

definition info_language_extensions_default :: "macros \<Rightarrow> string" where
  "info_language_extensions_default m = info ''extensions_default''
     (if (defd m ''__clang__'' \<or> defd m ''__GNUC__'' \<or> defd m ''__TI_COMPILER_VERSION__'')
         \<and> \<not> defd m ''__STRICT_ANSI__'' \<and> \<not> defd m ''_MSC_VER''
      then ''ON'' else ''OFF'')"

section \<open>The program\<close>

text \<open>
  \<open>main\<close> adds up the characters at the index \<open>argc\<close>, so that no string is removed as unused; the zero at the end of each
  belongs to it. The sum is taken of the strings that exist under the macros.
\<close>

definition char_at :: "string \<Rightarrow> nat \<Rightarrow> int res" where
  "char_at s i = (if i < length s then Inr (int (of_char (s ! i))) else if i = length s then Inr 0 else Inl Undef)"

fun sum_chars :: "int \<Rightarrow> string list \<Rightarrow> nat \<Rightarrow> int res" where
  "sum_chars require [] argc = Inr require"
| "sum_chars require (s # ss) argc = bind_res (char_at s argc) (\<lambda>c. sum_chars (require + c) ss argc)"

definition present :: "string option \<Rightarrow> string list" where
  "present s = (case s of None \<Rightarrow> [] | Some x \<Rightarrow> [x])"

definition id_main :: "macros \<Rightarrow> nat \<Rightarrow> int res" where
  "id_main m argc =
     (let i = compiler_ident m
      in sum_chars 0
          ([info_compiler i, info_platform m, info_arch m]
           @ (if version_major i \<noteq> None then present (info_version i) else [])
           @ (if version_internal i \<noteq> None then present (info_version_internal i) else [])
           @ present (info_simulate i)
           @ present (info_simulate_version i)
           @ present (info_cray m)
           @ [info_language_standard_default m, info_language_extensions_default m]) argc)"

section \<open>What is identified\<close>

lemma compiler_id_simps [simp]:
  "compiler_id (new_ident x) = x"
  "compiler_id (ident_Intel m) = ''Intel''"
  "compiler_id (ident_IntelLLVM m) = ''IntelLLVM''"
  "compiler_id (ident_PathScale m) = ''PathScale''"
  "compiler_id (ident_Embarcadero m) = ''Embarcadero''"
  "compiler_id (ident_Borland m) = ''Borland''"
  "compiler_id (ident_Watcom m) = ''Watcom''"
  "compiler_id (ident_OpenWatcom m) = ''OpenWatcom''"
  "compiler_id (ident_SunPro m) = ''SunPro''"
  "compiler_id (ident_HP m) = ''HP''"
  "compiler_id (ident_Compaq m) = ''Compaq''"
  "compiler_id (ident_zOS m) = ''zOS''"
  "compiler_id (ident_XLClang m) = ''XLClang''"
  "compiler_id (ident_XL m) = ''XL''"
  "compiler_id (ident_VisualAge m) = ''VisualAge''"
  "compiler_id (ident_NVHPC m) = ''NVHPC''"
  "compiler_id (ident_PGI m) = ''PGI''"
  "compiler_id (ident_Cray m) = ''Cray''"
  "compiler_id (ident_TI m) = ''TI''"
  "compiler_id (ident_FujitsuClang m) = ''FujitsuClang''"
  "compiler_id (ident_Fujitsu m) = ''Fujitsu''"
  "compiler_id (ident_GHS m) = ''GHS''"
  "compiler_id (ident_ARMCC m) = ''ARMCC''"
  "compiler_id (ident_AppleClang m) = ''AppleClang''"
  "compiler_id (ident_ARMClang m) = ''ARMClang''"
  "compiler_id (ident_Clang m) = ''Clang''"
  "compiler_id (ident_GNU m) = ''GNU''"
  "compiler_id (ident_MSVC m) = ''MSVC''"
  "compiler_id (ident_ADSP m) = ''ADSP''"
  "compiler_id (ident_IAR m) = ''IAR''"
  "compiler_id (ident_SDCC m) = ''SDCC''"
  by (simp_all add: new_ident_def Let_def
      ident_Intel_def ident_IntelLLVM_def ident_PathScale_def ident_Embarcadero_def ident_Borland_def
      ident_Watcom_def ident_OpenWatcom_def ident_SunPro_def ident_HP_def ident_Compaq_def ident_zOS_def
      ident_XLClang_def ident_XL_def ident_VisualAge_def ident_NVHPC_def ident_PGI_def ident_Cray_def ident_TI_def
      ident_FujitsuClang_def ident_Fujitsu_def ident_GHS_def ident_ARMCC_def ident_AppleClang_def ident_ARMClang_def
      ident_Clang_def ident_GNU_def ident_MSVC_def ident_ADSP_def ident_IAR_def ident_SDCC_def)

lemma digits_val_append:
  "digits_val acc (map (\<lambda>d. char_of (48 + d)) ds @ cs) = digits_val (foldl (\<lambda>a d. 10 * a + int d) acc ds) cs" if "\<forall>d \<in> set ds. d < 10"
  using that
proof (induction ds arbitrary: acc)
  case (Cons d ds)
  then have "digit_val (char_of (48 + d)) = Some d" by (simp add: digit_val_def Let_def)
  with Cons show ?case by simp
qed simp

lemma digit_step: "int (n div k mod 10) = int (n div k) - 10 * int (n div (k * 10))"
proof -
  have "int (q mod 10) = int q - 10 * int (q div 10)" for q :: nat by presburger
  then show ?thesis by (simp only: div_mult2_eq)
qed

lemma dec_digits_value:
  assumes "n < 10 ^ 8"
  shows "digits_val 0 (dec_digits n) = int n"
proof -
  have "dec_digits n = map (\<lambda>d. char_of (48 + d)) (map (\<lambda>k. (n div k) mod 10) [10000000, 1000000, 100000, 10000, 1000, 100, 10, 1])"
    by (simp add: dec_digits_def)
  then have "digits_val 0 (dec_digits n) = foldl (\<lambda>a d. 10 * a + int d) 0 (map (\<lambda>k. (n div k) mod 10) [10000000, 1000000, 100000, 10000, 1000, 100, 10, 1])"
    using digits_val_append [of "map (\<lambda>k. (n div k) mod 10) [10000000, 1000000, 100000, 10000, 1000, 100, 10, 1]" 0 "[]"] by simp
  also have "\<dots> = int n"
    using assms by (simp add: digit_step del: of_nat_mod of_nat_div) presburger
  finally show ?thesis .
qed

lemma dec_digits_atoi:
  assumes "n < 10 ^ 8"
  shows "atoi (dec_digits n) = int n"
proof -
  obtain d :: nat and cs where d: "d < 10" "dec_digits n = char_of (48 + d) # cs"
    by (rule that [of "n div 10000000 mod 10" "tl (dec_digits n)"]) (simp_all add: dec_digits_def)
  then have "\<not> is_space (char_of (48 + d))" "char_of (48 + d) \<noteq> CHR ''-''" "char_of (48 + d) \<noteq> CHR ''+''"
    by (auto simp: is_space_def Let_def dest: arg_cong [of _ _ "of_char :: char \<Rightarrow> nat"])
  then have "atoi (dec_digits n) = int_of_long (clamp_long (digits_val 0 (dec_digits n)))"
    unfolding atoi_def d(2) by simp
  also have "\<dots> = int n"
    unfolding dec_digits_value [OF assms] using assms by (simp add: clamp_long_def int_of_long_id)
  finally show ?thesis .
qed

lemma compiler_id_if:
  "compiler_id (if c then i else j) = x \<longleftrightarrow> (c \<and> compiler_id i = x \<or> \<not> c \<and> compiler_id j = x)"
  by simp

text \<open>What the program says about GCC can be read back. A compiler is identified as GNU only when none of the macros of
  Clang and Intel is defined, although these compilers define \<open>__GNUC__\<close>, too; then the three fields of the version string,
  eight digits each, are the decimal numbers of the version macros, as long as these have at most eight digits.
\<close>

theorem gnu_version_reads_back:
  assumes "compiler_id (compiler_ident m) = ''GNU''"
    and "mac_number m ''__GNUC__'' = Some a" and "mac_number m ''__GNUC_MINOR__'' = Some b"
    and "mac_number m ''__GNUC_PATCHLEVEL__'' = Some c" and "a < 10 ^ 8" and "b < 10 ^ 8" and "c < 10 ^ 8"
  shows "\<not> defd m ''__clang__'' \<and> \<not> defd m ''__INTEL_COMPILER'' \<and> info_compiler (compiler_ident m) = ''INFO:compiler[GNU]''
    \<and> (\<exists>x y z. info_version (compiler_ident m) = Some (''INFO:compiler_version['' @ x @ ''.'' @ y @ ''.'' @ z @ '']'')
          \<and> atoi x = int a \<and> atoi y = int b \<and> atoi z = int c)"
proof -
  have i: "compiler_ident m = ident_GNU m" "\<not> defd m ''__clang__''" "\<not> defd m ''__INTEL_COMPILER''"
    using assms(1) by (simp_all add: compiler_ident_def compiler_id_if flip: not_less) blast
  have "info_version (compiler_ident m) = Some (''INFO:compiler_version['' @ dec_digits a @ ''.'' @ dec_digits b @ ''.'' @ dec_digits c @ '']'')"
    using assms(2-4) by (simp add: info_version_def i(1) ident_GNU_def new_ident_def Let_def defd_def num_def info_def)
  then show ?thesis using i dec_digits_atoi [OF assms(5)] dec_digits_atoi [OF assms(6)] dec_digits_atoi [OF assms(7)]
    by (auto simp: info_compiler_def info_def)
qed

definition demo_macros :: macros where
  "demo_macros = \<lparr>mac_number = [''__GNUC__'' \<mapsto> 11, ''__GNUC_MINOR__'' \<mapsto> 4, ''__GNUC_PATCHLEVEL__'' \<mapsto> 0, ''__linux__'' \<mapsto> 1],
     mac_text = (\<lambda>x. [])\<rparr>"

lemma gnu_version_reads_back_witness:
  "\<exists>x y z. info_version (compiler_ident demo_macros) = Some (''INFO:compiler_version['' @ x @ ''.'' @ y @ ''.'' @ z @ '']'')
     \<and> atoi x = 11 \<and> atoi y = 4 \<and> atoi z = 0"
proof -
  have "compiler_id (compiler_ident demo_macros) = ''GNU''"
    by (simp add: compiler_ident_def defd_def demo_macros_def)
  then show ?thesis using gnu_version_reads_back [of demo_macros 11 4 0] by (simp add: demo_macros_def)
qed

lemma sum_chars_in_bounds: "\<forall>s \<in> set ss. argc \<le> length s \<Longrightarrow> \<exists>r. sum_chars require ss argc = Inr r"
  by (induction ss arbitrary: require) (auto simp: char_at_def)

lemma info_length [simp]: "length (info label s) = length label + length s + 7"
  by (simp add: info_def)

text \<open>With few arguments \<open>main\<close> stays inside every string; the shortest is \<open>INFO:arch[]\<close>.\<close>

lemma id_main_in_bounds:
  assumes "argc \<le> 11"
  shows "\<exists>r. id_main m argc = Inr r"
  unfolding id_main_def Let_def
  by (rule sum_chars_in_bounds)
     (use assms in \<open>auto simp: present_def info_compiler_def info_platform_def info_arch_def info_simulate_def info_version_def
        info_version_internal_def info_simulate_version_def info_cray_def info_language_standard_default_def
        info_language_extensions_default_def Let_def split: option.splits if_splits\<close>)

end
