(* ===== verification/Compiler_Cxx.thy ===== *)
theory Compiler_Cxx
  imports Compiler_Id
begin

text \<open>
  \<open>CMakeCXXCompilerId.cpp\<close>, the program that identifies a C++ compiler, translated from its own text: every branch of the
  preprocessor, the platform, the architecture, the strings, the language standard and \<open>main\<close>. With the C program it shares only
  the vocabulary of the model: the macros, the record of an identification and the frame \<open>INFO:...[...]\<close> of a string.
\<close>

section \<open>Digits\<close>

definition cxx_dec_digits :: "nat \<Rightarrow> string" where
  "cxx_dec_digits n = map (\<lambda>k. char_of (48 + (n div k) mod 10))
     [10000000, 1000000, 100000, 10000, 1000, 100, 10, 1]"

definition cxx_hex_digits :: "nat \<Rightarrow> string" where
  "cxx_hex_digits n = map (\<lambda>k. char_of (48 + (drop_bit k n AND 15))) [28, 24, 20, 16, 12, 8, 4, 0]"

section \<open>The compiler\<close>

definition cxx_ident_Comeau :: "macros \<Rightarrow> ident" where
  "cxx_ident_Comeau m =
     (let i = new_ident ''Comeau''
      in i\<lparr>version_major := Some (cxx_dec_digits (num m ''__COMO_VERSION__'' div 100)),
                   version_minor := Some (cxx_dec_digits (num m ''__COMO_VERSION__'' mod 100))\<rparr>)"

definition cxx_ident_Intel :: "macros \<Rightarrow> ident" where
  "cxx_ident_Intel m =
     (let i = new_ident ''Intel'';
          i = (if defd m ''_MSC_VER''
              then i\<lparr>simulate_id := Some ''MSVC''\<rparr>
              else i);
          i = (if defd m ''__GNUC__''
              then i\<lparr>simulate_id := Some ''GNU''\<rparr>
              else i);
          i = (if num m ''__INTEL_COMPILER'' < 2021 \<or> num m ''__INTEL_COMPILER'' = 202110 \<or> num m ''__INTEL_COMPILER'' = 202111
              then (let i = i\<lparr>version_major := Some (cxx_dec_digits (num m ''__INTEL_COMPILER'' div 100)),
                             version_minor := Some (cxx_dec_digits (num m ''__INTEL_COMPILER'' div 10 mod 10))\<rparr>
                   in (if defd m ''__INTEL_COMPILER_UPDATE''
                        then i\<lparr>version_patch := Some (cxx_dec_digits (num m ''__INTEL_COMPILER_UPDATE''))\<rparr>
                        else i\<lparr>version_patch := Some (cxx_dec_digits (num m ''__INTEL_COMPILER'' mod 10))\<rparr>))
              else i\<lparr>version_major := Some (cxx_dec_digits (num m ''__INTEL_COMPILER'')),
                             version_minor := Some (cxx_dec_digits (num m ''__INTEL_COMPILER_UPDATE'')),
                             version_patch := Some (cxx_dec_digits (0))\<rparr>);
          i = (if defd m ''__INTEL_COMPILER_BUILD_DATE''
              then i\<lparr>version_tweak := Some (cxx_dec_digits (num m ''__INTEL_COMPILER_BUILD_DATE''))\<rparr>
              else i);
          i = (if defd m ''_MSC_VER''
              then i\<lparr>simulate_major := Some (cxx_dec_digits (num m ''_MSC_VER'' div 100)),
                             simulate_minor := Some (cxx_dec_digits (num m ''_MSC_VER'' mod 100))\<rparr>
              else i);
          i = (if defd m ''__GNUC__''
              then i\<lparr>simulate_major := Some (cxx_dec_digits (num m ''__GNUC__''))\<rparr>
              else if defd m ''__GNUG__''
              then i\<lparr>simulate_major := Some (cxx_dec_digits (num m ''__GNUG__''))\<rparr>
              else i);
          i = (if defd m ''__GNUC_MINOR__''
              then i\<lparr>simulate_minor := Some (cxx_dec_digits (num m ''__GNUC_MINOR__''))\<rparr>
              else i)
      in (if defd m ''__GNUC_PATCHLEVEL__''
              then i\<lparr>simulate_patch := Some (cxx_dec_digits (num m ''__GNUC_PATCHLEVEL__''))\<rparr>
              else i))"

definition cxx_ident_IntelLLVM :: "macros \<Rightarrow> ident" where
  "cxx_ident_IntelLLVM m =
     (let i = new_ident ''IntelLLVM'';
          i = (if defd m ''_MSC_VER''
              then i\<lparr>simulate_id := Some ''MSVC''\<rparr>
              else i);
          i = (if defd m ''__GNUC__''
              then i\<lparr>simulate_id := Some ''GNU''\<rparr>
              else i);
          i = (if num m ''__INTEL_LLVM_COMPILER'' < 1000000
              then i\<lparr>version_major := Some (cxx_dec_digits (num m ''__INTEL_LLVM_COMPILER'' div 100)),
                             version_minor := Some (cxx_dec_digits (num m ''__INTEL_LLVM_COMPILER'' div 10 mod 10)),
                             version_patch := Some (cxx_dec_digits (num m ''__INTEL_LLVM_COMPILER'' mod 10))\<rparr>
              else i\<lparr>version_major := Some (cxx_dec_digits (num m ''__INTEL_LLVM_COMPILER'' div 10000)),
                             version_minor := Some (cxx_dec_digits (num m ''__INTEL_LLVM_COMPILER'' div 100 mod 100)),
                             version_patch := Some (cxx_dec_digits (num m ''__INTEL_LLVM_COMPILER'' mod 100))\<rparr>);
          i = (if defd m ''_MSC_VER''
              then i\<lparr>simulate_major := Some (cxx_dec_digits (num m ''_MSC_VER'' div 100)),
                             simulate_minor := Some (cxx_dec_digits (num m ''_MSC_VER'' mod 100))\<rparr>
              else i);
          i = (if defd m ''__GNUC__''
              then i\<lparr>simulate_major := Some (cxx_dec_digits (num m ''__GNUC__''))\<rparr>
              else if defd m ''__GNUG__''
              then i\<lparr>simulate_major := Some (cxx_dec_digits (num m ''__GNUG__''))\<rparr>
              else i);
          i = (if defd m ''__GNUC_MINOR__''
              then i\<lparr>simulate_minor := Some (cxx_dec_digits (num m ''__GNUC_MINOR__''))\<rparr>
              else i)
      in (if defd m ''__GNUC_PATCHLEVEL__''
              then i\<lparr>simulate_patch := Some (cxx_dec_digits (num m ''__GNUC_PATCHLEVEL__''))\<rparr>
              else i))"

definition cxx_ident_PathScale :: "macros \<Rightarrow> ident" where
  "cxx_ident_PathScale m =
     (let i = new_ident ''PathScale'';
          i = i\<lparr>version_major := Some (cxx_dec_digits (num m ''__PATHCC__'')),
                   version_minor := Some (cxx_dec_digits (num m ''__PATHCC_MINOR__''))\<rparr>
      in (if defd m ''__PATHCC_PATCHLEVEL__''
              then i\<lparr>version_patch := Some (cxx_dec_digits (num m ''__PATHCC_PATCHLEVEL__''))\<rparr>
              else i))"

definition cxx_ident_Embarcadero :: "macros \<Rightarrow> ident" where
  "cxx_ident_Embarcadero m =
     (let i = new_ident ''Embarcadero''
      in i\<lparr>version_major := Some (cxx_hex_digits ((drop_bit 24 (num m ''__CODEGEARC_VERSION__'') AND 255))),
                   version_minor := Some (cxx_hex_digits ((drop_bit 16 (num m ''__CODEGEARC_VERSION__'') AND 255))),
                   version_patch := Some (cxx_dec_digits ((num m ''__CODEGEARC_VERSION__'' AND 65535)))\<rparr>)"

definition cxx_ident_Borland :: "macros \<Rightarrow> ident" where
  "cxx_ident_Borland m =
     (let i = new_ident ''Borland''
      in i\<lparr>version_major := Some (cxx_hex_digits (drop_bit 8 (num m ''__BORLANDC__''))),
                   version_minor := Some (cxx_hex_digits ((num m ''__BORLANDC__'' AND 255)))\<rparr>)"

definition cxx_ident_Watcom :: "macros \<Rightarrow> ident" where
  "cxx_ident_Watcom m =
     (let i = new_ident ''Watcom'';
          i = i\<lparr>version_major := Some (cxx_dec_digits (num m ''__WATCOMC__'' div 100)),
                   version_minor := Some (cxx_dec_digits ((num m ''__WATCOMC__'' div 10) mod 10))\<rparr>
      in (if 0 < (num m ''__WATCOMC__'' mod 10)
              then i\<lparr>version_patch := Some (cxx_dec_digits (num m ''__WATCOMC__'' mod 10))\<rparr>
              else i))"

definition cxx_ident_OpenWatcom :: "macros \<Rightarrow> ident" where
  "cxx_ident_OpenWatcom m =
     (let i = new_ident ''OpenWatcom'';
          i = i\<lparr>version_major := Some (cxx_dec_digits ((num m ''__WATCOMC__'' - 1100) div 100)),
                   version_minor := Some (cxx_dec_digits ((num m ''__WATCOMC__'' div 10) mod 10))\<rparr>
      in (if 0 < (num m ''__WATCOMC__'' mod 10)
              then i\<lparr>version_patch := Some (cxx_dec_digits (num m ''__WATCOMC__'' mod 10))\<rparr>
              else i))"

definition cxx_ident_SunPro :: "macros \<Rightarrow> ident" where
  "cxx_ident_SunPro m =
     (let i = new_ident ''SunPro''
      in (if 20736 \<le> num m ''__SUNPRO_CC''
              then i\<lparr>version_major := Some (cxx_hex_digits (drop_bit 12 (num m ''__SUNPRO_CC''))),
                             version_minor := Some (cxx_hex_digits ((drop_bit 4 (num m ''__SUNPRO_CC'') AND 255))),
                             version_patch := Some (cxx_hex_digits ((num m ''__SUNPRO_CC'' AND 15)))\<rparr>
              else i\<lparr>version_major := Some (cxx_hex_digits (drop_bit 8 (num m ''__SUNPRO_CC''))),
                             version_minor := Some (cxx_hex_digits ((drop_bit 4 (num m ''__SUNPRO_CC'') AND 15))),
                             version_patch := Some (cxx_hex_digits ((num m ''__SUNPRO_CC'' AND 15)))\<rparr>))"

definition cxx_ident_HP :: "macros \<Rightarrow> ident" where
  "cxx_ident_HP m =
     (let i = new_ident ''HP''
      in i\<lparr>version_major := Some (cxx_dec_digits (num m ''__HP_aCC'' div 10000)),
                   version_minor := Some (cxx_dec_digits (num m ''__HP_aCC'' div 100 mod 100)),
                   version_patch := Some (cxx_dec_digits (num m ''__HP_aCC'' mod 100))\<rparr>)"

definition cxx_ident_Compaq :: "macros \<Rightarrow> ident" where
  "cxx_ident_Compaq m =
     (let i = new_ident ''Compaq''
      in i\<lparr>version_major := Some (cxx_dec_digits (num m ''__DECCXX_VER'' div 10000000)),
                   version_minor := Some (cxx_dec_digits (num m ''__DECCXX_VER'' div 100000 mod 100)),
                   version_patch := Some (cxx_dec_digits (num m ''__DECCXX_VER'' mod 10000))\<rparr>)"

definition cxx_ident_zOS :: "macros \<Rightarrow> ident" where
  "cxx_ident_zOS m =
     (let i = new_ident ''zOS''
      in i\<lparr>version_major := Some (cxx_dec_digits (num m ''__IBMCPP__'' div 100)),
                   version_minor := Some (cxx_dec_digits (num m ''__IBMCPP__'' div 10 mod 10)),
                   version_patch := Some (cxx_dec_digits (num m ''__IBMCPP__'' mod 10))\<rparr>)"

definition cxx_ident_XLClang :: "macros \<Rightarrow> ident" where
  "cxx_ident_XLClang m =
     (let i = new_ident ''XLClang''
      in i\<lparr>version_major := Some (cxx_dec_digits (num m ''__ibmxl_version__'')),
                   version_minor := Some (cxx_dec_digits (num m ''__ibmxl_release__'')),
                   version_patch := Some (cxx_dec_digits (num m ''__ibmxl_modification__'')),
                   version_tweak := Some (cxx_dec_digits (num m ''__ibmxl_ptf_fix_level__''))\<rparr>)"

definition cxx_ident_XL :: "macros \<Rightarrow> ident" where
  "cxx_ident_XL m =
     (let i = new_ident ''XL''
      in i\<lparr>version_major := Some (cxx_dec_digits (num m ''__IBMCPP__'' div 100)),
                   version_minor := Some (cxx_dec_digits (num m ''__IBMCPP__'' div 10 mod 10)),
                   version_patch := Some (cxx_dec_digits (num m ''__IBMCPP__'' mod 10))\<rparr>)"

definition cxx_ident_VisualAge :: "macros \<Rightarrow> ident" where
  "cxx_ident_VisualAge m =
     (let i = new_ident ''VisualAge''
      in i\<lparr>version_major := Some (cxx_dec_digits (num m ''__IBMCPP__'' div 100)),
                   version_minor := Some (cxx_dec_digits (num m ''__IBMCPP__'' div 10 mod 10)),
                   version_patch := Some (cxx_dec_digits (num m ''__IBMCPP__'' mod 10))\<rparr>)"

definition cxx_ident_NVHPC :: "macros \<Rightarrow> ident" where
  "cxx_ident_NVHPC m =
     (let i = new_ident ''NVHPC'';
          i = i\<lparr>version_major := Some (cxx_dec_digits (num m ''__NVCOMPILER_MAJOR__'')),
                   version_minor := Some (cxx_dec_digits (num m ''__NVCOMPILER_MINOR__''))\<rparr>
      in (if defd m ''__NVCOMPILER_PATCHLEVEL__''
              then i\<lparr>version_patch := Some (cxx_dec_digits (num m ''__NVCOMPILER_PATCHLEVEL__''))\<rparr>
              else i))"

definition cxx_ident_PGI :: "macros \<Rightarrow> ident" where
  "cxx_ident_PGI m =
     (let i = new_ident ''PGI'';
          i = i\<lparr>version_major := Some (cxx_dec_digits (num m ''__PGIC__'')),
                   version_minor := Some (cxx_dec_digits (num m ''__PGIC_MINOR__''))\<rparr>
      in (if defd m ''__PGIC_PATCHLEVEL__''
              then i\<lparr>version_patch := Some (cxx_dec_digits (num m ''__PGIC_PATCHLEVEL__''))\<rparr>
              else i))"

definition cxx_ident_Cray :: "macros \<Rightarrow> ident" where
  "cxx_ident_Cray m =
     (let i = new_ident ''Cray''
      in i\<lparr>version_major := Some (cxx_dec_digits (num m ''_RELEASE_MAJOR'')),
                   version_minor := Some (cxx_dec_digits (num m ''_RELEASE_MINOR''))\<rparr>)"

definition cxx_ident_TI :: "macros \<Rightarrow> ident" where
  "cxx_ident_TI m =
     (let i = new_ident ''TI''
      in i\<lparr>version_major := Some (cxx_dec_digits (num m ''__TI_COMPILER_VERSION__'' div 1000000)),
                   version_minor := Some (cxx_dec_digits (num m ''__TI_COMPILER_VERSION__'' div 1000 mod 1000)),
                   version_patch := Some (cxx_dec_digits (num m ''__TI_COMPILER_VERSION__'' mod 1000))\<rparr>)"

definition cxx_ident_FujitsuClang :: "macros \<Rightarrow> ident" where
  "cxx_ident_FujitsuClang m =
     (let i = new_ident ''FujitsuClang''
      in i\<lparr>version_major := Some (cxx_dec_digits (num m ''__FCC_major__'')),
                   version_minor := Some (cxx_dec_digits (num m ''__FCC_minor__'')),
                   version_patch := Some (cxx_dec_digits (num m ''__FCC_patchlevel__'')),
                   version_internal_text := Some (text_of m ''__clang_version__'')\<rparr>)"

definition cxx_ident_Fujitsu :: "macros \<Rightarrow> ident" where
  "cxx_ident_Fujitsu m =
     (let i = new_ident ''Fujitsu'';
          i = (if defd m ''__FCC_version__''
              then i\<lparr>version_text := Some (text_of m ''__FCC_version__'')\<rparr>
              else if defd m ''__FCC_major__''
              then i\<lparr>version_major := Some (cxx_dec_digits (num m ''__FCC_major__'')),
                             version_minor := Some (cxx_dec_digits (num m ''__FCC_minor__'')),
                             version_patch := Some (cxx_dec_digits (num m ''__FCC_patchlevel__''))\<rparr>
              else i)
      in (if defd m ''__fcc_version''
              then i\<lparr>version_internal := Some (cxx_dec_digits (num m ''__fcc_version''))\<rparr>
              else if defd m ''__FCC_VERSION''
              then i\<lparr>version_internal := Some (cxx_dec_digits (num m ''__FCC_VERSION''))\<rparr>
              else i))"

definition cxx_ident_GHS :: "macros \<Rightarrow> ident" where
  "cxx_ident_GHS m =
     (let i = new_ident ''GHS''
      in (if defd m ''__GHS_VERSION_NUMBER''
              then i\<lparr>version_major := Some (cxx_dec_digits (num m ''__GHS_VERSION_NUMBER'' div 100)),
                             version_minor := Some (cxx_dec_digits (num m ''__GHS_VERSION_NUMBER'' div 10 mod 10)),
                             version_patch := Some (cxx_dec_digits (num m ''__GHS_VERSION_NUMBER'' mod 10))\<rparr>
              else i))"

definition cxx_ident_ARMCC :: "macros \<Rightarrow> ident" where
  "cxx_ident_ARMCC m =
     (let i = new_ident ''ARMCC''
      in (if 1000000 \<le> num m ''__ARMCC_VERSION''
              then i\<lparr>version_major := Some (cxx_dec_digits (num m ''__ARMCC_VERSION'' div 1000000)),
                             version_minor := Some (cxx_dec_digits (num m ''__ARMCC_VERSION'' div 10000 mod 100)),
                             version_patch := Some (cxx_dec_digits (num m ''__ARMCC_VERSION'' mod 10000))\<rparr>
              else i\<lparr>version_major := Some (cxx_dec_digits (num m ''__ARMCC_VERSION'' div 100000)),
                             version_minor := Some (cxx_dec_digits (num m ''__ARMCC_VERSION'' div 10000 mod 10)),
                             version_patch := Some (cxx_dec_digits (num m ''__ARMCC_VERSION'' mod 10000))\<rparr>))"

definition cxx_ident_AppleClang :: "macros \<Rightarrow> ident" where
  "cxx_ident_AppleClang m =
     (let i = new_ident ''AppleClang'';
          i = (if defd m ''_MSC_VER''
              then i\<lparr>simulate_id := Some ''MSVC''\<rparr>
              else i);
          i = i\<lparr>version_major := Some (cxx_dec_digits (num m ''__clang_major__'')),
                   version_minor := Some (cxx_dec_digits (num m ''__clang_minor__'')),
                   version_patch := Some (cxx_dec_digits (num m ''__clang_patchlevel__''))\<rparr>;
          i = (if defd m ''_MSC_VER''
              then i\<lparr>simulate_major := Some (cxx_dec_digits (num m ''_MSC_VER'' div 100)),
                             simulate_minor := Some (cxx_dec_digits (num m ''_MSC_VER'' mod 100))\<rparr>
              else i)
      in i\<lparr>version_tweak := Some (cxx_dec_digits (num m ''__apple_build_version__''))\<rparr>)"

definition cxx_ident_ARMClang :: "macros \<Rightarrow> ident" where
  "cxx_ident_ARMClang m =
     (let i = new_ident ''ARMClang''
      in i\<lparr>version_major := Some (cxx_dec_digits (num m ''__ARMCOMPILER_VERSION'' div 1000000)),
                   version_minor := Some (cxx_dec_digits (num m ''__ARMCOMPILER_VERSION'' div 10000 mod 100)),
                   version_patch := Some (cxx_dec_digits (num m ''__ARMCOMPILER_VERSION'' mod 10000)),
                   version_internal := Some (cxx_dec_digits (num m ''__ARMCOMPILER_VERSION''))\<rparr>)"

definition cxx_ident_Clang :: "macros \<Rightarrow> ident" where
  "cxx_ident_Clang m =
     (let i = new_ident ''Clang'';
          i = (if defd m ''_MSC_VER''
              then i\<lparr>simulate_id := Some ''MSVC''\<rparr>
              else i);
          i = i\<lparr>version_major := Some (cxx_dec_digits (num m ''__clang_major__'')),
                   version_minor := Some (cxx_dec_digits (num m ''__clang_minor__'')),
                   version_patch := Some (cxx_dec_digits (num m ''__clang_patchlevel__''))\<rparr>
      in (if defd m ''_MSC_VER''
              then i\<lparr>simulate_major := Some (cxx_dec_digits (num m ''_MSC_VER'' div 100)),
                             simulate_minor := Some (cxx_dec_digits (num m ''_MSC_VER'' mod 100))\<rparr>
              else i))"

definition cxx_ident_GNU :: "macros \<Rightarrow> ident" where
  "cxx_ident_GNU m =
     (let i = new_ident ''GNU'';
          i = (if defd m ''__GNUC__''
              then i\<lparr>version_major := Some (cxx_dec_digits (num m ''__GNUC__''))\<rparr>
              else i\<lparr>version_major := Some (cxx_dec_digits (num m ''__GNUG__''))\<rparr>);
          i = (if defd m ''__GNUC_MINOR__''
              then i\<lparr>version_minor := Some (cxx_dec_digits (num m ''__GNUC_MINOR__''))\<rparr>
              else i)
      in (if defd m ''__GNUC_PATCHLEVEL__''
              then i\<lparr>version_patch := Some (cxx_dec_digits (num m ''__GNUC_PATCHLEVEL__''))\<rparr>
              else i))"

definition cxx_ident_MSVC :: "macros \<Rightarrow> ident" where
  "cxx_ident_MSVC m =
     (let i = new_ident ''MSVC'';
          i = i\<lparr>version_major := Some (cxx_dec_digits (num m ''_MSC_VER'' div 100)),
                   version_minor := Some (cxx_dec_digits (num m ''_MSC_VER'' mod 100))\<rparr>;
          i = (if defd m ''_MSC_FULL_VER''
              then (if 1400 \<le> num m ''_MSC_VER''
                        then i\<lparr>version_patch := Some (cxx_dec_digits (num m ''_MSC_FULL_VER'' mod 100000))\<rparr>
                        else i\<lparr>version_patch := Some (cxx_dec_digits (num m ''_MSC_FULL_VER'' mod 10000))\<rparr>)
              else i)
      in (if defd m ''_MSC_BUILD''
              then i\<lparr>version_tweak := Some (cxx_dec_digits (num m ''_MSC_BUILD''))\<rparr>
              else i))"

definition cxx_ident_ADSP :: "macros \<Rightarrow> ident" where
  "cxx_ident_ADSP m =
     (let i = new_ident ''ADSP''
      in (if defd m ''__VISUALDSPVERSION__''
              then i\<lparr>version_major := Some (cxx_hex_digits (drop_bit 24 (num m ''__VISUALDSPVERSION__''))),
                             version_minor := Some (cxx_hex_digits ((drop_bit 16 (num m ''__VISUALDSPVERSION__'') AND 255))),
                             version_patch := Some (cxx_hex_digits ((drop_bit 8 (num m ''__VISUALDSPVERSION__'') AND 255)))\<rparr>
              else i))"

definition cxx_ident_IAR :: "macros \<Rightarrow> ident" where
  "cxx_ident_IAR m =
     (let i = new_ident ''IAR''
      in (if defd m ''__VER__'' \<and> defd m ''__ICCARM__''
              then i\<lparr>version_major := Some (cxx_dec_digits (num m ''__VER__'' div 1000000)),
                             version_minor := Some (cxx_dec_digits ((num m ''__VER__'' div 1000) mod 1000)),
                             version_patch := Some (cxx_dec_digits (num m ''__VER__'' mod 1000)),
                             version_internal := Some (cxx_dec_digits (num m ''__IAR_SYSTEMS_ICC__''))\<rparr>
              else if defd m ''__VER__'' \<and> (defd m ''__ICCAVR__'' \<or> defd m ''__ICCRX__'' \<or> defd m ''__ICCRH850__'' \<or> defd m ''__ICCRL78__'' \<or> defd m ''__ICC430__'' \<or> defd m ''__ICCRISCV__'' \<or> defd m ''__ICCV850__'' \<or> defd m ''__ICC8051__'' \<or> defd m ''__ICCSTM8__'')
              then i\<lparr>version_major := Some (cxx_dec_digits (num m ''__VER__'' div 100)),
                             version_minor := Some (cxx_dec_digits (num m ''__VER__'' - ((num m ''__VER__'' div 100) * 100))),
                             version_patch := Some (cxx_dec_digits (num m ''__SUBVERSION__'')),
                             version_internal := Some (cxx_dec_digits (num m ''__IAR_SYSTEMS_ICC__''))\<rparr>
              else i))"

definition cxx_compiler_ident :: "macros \<Rightarrow> ident" where
  "cxx_compiler_ident m =
     (if defd m ''__COMO__'' then cxx_ident_Comeau m
      else if defd m ''__INTEL_COMPILER'' \<or> defd m ''__ICC'' then cxx_ident_Intel m
      else if (defd m ''__clang__'' \<and> defd m ''__INTEL_CLANG_COMPILER'') \<or> defd m ''__INTEL_LLVM_COMPILER'' then cxx_ident_IntelLLVM m
      else if defd m ''__PATHCC__'' then cxx_ident_PathScale m
      else if defd m ''__BORLANDC__'' \<and> defd m ''__CODEGEARC_VERSION__'' then cxx_ident_Embarcadero m
      else if defd m ''__BORLANDC__'' then cxx_ident_Borland m
      else if defd m ''__WATCOMC__'' \<and> num m ''__WATCOMC__'' < 1200 then cxx_ident_Watcom m
      else if defd m ''__WATCOMC__'' then cxx_ident_OpenWatcom m
      else if defd m ''__SUNPRO_CC'' then cxx_ident_SunPro m
      else if defd m ''__HP_aCC'' then cxx_ident_HP m
      else if defd m ''__DECCXX'' then cxx_ident_Compaq m
      else if defd m ''__IBMCPP__'' \<and> defd m ''__COMPILER_VER__'' then cxx_ident_zOS m
      else if defd m ''__ibmxl__'' \<and> defd m ''__clang__'' then cxx_ident_XLClang m
      else if defd m ''__IBMCPP__'' \<and> \<not> defd m ''__COMPILER_VER__'' \<and> 800 \<le> num m ''__IBMCPP__'' then cxx_ident_XL m
      else if defd m ''__IBMCPP__'' \<and> \<not> defd m ''__COMPILER_VER__'' \<and> num m ''__IBMCPP__'' < 800 then cxx_ident_VisualAge m
      else if defd m ''__NVCOMPILER'' then cxx_ident_NVHPC m
      else if defd m ''__PGI'' then cxx_ident_PGI m
      else if defd m ''_CRAYC'' then cxx_ident_Cray m
      else if defd m ''__TI_COMPILER_VERSION__'' then cxx_ident_TI m
      else if defd m ''__CLANG_FUJITSU'' then cxx_ident_FujitsuClang m
      else if defd m ''__FUJITSU'' then cxx_ident_Fujitsu m
      else if defd m ''__ghs__'' then cxx_ident_GHS m
      else if defd m ''__SCO_VERSION__'' then new_ident ''SCO''
      else if defd m ''__ARMCC_VERSION'' \<and> \<not> defd m ''__clang__'' then cxx_ident_ARMCC m
      else if defd m ''__clang__'' \<and> defd m ''__apple_build_version__'' then cxx_ident_AppleClang m
      else if defd m ''__clang__'' \<and> defd m ''__ARMCOMPILER_VERSION'' then cxx_ident_ARMClang m
      else if defd m ''__clang__'' then cxx_ident_Clang m
      else if defd m ''__GNUC__'' \<or> defd m ''__GNUG__'' then cxx_ident_GNU m
      else if defd m ''_MSC_VER'' then cxx_ident_MSVC m
      else if defd m ''__VISUALDSPVERSION__'' \<or> defd m ''__ADSPBLACKFIN__'' \<or> defd m ''__ADSPTS__'' \<or> defd m ''__ADSP21000__'' then cxx_ident_ADSP m
      else if defd m ''__IAR_SYSTEMS_ICC__'' \<or> defd m ''__IAR_SYSTEMS_ICC'' then cxx_ident_IAR m
      else if defd m ''__hpux'' \<or> defd m ''__hpua'' then new_ident ''HP''
      else new_ident '''')"

section \<open>Platform and architecture\<close>

definition cxx_platform_id :: "macros \<Rightarrow> string" where
  "cxx_platform_id m =
     (if defd m ''__linux'' \<or> defd m ''__linux__'' \<or> defd m ''linux'' then ''Linux''
      else if defd m ''__MSYS__'' then ''MSYS''
      else if defd m ''__CYGWIN__'' then ''Cygwin''
      else if defd m ''__MINGW32__'' then ''MinGW''
      else if defd m ''__APPLE__'' then ''Darwin''
      else if defd m ''_WIN32'' \<or> defd m ''__WIN32__'' \<or> defd m ''WIN32'' then ''Windows''
      else if defd m ''__FreeBSD__'' \<or> defd m ''__FreeBSD'' then ''FreeBSD''
      else if defd m ''__NetBSD__'' \<or> defd m ''__NetBSD'' then ''NetBSD''
      else if defd m ''__OpenBSD__'' \<or> defd m ''__OPENBSD'' then ''OpenBSD''
      else if defd m ''__sun'' \<or> defd m ''sun'' then ''SunOS''
      else if defd m ''_AIX'' \<or> defd m ''__AIX'' \<or> defd m ''__AIX__'' \<or> defd m ''__aix'' \<or> defd m ''__aix__'' then ''AIX''
      else if defd m ''__hpux'' \<or> defd m ''__hpux__'' then ''HP-UX''
      else if defd m ''__HAIKU__'' then ''Haiku''
      else if defd m ''__BeOS'' \<or> defd m ''__BEOS__'' \<or> defd m ''_BEOS'' then ''BeOS''
      else if defd m ''__QNX__'' \<or> defd m ''__QNXNTO__'' then ''QNX''
      else if defd m ''__tru64'' \<or> defd m ''_tru64'' \<or> defd m ''__TRU64__'' then ''Tru64''
      else if defd m ''__riscos'' \<or> defd m ''__riscos__'' then ''RISCos''
      else if defd m ''__sinix'' \<or> defd m ''__sinix__'' \<or> defd m ''__SINIX__'' then ''SINIX''
      else if defd m ''__UNIX_SV__'' then ''UNIX_SV''
      else if defd m ''__bsdos__'' then ''BSDOS''
      else if defd m ''_MPRAS'' \<or> defd m ''MPRAS'' then ''MP-RAS''
      else if defd m ''__osf'' \<or> defd m ''__osf__'' then ''OSF1''
      else if defd m ''_SCO_SV'' \<or> defd m ''SCO_SV'' \<or> defd m ''sco_sv'' then ''SCO_SV''
      else if defd m ''__ultrix'' \<or> defd m ''__ultrix__'' \<or> defd m ''_ULTRIX'' then ''ULTRIX''
      else if defd m ''__XENIX__'' \<or> defd m ''_XENIX'' \<or> defd m ''XENIX'' then ''Xenix''
      else if defd m ''__WATCOMC__'' then (if defd m ''__LINUX__'' then ''Linux''
         else if defd m ''__DOS__'' then ''DOS''
         else if defd m ''__OS2__'' then ''OS2''
         else if defd m ''__WINDOWS__'' then ''Windows3x''
         else if defd m ''__VXWORKS__'' then ''VxWorks''
         else '''')
      else if defd m ''__INTEGRITY'' then (if defd m ''INT_178B'' then ''Integrity178''
         else ''Integrity'')
      else '''')"

definition cxx_architecture_id :: "macros \<Rightarrow> string" where
  "cxx_architecture_id m =
     (if defd m ''_WIN32'' \<and> defd m ''_MSC_VER'' then (if defd m ''_M_IA64'' then ''IA64''
         else if defd m ''_M_ARM64EC'' then ''ARM64EC''
         else if defd m ''_M_X64'' \<or> defd m ''_M_AMD64'' then ''x64''
         else if defd m ''_M_IX86'' then ''X86''
         else if defd m ''_M_ARM64'' then ''ARM64''
         else if defd m ''_M_ARM'' then (if num m ''_M_ARM'' = 4 then ''ARMV4I''
            else if num m ''_M_ARM'' = 5 then ''ARMV5I''
            else ''ARMV'' @ text_of m ''_M_ARM'')
         else if defd m ''_M_MIPS'' then ''MIPS''
         else if defd m ''_M_SH'' then ''SHx''
         else '''')
      else if defd m ''__WATCOMC__'' then (if defd m ''_M_I86'' then ''I86''
         else if defd m ''_M_IX86'' then ''X86''
         else '''')
      else if defd m ''__IAR_SYSTEMS_ICC__'' \<or> defd m ''__IAR_SYSTEMS_ICC'' then (if defd m ''__ICCARM__'' then ''ARM''
         else if defd m ''__ICCRX__'' then ''RX''
         else if defd m ''__ICCRH850__'' then ''RH850''
         else if defd m ''__ICCRL78__'' then ''RL78''
         else if defd m ''__ICCRISCV__'' then ''RISCV''
         else if defd m ''__ICCAVR__'' then ''AVR''
         else if defd m ''__ICC430__'' then ''MSP430''
         else if defd m ''__ICCV850__'' then ''V850''
         else if defd m ''__ICC8051__'' then ''8051''
         else if defd m ''__ICCSTM8__'' then ''STM8''
         else '''')
      else if defd m ''__ghs__'' then (if defd m ''__PPC64__'' then ''PPC64''
         else if defd m ''__ppc__'' then ''PPC''
         else if defd m ''__ARM__'' then ''ARM''
         else if defd m ''__x86_64__'' then ''x64''
         else if defd m ''__i386__'' then ''X86''
         else '''')
      else if defd m ''__TI_COMPILER_VERSION__'' then (if defd m ''__TI_ARM__'' then ''ARM''
         else if defd m ''__MSP430__'' then ''MSP430''
         else if defd m ''__TMS320C28XX__'' then ''TMS320C28x''
         else if defd m ''__TMS320C6X__'' \<or> defd m ''_TMS320C6X'' then ''TMS320C6x''
         else '''')
      else '''')"

section \<open>The strings\<close>

definition cxx_info_compiler :: "ident \<Rightarrow> string" where
  "cxx_info_compiler i = info ''compiler'' (compiler_id i)"

definition cxx_info_simulate :: "ident \<Rightarrow> string option" where
  "cxx_info_simulate i = map_option (info ''simulate'') (simulate_id i)"

definition cxx_info_cray :: "macros \<Rightarrow> string option" where
  "cxx_info_cray m = (if defd m ''__CRAYXT_COMPUTE_LINUX_TARGET'' then Some (info ''compiler_wrapper'' ''CrayPrgEnv'') else None)"

definition cxx_info_version :: "ident \<Rightarrow> string option" where
  "cxx_info_version i =
     (case version_text i of
        Some s \<Rightarrow> Some (info ''compiler_version'' s)
      | None \<Rightarrow> map_option (\<lambda>x. info ''compiler_version'' (x @ dotted [version_minor i, version_patch i, version_tweak i]))
          (version_major i))"

definition cxx_info_version_internal :: "ident \<Rightarrow> string option" where
  "cxx_info_version_internal i =
     (case version_internal i of
        Some x \<Rightarrow> Some (info ''compiler_version_internal'' x)
      | None \<Rightarrow> map_option (info ''compiler_version_internal'') (version_internal_text i))"

definition cxx_info_simulate_version :: "ident \<Rightarrow> string option" where
  "cxx_info_simulate_version i =
     map_option (\<lambda>x. info ''simulate_version'' (x @ dotted [simulate_minor i, simulate_patch i])) (simulate_major i)"

definition cxx_info_platform :: "macros \<Rightarrow> string" where
  "cxx_info_platform m = info ''platform'' (cxx_platform_id m)"

definition cxx_info_arch :: "macros \<Rightarrow> string" where
  "cxx_info_arch m = info ''arch'' (cxx_architecture_id m)"

section \<open>The language standard\<close>

definition cxx_standard :: "macros \<Rightarrow> nat" where
  "cxx_standard m =
     (if defd m ''__INTEL_COMPILER'' \<and> defd m ''_MSVC_LANG'' \<and> num m ''_MSVC_LANG'' < 201403
      then if defd m ''__INTEL_CXX11_MODE__''
           then if defd m ''__cpp_aggregate_nsdmi'' then 201402 else 201103
           else 199711
      else if defd m ''_MSC_VER'' \<and> defd m ''_MSVC_LANG'' then num m ''_MSVC_LANG''
      else num m ''__cplusplus'')"

definition cxx_info_language_standard_default :: "macros \<Rightarrow> string" where
  "cxx_info_language_standard_default m = info ''standard_default''
     (let s = cxx_standard m
      in if 202002 < s then ''23''
         else if 201703 < s then ''20''
         else if 201703 \<le> s then ''17''
         else if 201402 \<le> s then ''14''
         else if 201103 \<le> s then ''11''
         else ''98'')"

definition cxx_info_language_extensions_default :: "macros \<Rightarrow> string" where
  "cxx_info_language_extensions_default m = info ''extensions_default''
     (if (defd m ''__clang__'' \<or> defd m ''__GNUC__'' \<or> defd m ''__TI_COMPILER_VERSION__'')
         \<and> \<not> defd m ''__STRICT_ANSI__'' \<and> \<not> defd m ''_MSC_VER''
      then ''ON'' else ''OFF'')"

section \<open>The program\<close>

definition cxx_id_main :: "macros \<Rightarrow> nat \<Rightarrow> int res" where
  "cxx_id_main m argc =
     (let i = cxx_compiler_ident m
      in sum_chars 0
          ([cxx_info_compiler i, cxx_info_platform m]
           @ (if version_major i \<noteq> None then present (cxx_info_version i) else [])
           @ (if version_internal i \<noteq> None then present (cxx_info_version_internal i) else [])
           @ present (cxx_info_simulate i)
           @ present (cxx_info_simulate_version i)
           @ present (cxx_info_cray m)
           @ [cxx_info_language_standard_default m, cxx_info_language_extensions_default m]) argc)"

end
