(* ===== verification/Compiler_Id_Cxx.thy ===== *)
theory Compiler_Id_Cxx
  imports Compiler_Cxx
begin

text \<open>
  The check of the C++ compiler against that of the C compiler, branch by branch and string by string: both say the same about
  the same compiler.
\<close>

section \<open>The two programs agree\<close>

text \<open>What the same compiler defines in addition when it compiles C++.\<close>

definition in_cxx :: "nat \<Rightarrow> nat option \<Rightarrow> macros \<Rightarrow> macros" where
  "in_cxx std gnug m = m\<lparr>mac_number := (mac_number m)(''__cplusplus'' \<mapsto> std, ''__GNUG__'' := gnug)\<rparr>"

lemma in_cxx_other:
  "x \<noteq> ''__cplusplus'' \<Longrightarrow> x \<noteq> ''__GNUG__'' \<Longrightarrow> defd (in_cxx std gnug m) x = defd m x \<and> num (in_cxx std gnug m) x = num m x"
  by (simp add: in_cxx_def defd_def num_def)

lemma in_cxx_text: "text_of (in_cxx std gnug m) x = text_of m x"
  by (simp add: in_cxx_def text_of_def)

lemmas in_cxx_simps = in_cxx_other [THEN conjunct1] in_cxx_other [THEN conjunct2] in_cxx_text

text \<open>The macros of compilers that only one of the two programs looks for.\<close>

definition only_one_looks :: "string list" where
  "only_one_looks = [''__COMO__'', ''__SUNPRO_C'', ''__SUNPRO_CC'', ''__HP_cc'', ''__HP_aCC'', ''__DECC'', ''__DECCXX'', ''__IBMC__'',
     ''__IBMCPP__'', ''__TINYC__'', ''__BCC__'', ''__SDCC_VERSION_MAJOR'', ''SDCC'']"

lemma same_defined:
  "defd (in_cxx std gnug m) ''_MSC_VER'' = defd m ''_MSC_VER''"
  "defd (in_cxx std gnug m) ''__GNUC__'' = defd m ''__GNUC__''"
  "defd (in_cxx std gnug m) ''__INTEL_COMPILER_UPDATE'' = defd m ''__INTEL_COMPILER_UPDATE''"
  "defd (in_cxx std gnug m) ''__INTEL_COMPILER_BUILD_DATE'' = defd m ''__INTEL_COMPILER_BUILD_DATE''"
  "defd (in_cxx std gnug m) ''__GNUC_MINOR__'' = defd m ''__GNUC_MINOR__''"
  "defd (in_cxx std gnug m) ''__GNUC_PATCHLEVEL__'' = defd m ''__GNUC_PATCHLEVEL__''"
  "defd (in_cxx std gnug m) ''__PATHCC_PATCHLEVEL__'' = defd m ''__PATHCC_PATCHLEVEL__''"
  "defd (in_cxx std gnug m) ''__NVCOMPILER_PATCHLEVEL__'' = defd m ''__NVCOMPILER_PATCHLEVEL__''"
  "defd (in_cxx std gnug m) ''__PGIC_PATCHLEVEL__'' = defd m ''__PGIC_PATCHLEVEL__''"
  "defd (in_cxx std gnug m) ''__FCC_version__'' = defd m ''__FCC_version__''"
  "defd (in_cxx std gnug m) ''__FCC_major__'' = defd m ''__FCC_major__''"
  "defd (in_cxx std gnug m) ''__fcc_version'' = defd m ''__fcc_version''"
  "defd (in_cxx std gnug m) ''__FCC_VERSION'' = defd m ''__FCC_VERSION''"
  "defd (in_cxx std gnug m) ''__GHS_VERSION_NUMBER'' = defd m ''__GHS_VERSION_NUMBER''"
  "defd (in_cxx std gnug m) ''_MSC_FULL_VER'' = defd m ''_MSC_FULL_VER''"
  "defd (in_cxx std gnug m) ''_MSC_BUILD'' = defd m ''_MSC_BUILD''"
  "defd (in_cxx std gnug m) ''__VISUALDSPVERSION__'' = defd m ''__VISUALDSPVERSION__''"
  "defd (in_cxx std gnug m) ''__VER__'' = defd m ''__VER__''"
  "defd (in_cxx std gnug m) ''__ICCARM__'' = defd m ''__ICCARM__''"
  "defd (in_cxx std gnug m) ''__ICCAVR__'' = defd m ''__ICCAVR__''"
  "defd (in_cxx std gnug m) ''__ICCRX__'' = defd m ''__ICCRX__''"
  "defd (in_cxx std gnug m) ''__ICCRH850__'' = defd m ''__ICCRH850__''"
  "defd (in_cxx std gnug m) ''__ICCRL78__'' = defd m ''__ICCRL78__''"
  "defd (in_cxx std gnug m) ''__ICC430__'' = defd m ''__ICC430__''"
  "defd (in_cxx std gnug m) ''__ICCRISCV__'' = defd m ''__ICCRISCV__''"
  "defd (in_cxx std gnug m) ''__ICCV850__'' = defd m ''__ICCV850__''"
  "defd (in_cxx std gnug m) ''__ICC8051__'' = defd m ''__ICC8051__''"
  "defd (in_cxx std gnug m) ''__ICCSTM8__'' = defd m ''__ICCSTM8__''"
  "defd (in_cxx std gnug m) ''__COMO__'' = defd m ''__COMO__''"
  "defd (in_cxx std gnug m) ''__INTEL_COMPILER'' = defd m ''__INTEL_COMPILER''"
  "defd (in_cxx std gnug m) ''__ICC'' = defd m ''__ICC''"
  "defd (in_cxx std gnug m) ''__clang__'' = defd m ''__clang__''"
  "defd (in_cxx std gnug m) ''__INTEL_CLANG_COMPILER'' = defd m ''__INTEL_CLANG_COMPILER''"
  "defd (in_cxx std gnug m) ''__INTEL_LLVM_COMPILER'' = defd m ''__INTEL_LLVM_COMPILER''"
  "defd (in_cxx std gnug m) ''__PATHCC__'' = defd m ''__PATHCC__''"
  "defd (in_cxx std gnug m) ''__BORLANDC__'' = defd m ''__BORLANDC__''"
  "defd (in_cxx std gnug m) ''__CODEGEARC_VERSION__'' = defd m ''__CODEGEARC_VERSION__''"
  "defd (in_cxx std gnug m) ''__WATCOMC__'' = defd m ''__WATCOMC__''"
  "defd (in_cxx std gnug m) ''__SUNPRO_CC'' = defd m ''__SUNPRO_CC''"
  "defd (in_cxx std gnug m) ''__HP_aCC'' = defd m ''__HP_aCC''"
  "defd (in_cxx std gnug m) ''__DECCXX'' = defd m ''__DECCXX''"
  "defd (in_cxx std gnug m) ''__IBMCPP__'' = defd m ''__IBMCPP__''"
  "defd (in_cxx std gnug m) ''__COMPILER_VER__'' = defd m ''__COMPILER_VER__''"
  "defd (in_cxx std gnug m) ''__ibmxl__'' = defd m ''__ibmxl__''"
  "defd (in_cxx std gnug m) ''__NVCOMPILER'' = defd m ''__NVCOMPILER''"
  "defd (in_cxx std gnug m) ''__PGI'' = defd m ''__PGI''"
  "defd (in_cxx std gnug m) ''_CRAYC'' = defd m ''_CRAYC''"
  "defd (in_cxx std gnug m) ''__TI_COMPILER_VERSION__'' = defd m ''__TI_COMPILER_VERSION__''"
  "defd (in_cxx std gnug m) ''__CLANG_FUJITSU'' = defd m ''__CLANG_FUJITSU''"
  "defd (in_cxx std gnug m) ''__FUJITSU'' = defd m ''__FUJITSU''"
  "defd (in_cxx std gnug m) ''__ghs__'' = defd m ''__ghs__''"
  "defd (in_cxx std gnug m) ''__SCO_VERSION__'' = defd m ''__SCO_VERSION__''"
  "defd (in_cxx std gnug m) ''__ARMCC_VERSION'' = defd m ''__ARMCC_VERSION''"
  "defd (in_cxx std gnug m) ''__apple_build_version__'' = defd m ''__apple_build_version__''"
  "defd (in_cxx std gnug m) ''__ARMCOMPILER_VERSION'' = defd m ''__ARMCOMPILER_VERSION''"
  "defd (in_cxx std gnug m) ''__ADSPBLACKFIN__'' = defd m ''__ADSPBLACKFIN__''"
  "defd (in_cxx std gnug m) ''__ADSPTS__'' = defd m ''__ADSPTS__''"
  "defd (in_cxx std gnug m) ''__ADSP21000__'' = defd m ''__ADSP21000__''"
  "defd (in_cxx std gnug m) ''__IAR_SYSTEMS_ICC__'' = defd m ''__IAR_SYSTEMS_ICC__''"
  "defd (in_cxx std gnug m) ''__IAR_SYSTEMS_ICC'' = defd m ''__IAR_SYSTEMS_ICC''"
  "defd (in_cxx std gnug m) ''__hpux'' = defd m ''__hpux''"
  "defd (in_cxx std gnug m) ''__hpua'' = defd m ''__hpua''"
  by (simp_all add: in_cxx_simps)

lemma same_number:
  "num (in_cxx std gnug m) ''__INTEL_COMPILER'' = num m ''__INTEL_COMPILER''"
  "num (in_cxx std gnug m) ''__INTEL_COMPILER_UPDATE'' = num m ''__INTEL_COMPILER_UPDATE''"
  "num (in_cxx std gnug m) ''__INTEL_COMPILER_BUILD_DATE'' = num m ''__INTEL_COMPILER_BUILD_DATE''"
  "num (in_cxx std gnug m) ''_MSC_VER'' = num m ''_MSC_VER''"
  "num (in_cxx std gnug m) ''__GNUC__'' = num m ''__GNUC__''"
  "num (in_cxx std gnug m) ''__GNUC_MINOR__'' = num m ''__GNUC_MINOR__''"
  "num (in_cxx std gnug m) ''__GNUC_PATCHLEVEL__'' = num m ''__GNUC_PATCHLEVEL__''"
  "num (in_cxx std gnug m) ''__INTEL_LLVM_COMPILER'' = num m ''__INTEL_LLVM_COMPILER''"
  "num (in_cxx std gnug m) ''__PATHCC__'' = num m ''__PATHCC__''"
  "num (in_cxx std gnug m) ''__PATHCC_MINOR__'' = num m ''__PATHCC_MINOR__''"
  "num (in_cxx std gnug m) ''__PATHCC_PATCHLEVEL__'' = num m ''__PATHCC_PATCHLEVEL__''"
  "num (in_cxx std gnug m) ''__CODEGEARC_VERSION__'' = num m ''__CODEGEARC_VERSION__''"
  "num (in_cxx std gnug m) ''__BORLANDC__'' = num m ''__BORLANDC__''"
  "num (in_cxx std gnug m) ''__WATCOMC__'' = num m ''__WATCOMC__''"
  "num (in_cxx std gnug m) ''__ibmxl_version__'' = num m ''__ibmxl_version__''"
  "num (in_cxx std gnug m) ''__ibmxl_release__'' = num m ''__ibmxl_release__''"
  "num (in_cxx std gnug m) ''__ibmxl_modification__'' = num m ''__ibmxl_modification__''"
  "num (in_cxx std gnug m) ''__ibmxl_ptf_fix_level__'' = num m ''__ibmxl_ptf_fix_level__''"
  "num (in_cxx std gnug m) ''__NVCOMPILER_MAJOR__'' = num m ''__NVCOMPILER_MAJOR__''"
  "num (in_cxx std gnug m) ''__NVCOMPILER_MINOR__'' = num m ''__NVCOMPILER_MINOR__''"
  "num (in_cxx std gnug m) ''__NVCOMPILER_PATCHLEVEL__'' = num m ''__NVCOMPILER_PATCHLEVEL__''"
  "num (in_cxx std gnug m) ''__PGIC__'' = num m ''__PGIC__''"
  "num (in_cxx std gnug m) ''__PGIC_MINOR__'' = num m ''__PGIC_MINOR__''"
  "num (in_cxx std gnug m) ''__PGIC_PATCHLEVEL__'' = num m ''__PGIC_PATCHLEVEL__''"
  "num (in_cxx std gnug m) ''_RELEASE_MAJOR'' = num m ''_RELEASE_MAJOR''"
  "num (in_cxx std gnug m) ''_RELEASE_MINOR'' = num m ''_RELEASE_MINOR''"
  "num (in_cxx std gnug m) ''__TI_COMPILER_VERSION__'' = num m ''__TI_COMPILER_VERSION__''"
  "num (in_cxx std gnug m) ''__FCC_major__'' = num m ''__FCC_major__''"
  "num (in_cxx std gnug m) ''__FCC_minor__'' = num m ''__FCC_minor__''"
  "num (in_cxx std gnug m) ''__FCC_patchlevel__'' = num m ''__FCC_patchlevel__''"
  "num (in_cxx std gnug m) ''__fcc_version'' = num m ''__fcc_version''"
  "num (in_cxx std gnug m) ''__FCC_VERSION'' = num m ''__FCC_VERSION''"
  "num (in_cxx std gnug m) ''__GHS_VERSION_NUMBER'' = num m ''__GHS_VERSION_NUMBER''"
  "num (in_cxx std gnug m) ''__ARMCC_VERSION'' = num m ''__ARMCC_VERSION''"
  "num (in_cxx std gnug m) ''__clang_major__'' = num m ''__clang_major__''"
  "num (in_cxx std gnug m) ''__clang_minor__'' = num m ''__clang_minor__''"
  "num (in_cxx std gnug m) ''__clang_patchlevel__'' = num m ''__clang_patchlevel__''"
  "num (in_cxx std gnug m) ''__apple_build_version__'' = num m ''__apple_build_version__''"
  "num (in_cxx std gnug m) ''__ARMCOMPILER_VERSION'' = num m ''__ARMCOMPILER_VERSION''"
  "num (in_cxx std gnug m) ''_MSC_FULL_VER'' = num m ''_MSC_FULL_VER''"
  "num (in_cxx std gnug m) ''_MSC_BUILD'' = num m ''_MSC_BUILD''"
  "num (in_cxx std gnug m) ''__VISUALDSPVERSION__'' = num m ''__VISUALDSPVERSION__''"
  "num (in_cxx std gnug m) ''__VER__'' = num m ''__VER__''"
  "num (in_cxx std gnug m) ''__IAR_SYSTEMS_ICC__'' = num m ''__IAR_SYSTEMS_ICC__''"
  "num (in_cxx std gnug m) ''__SUBVERSION__'' = num m ''__SUBVERSION__''"
  "num (in_cxx std gnug m) ''__IBMCPP__'' = num m ''__IBMCPP__''"
  by (simp_all add: in_cxx_simps)

lemma same_defined_elsewhere:
  "defd (in_cxx std gnug m) ''__linux'' = defd m ''__linux''"
  "defd (in_cxx std gnug m) ''__linux__'' = defd m ''__linux__''"
  "defd (in_cxx std gnug m) ''linux'' = defd m ''linux''"
  "defd (in_cxx std gnug m) ''__MSYS__'' = defd m ''__MSYS__''"
  "defd (in_cxx std gnug m) ''__CYGWIN__'' = defd m ''__CYGWIN__''"
  "defd (in_cxx std gnug m) ''__MINGW32__'' = defd m ''__MINGW32__''"
  "defd (in_cxx std gnug m) ''__APPLE__'' = defd m ''__APPLE__''"
  "defd (in_cxx std gnug m) ''_WIN32'' = defd m ''_WIN32''"
  "defd (in_cxx std gnug m) ''__WIN32__'' = defd m ''__WIN32__''"
  "defd (in_cxx std gnug m) ''WIN32'' = defd m ''WIN32''"
  "defd (in_cxx std gnug m) ''__FreeBSD__'' = defd m ''__FreeBSD__''"
  "defd (in_cxx std gnug m) ''__FreeBSD'' = defd m ''__FreeBSD''"
  "defd (in_cxx std gnug m) ''__NetBSD__'' = defd m ''__NetBSD__''"
  "defd (in_cxx std gnug m) ''__NetBSD'' = defd m ''__NetBSD''"
  "defd (in_cxx std gnug m) ''__OpenBSD__'' = defd m ''__OpenBSD__''"
  "defd (in_cxx std gnug m) ''__OPENBSD'' = defd m ''__OPENBSD''"
  "defd (in_cxx std gnug m) ''__sun'' = defd m ''__sun''"
  "defd (in_cxx std gnug m) ''sun'' = defd m ''sun''"
  "defd (in_cxx std gnug m) ''_AIX'' = defd m ''_AIX''"
  "defd (in_cxx std gnug m) ''__AIX'' = defd m ''__AIX''"
  "defd (in_cxx std gnug m) ''__AIX__'' = defd m ''__AIX__''"
  "defd (in_cxx std gnug m) ''__aix'' = defd m ''__aix''"
  "defd (in_cxx std gnug m) ''__aix__'' = defd m ''__aix__''"
  "defd (in_cxx std gnug m) ''__hpux__'' = defd m ''__hpux__''"
  "defd (in_cxx std gnug m) ''__HAIKU__'' = defd m ''__HAIKU__''"
  "defd (in_cxx std gnug m) ''__BeOS'' = defd m ''__BeOS''"
  "defd (in_cxx std gnug m) ''__BEOS__'' = defd m ''__BEOS__''"
  "defd (in_cxx std gnug m) ''_BEOS'' = defd m ''_BEOS''"
  "defd (in_cxx std gnug m) ''__QNX__'' = defd m ''__QNX__''"
  "defd (in_cxx std gnug m) ''__QNXNTO__'' = defd m ''__QNXNTO__''"
  "defd (in_cxx std gnug m) ''__tru64'' = defd m ''__tru64''"
  "defd (in_cxx std gnug m) ''_tru64'' = defd m ''_tru64''"
  "defd (in_cxx std gnug m) ''__TRU64__'' = defd m ''__TRU64__''"
  "defd (in_cxx std gnug m) ''__riscos'' = defd m ''__riscos''"
  "defd (in_cxx std gnug m) ''__riscos__'' = defd m ''__riscos__''"
  "defd (in_cxx std gnug m) ''__sinix'' = defd m ''__sinix''"
  "defd (in_cxx std gnug m) ''__sinix__'' = defd m ''__sinix__''"
  "defd (in_cxx std gnug m) ''__SINIX__'' = defd m ''__SINIX__''"
  "defd (in_cxx std gnug m) ''__UNIX_SV__'' = defd m ''__UNIX_SV__''"
  "defd (in_cxx std gnug m) ''__bsdos__'' = defd m ''__bsdos__''"
  "defd (in_cxx std gnug m) ''_MPRAS'' = defd m ''_MPRAS''"
  "defd (in_cxx std gnug m) ''MPRAS'' = defd m ''MPRAS''"
  "defd (in_cxx std gnug m) ''__osf'' = defd m ''__osf''"
  "defd (in_cxx std gnug m) ''__osf__'' = defd m ''__osf__''"
  "defd (in_cxx std gnug m) ''_SCO_SV'' = defd m ''_SCO_SV''"
  "defd (in_cxx std gnug m) ''SCO_SV'' = defd m ''SCO_SV''"
  "defd (in_cxx std gnug m) ''sco_sv'' = defd m ''sco_sv''"
  "defd (in_cxx std gnug m) ''__ultrix'' = defd m ''__ultrix''"
  "defd (in_cxx std gnug m) ''__ultrix__'' = defd m ''__ultrix__''"
  "defd (in_cxx std gnug m) ''_ULTRIX'' = defd m ''_ULTRIX''"
  "defd (in_cxx std gnug m) ''__XENIX__'' = defd m ''__XENIX__''"
  "defd (in_cxx std gnug m) ''_XENIX'' = defd m ''_XENIX''"
  "defd (in_cxx std gnug m) ''XENIX'' = defd m ''XENIX''"
  "defd (in_cxx std gnug m) ''__LINUX__'' = defd m ''__LINUX__''"
  "defd (in_cxx std gnug m) ''__DOS__'' = defd m ''__DOS__''"
  "defd (in_cxx std gnug m) ''__OS2__'' = defd m ''__OS2__''"
  "defd (in_cxx std gnug m) ''__WINDOWS__'' = defd m ''__WINDOWS__''"
  "defd (in_cxx std gnug m) ''__VXWORKS__'' = defd m ''__VXWORKS__''"
  "defd (in_cxx std gnug m) ''__INTEGRITY'' = defd m ''__INTEGRITY''"
  "defd (in_cxx std gnug m) ''INT_178B'' = defd m ''INT_178B''"
  "defd (in_cxx std gnug m) ''_M_IA64'' = defd m ''_M_IA64''"
  "defd (in_cxx std gnug m) ''_M_ARM64EC'' = defd m ''_M_ARM64EC''"
  "defd (in_cxx std gnug m) ''_M_X64'' = defd m ''_M_X64''"
  "defd (in_cxx std gnug m) ''_M_AMD64'' = defd m ''_M_AMD64''"
  "defd (in_cxx std gnug m) ''_M_IX86'' = defd m ''_M_IX86''"
  "defd (in_cxx std gnug m) ''_M_ARM64'' = defd m ''_M_ARM64''"
  "defd (in_cxx std gnug m) ''_M_ARM'' = defd m ''_M_ARM''"
  "defd (in_cxx std gnug m) ''_M_MIPS'' = defd m ''_M_MIPS''"
  "defd (in_cxx std gnug m) ''_M_SH'' = defd m ''_M_SH''"
  "defd (in_cxx std gnug m) ''_M_I86'' = defd m ''_M_I86''"
  "defd (in_cxx std gnug m) ''__PPC64__'' = defd m ''__PPC64__''"
  "defd (in_cxx std gnug m) ''__ppc__'' = defd m ''__ppc__''"
  "defd (in_cxx std gnug m) ''__ARM__'' = defd m ''__ARM__''"
  "defd (in_cxx std gnug m) ''__x86_64__'' = defd m ''__x86_64__''"
  "defd (in_cxx std gnug m) ''__i386__'' = defd m ''__i386__''"
  "defd (in_cxx std gnug m) ''__TI_ARM__'' = defd m ''__TI_ARM__''"
  "defd (in_cxx std gnug m) ''__MSP430__'' = defd m ''__MSP430__''"
  "defd (in_cxx std gnug m) ''__TMS320C28XX__'' = defd m ''__TMS320C28XX__''"
  "defd (in_cxx std gnug m) ''__TMS320C6X__'' = defd m ''__TMS320C6X__''"
  "defd (in_cxx std gnug m) ''_TMS320C6X'' = defd m ''_TMS320C6X''"
  "defd (in_cxx std gnug m) ''__CRAYXT_COMPUTE_LINUX_TARGET'' = defd m ''__CRAYXT_COMPUTE_LINUX_TARGET''"
  "defd (in_cxx std gnug m) ''__STRICT_ANSI__'' = defd m ''__STRICT_ANSI__''"
  "num (in_cxx std gnug m) ''_M_ARM'' = num m ''_M_ARM''"
  by (simp_all add: in_cxx_simps)

lemmas same_macros = same_defined same_defined_elsewhere same_number in_cxx_text

text \<open>The branches of the C++ program that look at the same macros as their counterparts do the same.\<close>

lemma cxx_digits: "cxx_dec_digits = dec_digits" "cxx_hex_digits = hex_digits"
  by (simp_all add: fun_eq_iff cxx_dec_digits_def dec_digits_def cxx_hex_digits_def hex_digits_def)

lemma cxx_branches:
  "cxx_ident_PathScale m = ident_PathScale m"
  "cxx_ident_Embarcadero m = ident_Embarcadero m"
  "cxx_ident_Borland m = ident_Borland m"
  "cxx_ident_Watcom m = ident_Watcom m"
  "cxx_ident_OpenWatcom m = ident_OpenWatcom m"
  "cxx_ident_XLClang m = ident_XLClang m"
  "cxx_ident_NVHPC m = ident_NVHPC m"
  "cxx_ident_PGI m = ident_PGI m"
  "cxx_ident_Cray m = ident_Cray m"
  "cxx_ident_TI m = ident_TI m"
  "cxx_ident_FujitsuClang m = ident_FujitsuClang m"
  "cxx_ident_Fujitsu m = ident_Fujitsu m"
  "cxx_ident_GHS m = ident_GHS m"
  "cxx_ident_ARMCC m = ident_ARMCC m"
  "cxx_ident_AppleClang m = ident_AppleClang m"
  "cxx_ident_ARMClang m = ident_ARMClang m"
  "cxx_ident_Clang m = ident_Clang m"
  "cxx_ident_MSVC m = ident_MSVC m"
  "cxx_ident_ADSP m = ident_ADSP m"
  "cxx_ident_IAR m = ident_IAR m"
  "cxx_ident_Intel m = ident_Intel m"
  "cxx_ident_IntelLLVM m = ident_IntelLLVM m"
  by (simp_all only: cxx_digits
      cxx_ident_PathScale_def ident_PathScale_def cxx_ident_Embarcadero_def ident_Embarcadero_def
      cxx_ident_Borland_def ident_Borland_def cxx_ident_Watcom_def ident_Watcom_def
      cxx_ident_OpenWatcom_def ident_OpenWatcom_def cxx_ident_XLClang_def ident_XLClang_def
      cxx_ident_NVHPC_def ident_NVHPC_def cxx_ident_PGI_def ident_PGI_def cxx_ident_Cray_def ident_Cray_def
      cxx_ident_TI_def ident_TI_def cxx_ident_FujitsuClang_def ident_FujitsuClang_def
      cxx_ident_Fujitsu_def ident_Fujitsu_def cxx_ident_GHS_def ident_GHS_def
      cxx_ident_ARMCC_def ident_ARMCC_def cxx_ident_AppleClang_def ident_AppleClang_def
      cxx_ident_ARMClang_def ident_ARMClang_def cxx_ident_Clang_def ident_Clang_def
      cxx_ident_MSVC_def ident_MSVC_def cxx_ident_ADSP_def ident_ADSP_def cxx_ident_IAR_def ident_IAR_def
      cxx_ident_Intel_def ident_Intel_def cxx_ident_IntelLLVM_def ident_IntelLLVM_def)

lemma same_branches:
  "ident_PathScale (in_cxx std gnug m) = ident_PathScale m"
  "ident_Embarcadero (in_cxx std gnug m) = ident_Embarcadero m"
  "ident_Borland (in_cxx std gnug m) = ident_Borland m"
  "ident_Watcom (in_cxx std gnug m) = ident_Watcom m"
  "ident_OpenWatcom (in_cxx std gnug m) = ident_OpenWatcom m"
  "ident_XLClang (in_cxx std gnug m) = ident_XLClang m"
  "ident_NVHPC (in_cxx std gnug m) = ident_NVHPC m"
  "ident_PGI (in_cxx std gnug m) = ident_PGI m"
  "ident_Cray (in_cxx std gnug m) = ident_Cray m"
  "ident_TI (in_cxx std gnug m) = ident_TI m"
  "ident_FujitsuClang (in_cxx std gnug m) = ident_FujitsuClang m"
  "ident_Fujitsu (in_cxx std gnug m) = ident_Fujitsu m"
  "ident_GHS (in_cxx std gnug m) = ident_GHS m"
  "ident_ARMCC (in_cxx std gnug m) = ident_ARMCC m"
  "ident_AppleClang (in_cxx std gnug m) = ident_AppleClang m"
  "ident_ARMClang (in_cxx std gnug m) = ident_ARMClang m"
  "ident_Clang (in_cxx std gnug m) = ident_Clang m"
  "ident_MSVC (in_cxx std gnug m) = ident_MSVC m"
  "ident_ADSP (in_cxx std gnug m) = ident_ADSP m"
  "ident_IAR (in_cxx std gnug m) = ident_IAR m"
  by (simp_all only: same_macros
      ident_PathScale_def ident_Embarcadero_def ident_Borland_def ident_Watcom_def ident_OpenWatcom_def ident_XLClang_def
      ident_NVHPC_def ident_PGI_def ident_Cray_def ident_TI_def ident_FujitsuClang_def ident_Fujitsu_def
      ident_GHS_def ident_ARMCC_def ident_AppleClang_def ident_ARMClang_def ident_Clang_def ident_MSVC_def
      ident_ADSP_def ident_IAR_def)

lemma same_gnu_branches:
  assumes "defd m ''__GNUC__'' \<or> \<not> defd m ''__GNUG__'' \<and> gnug = None"
  shows "ident_Intel (in_cxx std gnug m) = ident_Intel m" "ident_IntelLLVM (in_cxx std gnug m) = ident_IntelLLVM m"
proof -
  have "defd m ''__GNUC__'' \<or> defd (in_cxx std gnug m) ''__GNUG__'' = False \<and> defd m ''__GNUG__'' = False"
    using assms by (auto simp: in_cxx_def defd_def)
  then show "ident_Intel (in_cxx std gnug m) = ident_Intel m" "ident_IntelLLVM (in_cxx std gnug m) = ident_IntelLLVM m"
    by (elim disjE conjE; simp only: same_macros ident_Intel_def ident_IntelLLVM_def if_True if_False)+
qed

lemma cxx_gnu: "defd m ''__GNUC__'' \<Longrightarrow> cxx_ident_GNU (in_cxx std gnug m) = ident_GNU m"
  by (simp only: same_macros cxx_digits cxx_ident_GNU_def ident_GNU_def if_True Let_def)

lemma gnu_only_with_gnuc:
  "defd m ''__GNUC__'' \<or> \<not> defd m ''__GNUG__'' \<and> gnug = None \<Longrightarrow>
   (defd m ''__GNUC__'' \<or> defd (in_cxx std gnug m) ''__GNUG__'') = defd m ''__GNUC__''"
  by (auto simp: in_cxx_def defd_def)

lemma cxx_identifies:
  assumes "\<forall>x \<in> set only_one_looks. \<not> defd m x" and "defd m ''__GNUC__'' \<or> \<not> defd m ''__GNUG__'' \<and> gnug = None"
  shows "cxx_compiler_ident (in_cxx std gnug m) = compiler_ident m"
proof -
  have no: "defd m ''__COMO__'' = False" "defd m ''__SUNPRO_C'' = False" "defd m ''__SUNPRO_CC'' = False" "defd m ''__HP_cc'' = False"
    "defd m ''__HP_aCC'' = False" "defd m ''__DECC'' = False" "defd m ''__DECCXX'' = False" "defd m ''__IBMC__'' = False"
    "defd m ''__IBMCPP__'' = False" "defd m ''__TINYC__'' = False" "defd m ''__BCC__'' = False"
    "defd m ''__SDCC_VERSION_MAJOR'' = False" "defd m ''SDCC'' = False"
    using assms(1) by (simp_all add: only_one_looks_def)
  show ?thesis
    by (simp only: cxx_compiler_ident_def compiler_ident_def same_macros no cxx_branches same_branches same_gnu_branches [OF assms(2)]
        gnu_only_with_gnuc [OF assms(2)] if_False simp_thms cxx_gnu cong: if_cong)
qed

lemma cxx_platform: "cxx_platform_id (in_cxx std gnug m) = platform_id m"
  by (simp only: cxx_platform_id_def platform_id_def same_macros)

lemma cxx_architecture: "cxx_architecture_id (in_cxx std gnug m) = architecture_id m"
  by (simp only: cxx_architecture_id_def architecture_id_def same_macros)

lemmas cxx_strings =
  cxx_info_compiler_def info_compiler_def cxx_info_simulate_def info_simulate_def cxx_info_cray_def info_cray_def
  cxx_info_version_def info_version_def cxx_info_version_internal_def info_version_internal_def
  cxx_info_simulate_version_def info_simulate_version_def cxx_info_platform_def info_platform_def cxx_info_arch_def info_arch_def
  cxx_info_language_extensions_default_def info_language_extensions_default_def

text \<open>C22: The C and the C++ check, two files with a translation each, say the same about a compiler. When the same compiler
  compiles C++, defining \<open>__cplusplus\<close> and, if it defines \<open>__GNUC__\<close>, also \<open>__GNUG__\<close>, the C++ program identifies it with the
  same name, version and simulated compiler, and all strings that both programs have are equal: compiler, version, internal
  version, simulated compiler and version, wrapper, platform, architecture and extensions. Excepted are the vendors whose C and C++
  compilers announce themselves with different macros or whose macros only one of the programs knows (\<open>only_one_looks\<close>).
\<close>

theorem c_and_cxx_checks_agree:
  assumes "\<forall>x \<in> set only_one_looks. \<not> defd m x" and "defd m ''__GNUC__'' \<or> \<not> defd m ''__GNUG__'' \<and> gnug = None"
  shows "let m' = in_cxx std gnug m; i = compiler_ident m; i' = cxx_compiler_ident m'
    in i' = i \<and> cxx_info_compiler i' = info_compiler i \<and> cxx_info_version i' = info_version i
      \<and> cxx_info_version_internal i' = info_version_internal i \<and> cxx_info_simulate i' = info_simulate i
      \<and> cxx_info_simulate_version i' = info_simulate_version i \<and> cxx_info_cray m' = info_cray m
      \<and> cxx_info_platform m' = info_platform m \<and> cxx_info_arch m' = info_arch m
      \<and> cxx_info_language_extensions_default m' = info_language_extensions_default m"
  unfolding Let_def cxx_identifies [OF assms] cxx_strings cxx_platform cxx_architecture same_macros by (intro conjI refl)

lemma c_and_cxx_checks_agree_witness:
  "compiler_id (cxx_compiler_ident (in_cxx 201703 (Some 11) demo_macros)) = ''GNU''"
proof -
  have "compiler_id (compiler_ident demo_macros) = ''GNU''"
    by (simp add: compiler_ident_def defd_def demo_macros_def)
  moreover have "\<forall>x \<in> set only_one_looks. \<not> defd demo_macros x" "defd demo_macros ''__GNUC__''"
    by (simp_all add: only_one_looks_def defd_def demo_macros_def)
  ultimately show ?thesis using c_and_cxx_checks_agree [of demo_macros "Some 11" 201703] by (simp add: Let_def)
qed

lemma cxx_standard_gnu:
  assumes "\<not> defd m ''__INTEL_COMPILER''" and "\<not> defd m ''_MSC_VER''"
  shows "cxx_standard (in_cxx std gnug m) = std"
  using assms by (simp add: cxx_standard_def in_cxx_def defd_def num_def)

lemma cxx_id_main_in_bounds:
  assumes "argc \<le> 15"
  shows "\<exists>r. cxx_id_main m argc = Inr r"
  unfolding cxx_id_main_def Let_def
  by (rule sum_chars_in_bounds)
     (use assms in \<open>auto simp: present_def cxx_strings cxx_info_language_standard_default_def Let_def split: option.splits if_splits\<close>)

end
