(* ===== verification/Spec2Isabelle.thy ===== *)
theory Spec2Isabelle
  imports Rtp_Main Ftp_Users Ftp_Programs Ftp_Blocking Experiment Hello Compiler_Id_Cxx
begin

text \<open>
  A verification library for the programs of a computer networks course: the reliable transport protocol of \<open>lab2\<close>, the
  file transfer programs of \<open>lab1\<close>, the network experiment of \<open>lab4\<close> and the greeting of \<open>lab0\<close>. Every definition
  that models code carries the name of the function it models, with a prefix where two programs use the same name.

  \<^bold>\<open>Foundations.\<close> \<open>Prelude\<close> has the machine words, the results (a value, or a fault: \<open>Log_Fatal\<close> for a program that
  prints a message and exits, \<open>Undef\<close> for undefined behaviour, \<open>Blocked\<close> for a system call that never returns, \<open>Signal\<close>
  and \<open>Uncaught\<close> for a signal or an exception that ends the program), checked reads and writes of memory, C's conversion to
  \<open>int\<close>, partial correctness of results (\<open>returns\<close>) and the locale \<open>invariant_system\<close>: an invariant that the initial states
  have and the steps keep holds in all reachable states. \<open>Args\<close> has \<open>atoi\<close> and the decimal text of numbers.

  \<^bold>\<open>The transport protocol\<close> (\<open>lab2/src\<close>). A sender and a receiver exchange UDP packets that the network can lose,
  duplicate, reorder and corrupt.
  \<open>Crc\<close> (\<open>util.c\<close>: \<open>crc32_for_byte\<close>, \<open>crc32\<close>, \<open>compute_checksum\<close>) shows that the table-driven code computes the
  standard CRC-32 and detects bursts of 32 bits. \<open>Seqnum\<close> (\<open>seqnum_add\<close>, \<open>sqn_dis\<close>, \<open>seqnum_is_in\<close>) is the
  arithmetic on the circle of 31-bit numbers. \<open>Window\<close> is \<open>update_window\<close>, with a locale for a window buffer. \<open>Packet\<close>
  (\<open>rtp.c\<close>, \<open>rtp.h\<close>) is the packed layout, \<open>send_packet\<close> and \<open>recv_packet\<close>; system calls are oracles in the record
  \<open>endpoint\<close>. \<open>Handshake\<close> has the four functions that establish and break a connection, each over the list of what
  \<open>recvfrom\<close> returns, so that every loop is structural recursion and needs no fuel. \<open>Files\<close> is \<open>read_file\<close> and
  \<open>write_file\<close>, with what \<open>read_file\<close> does to a file of any size: it silently stops after 2 MiB, and takes a size for an \<open>int\<close>. \<open>Sender\<close> and \<open>Receiver\<close> are the two \<open>transfer_data\<close> functions, in both modes, one definition for each
  part of the loop bodies. \<open>Delivery\<close> relates the bytes to the packets of a file. \<open>Network\<close> is the system of both loops and a
  network that holds every packet ever sent, an inductive step relation. \<open>Arq\<close> is the abstract protocol: a locale with the
  laws of a window protocol, interpreted for Go-Back-N and for Selective Repeat, whose invariant gives delivery. \<open>Liveness\<close>
  shows that a transfer can always be completed. \<open>Programs\<close> joins handshake, transfer and termination into the two \<open>main\<close>
  functions and shows (\<open>run_follows\<close>) that runs of the two loops are runs of the interleaved system. \<open>Rtp\<close> has the properties
  of the transfer; in \<open>Rtp_Main\<close> the two \<open>main\<close> functions run against each other, started as their usage says (\<open>set_up\<close>: equal
  positive window sizes, equal modes, a file below 2 GiB): when the receiver returns it has written the first 2 MiB of the file,
  with the exception that C1 states; for some network both return; and neither has undefined behaviour.

  \<^bold>\<open>File transfer\<close> (\<open>lab1\<close>). A client and an event-driven server exchange posts, each a header with a length and data, over
  TCP. \<open>Ftp_Stream\<close> (\<open>ftp_utils.hpp\<close>: \<open>ssend\<close>, \<open>srecv\<close>) is a socket whose incoming bytes arrive in segments that the
  network chose, until the stream ends, fails or falls silent; the loops decrease the bytes that are left. \<open>Ftp_Post\<close> is
  \<open>ftp_header\<close>, \<open>send_post\<close>, \<open>recv_post\<close> and the file functions, with the locale \<open>framing\<close> for a stream of posts that can
  be taken apart. \<open>Ftp_Server\<close> and \<open>Ftp_Client\<close> are the two programs: a record of their globals, a function for each handler or
  command, the tables through which they are called, and the loops, over the list of events or of input bytes. \<open>Ftp_Session\<close>
  is the server's invariant and what a handler leaves alone, with the locale \<open>handler_invariant\<close> for whatever all handlers keep;
  \<open>Ftp\<close> has what client and server promise each other for single commands, and what a peer that does not keep to the protocol
  can do. \<open>Ftp_Spec\<close> is the specification of a session, in which there are only two file systems, a directory and a screen,
  and shows that each program for itself keeps it; \<open>Ftp_Refine\<close> puts the two together: an exchange is a command at the prompt
  and the request that is served for it, each side receiving what the other one sends, and every sequence of exchanges of
  well-behaved commands refines the specification. Well-behaved (\<open>spec_ok\<close>, at every step \<open>run_ok\<close>) is a command whose name
  fits into the buffers and can be looked up, whose file is below 2 GiB, and, for a \<open>put\<close>, is there; that does not \<open>cd\<close> to a
  file, nor \<open>get\<close> or \<open>put\<close> a directory; whose target can be written; and the output of whose shell command fits. What happens
  otherwise is in \<open>Ftp\<close> and \<open>Ftp_Blocking\<close>. \<open>Ftp_Users\<close> lifts the refinement to several users whose exchanges are
  interleaved. \<open>Ftp_Main\<close> and \<open>Ftp_Programs\<close> run the two \<open>main\<close> functions against each other, from the first line that the user
  types to the end of the input: every session of well-behaved commands completes, and if both return then the result is that
  of the specification, whatever arrived; \<open>Ftp_Blocking\<close> shows how one client can stop the server for all others. What the
  programs print, the messages of \<open>serror\<close> included, is part of their states. The record \<open>os\<close> is a parameter: how a path
  resolves, what a shell command prints and how it leaves the files, where files may be created, which paths cannot be looked
  up, and what uninitialised buffers hold.

  \<^bold>\<open>The network experiment\<close> (\<open>lab4\<close>). Two scripts configure a simulation in ns-3. \<open>Ns3\<close> records the calls that a script
  makes; what they return is an arbitrary function of the calls before, a parameter. \<open>Dumbbell\<close> and \<open>Dumbbell_Base\<close> are the
  scripts in the sections of their comments. \<open>Experiment\<close> states the documented behaviour of ns-3 (\<open>ns_laws\<close>, \<open>ns_ready\<close>,
  \<open>run_ok\<close>), gives an installation that has it, and shows which network is built, that the completion times are exact, and
  that the two scripts agree. \<open>Hello\<close> is the program of \<open>lab0\<close>.

  \<^bold>\<open>The compiler check\<close> that CMake left in the build directory of \<open>lab1\<close>: \<open>Compiler_Id\<close> has the branches of the
  preprocessor as functions of the macros that are defined, the strings in which the result is put, and \<open>main\<close>.
  \<open>Compiler_Cxx\<close> is the C++ program, translated from its own file; \<open>Compiler_Id_Cxx\<close> compares the two, branch by branch and
  string by string, and shows that both say the same about a compiler.

  \<^bold>\<open>Integers and bounds.\<close> Words keep their width; an \<open>int\<close> that the code compares with a \<open>size_t\<close> is converted to 64 bits.
  Buffers are lists of their length, so that an access outside is \<open>Undef\<close>. No definition uses fuel: loops over what the
  environment delivers recurse on the list of events, and the others have a measure.

  \<^bold>\<open>Not modelled.\<close> The logging of \<open>lab2\<close> and the printing of \<open>lab1\<close> that is compiled with \<open>DEBUG\<close> only; reading a
  directory as a file, which the model takes for a file that cannot be opened; shell commands that create or remove
  directories or act on anything but files and their output; the test drivers \<open>lab1/test_local/test.cpp\<close>,
  \<open>lab2/src/test.cpp\<close> and \<open>lab2/test/test.cpp\<close>; GoogleTest; and the copies of the compiler checks in \<open>lab2\<close>, which are
  those of \<open>lab1\<close> byte for byte.
\<close>

end
